(* ===== verification/Prelude.thy ===== *)
theory Prelude
  imports Main "HOL-Library.Word" "HOL-Library.Signed_Division"
begin

section \<open>Shared vocabulary of the development\<close>

text \<open>
  Go values as every theory of the development reads them: \<open>string\<close> is a byte string (Go strings
  and \<open>[]byte\<close> alike), \<open>go_int\<close> is Go's 64-bit \<open>int\<close> and \<open>int64\<close>, \<open>uint32\<close> its 32-bit unsigned
  integer. Errors are values of \<open>goerr\<close>, a function that returns \<open>(T, error)\<close> has a result of
  type \<open>'a res\<close>, and a function that may also end the process (\<open>log.Fatal\<close>) or panic has a
  result of type \<open>'a outcome\<close>. The theory also holds the decimal digits and the list lemmas the
  components share.
\<close>

named_theorems digit_simps \<open>decimal digits as bytes and as numbers\<close>

subsection \<open>Integers\<close>

type_synonym go_int = "64 word"
type_synonym uint32 = "32 word"

lemma sint_range64: "- (2 ^ 63) \<le> sint (w :: go_int)" "sint (w :: go_int) < 2 ^ 63"
  using sint_ge [of w] sint_lt [of w] by simp_all

lemma sint_of_int64:
  "- (2 ^ 63) \<le> i \<Longrightarrow> i < 2 ^ 63 \<Longrightarrow> sint (word_of_int i :: go_int) = i"
  by (simp add: signed_of_int signed_take_bit_int_eq_self)

lemma unat_uint32_less: "unat (w :: uint32) < 2 ^ 32"
  using unsigned_less [of w] by simp

lemma unat_of_nat_uint32: "n < 2 ^ 32 \<Longrightarrow> unat (of_nat n :: uint32) = n"
  by (simp add: unsigned_of_nat take_bit_nat_eq_self)

subsection \<open>Errors and outcomes\<close>

text \<open>
  The causes \<open>strconv.ErrSyntax\<close> and \<open>strconv.ErrRange\<close>.
\<close>

datatype num_err = ErrSyntax | ErrRange

text \<open>
  \<open>Err t\<close> is an error whose text is \<open>t\<close> (\<open>errors.New\<close>, \<open>fmt.Errorf\<close> without a cause, an error of
  an external package); \<open>Wrap t e\<close> is \<open>fmt.Errorf\<close> with the text \<open>t\<close> followed by that of the
  cause \<open>e\<close>, \<open>WrapIn t e u\<close> the same with a text \<open>u\<close> after it, \<open>WrapQuoted t s u e\<close> the text
  \<open>t\<close>, \<open>s\<close> in quotes (\<open>%q\<close>), \<open>u\<close> and the cause; \<open>NumError f s k\<close> is \<open>*strconv.NumError\<close>. The
  last three are the errors of \<open>encoding/json\<close> and \<open>encoding/base64\<close>, without their byte
  offsets.
\<close>

datatype goerr =
    Err string
  | Wrap string goerr
  | WrapIn string goerr string
  | WrapQuoted string string string goerr
  | NumError string string num_err
  | JsonSyntaxError
  | UnmarshalTypeError string string
  | CorruptInputError

type_synonym 'a res = "goerr + 'a"

datatype 'a outcome = Ret 'a | Fatal goerr | Panic string

fun outcome_bind :: "'a outcome \<Rightarrow> ('a \<Rightarrow> 'b outcome) \<Rightarrow> 'b outcome" where
  "outcome_bind (Ret x) f = f x"
| "outcome_bind (Fatal e) f = Fatal e"
| "outcome_bind (Panic m) f = Panic m"

fun returns :: "'a outcome \<Rightarrow> bool" where
  "returns (Ret _) = True"
| "returns _ = False"

lemma returns_iff: "returns r \<longleftrightarrow> (\<exists>x. r = Ret x)"
  by (cases r) auto

lemma outcome_bind_eq_Ret [simp]:
  "outcome_bind r f = Ret y \<longleftrightarrow> (\<exists>x. r = Ret x \<and> f x = Ret y)"
  by (cases r) auto

lemma isl_iff: "isl r \<longleftrightarrow> (\<exists>e. r = Inl e)"
  by (cases r) auto

subsection \<open>Decimal digits\<close>

abbreviation byte :: "char \<Rightarrow> nat" where
  "byte c \<equiv> of_char c"

definition is_digit :: "char \<Rightarrow> bool" where
  "is_digit c \<longleftrightarrow> 48 \<le> byte c \<and> byte c \<le> 57"

definition digit_val :: "char \<Rightarrow> nat" where
  "digit_val c = byte c - 48"

definition digit_char :: "nat \<Rightarrow> char" where
  "digit_char d = char_of (48 + d)"

lemma byte_char_of [digit_simps]: "n < 256 \<Longrightarrow> byte (char_of n) = n"
  by simp

lemma byte_less [simp]: "byte c < 256"
  using of_char_mod_256 [of c] by (metis mod_less_divisor zero_less_numeral)

lemma is_digit_digit_char [digit_simps]: "d < 10 \<Longrightarrow> is_digit (digit_char d)"
  by (simp add: is_digit_def digit_char_def)

lemma digit_val_digit_char [digit_simps]: "d < 10 \<Longrightarrow> digit_val (digit_char d) = d"
  by (simp add: digit_val_def digit_char_def)

lemma digit_val_less [digit_simps]: "is_digit c \<Longrightarrow> digit_val c < 10"
  by (auto simp: is_digit_def digit_val_def)

lemma not_is_digit_sign [simp]:
  "\<not> is_digit CHR ''-''" "\<not> is_digit CHR ''+''" "\<not> is_digit CHR ''.''"
  by (simp_all add: is_digit_def)

text \<open>The number a digit string denotes, continuing from \<open>a\<close>.\<close>

definition digits_from :: "nat \<Rightarrow> string \<Rightarrow> nat" where
  "digits_from a cs = foldl (\<lambda>n c. 10 * n + digit_val c) a cs"

definition digits_val :: "string \<Rightarrow> nat" where
  "digits_val cs = digits_from 0 cs"

lemma digits_from_Nil [simp]: "digits_from a [] = a"
  by (simp add: digits_from_def)

lemma digits_from_Cons [simp]: "digits_from a (c # cs) = digits_from (10 * a + digit_val c) cs"
  by (simp add: digits_from_def)

lemma digits_from_append [simp]: "digits_from a (cs @ ds) = digits_from (digits_from a cs) ds"
  by (simp add: digits_from_def)

lemma digits_from_ge: "a \<le> digits_from a cs"
proof (induction cs arbitrary: a)
  case (Cons c cs)
  have "a \<le> 10 * a + digit_val c" by simp
  also have "\<dots> \<le> digits_from (10 * a + digit_val c) cs" by (rule Cons.IH)
  finally show ?case by simp
qed simp

lemma digits_from_eq: "digits_from a cs = a * 10 ^ length cs + digits_val cs"
proof (induction cs arbitrary: a)
  case (Cons c cs)
  have "digits_from (10 * a + digit_val c) cs = (10 * a + digit_val c) * 10 ^ length cs + digits_val cs"
    by (rule Cons.IH)
  moreover have "digits_from (digit_val c) cs = digit_val c * 10 ^ length cs + digits_val cs"
    by (rule Cons.IH)
  ultimately show ?case by (simp add: digits_val_def algebra_simps)
qed (simp add: digits_val_def)

fun show_nat :: "nat \<Rightarrow> string" where
  "show_nat n =
     (if n < 10 then [digit_char n] else show_nat (n div 10) @ [digit_char (n mod 10)])"

declare show_nat.simps [simp del]

lemma show_nat_nonempty [simp]: "show_nat n \<noteq> []"
  by (subst show_nat.simps) simp

lemma show_nat_digits: "list_all is_digit (show_nat n)"
proof (induction n rule: show_nat.induct)
  case (1 n)
  then show ?case
    by (subst show_nat.simps) (auto simp: digit_simps)
qed

lemma digits_val_show_nat [simp]: "digits_val (show_nat n) = n"
proof (induction n rule: show_nat.induct)
  case (1 n)
  show ?case
  proof (cases "n < 10")
    case True
    then show ?thesis by (subst show_nat.simps) (simp add: digits_val_def digit_simps)
  next
    case False
    with 1 have "digits_from 0 (show_nat (n div 10)) = n div 10"
      by (simp add: digits_val_def)
    with False show ?thesis
      by (subst show_nat.simps) (simp add: digits_val_def digit_simps)
  qed
qed

lemma hd_show_nat_digit: "is_digit (hd (show_nat n))"
  using show_nat_digits [of n] by (cases "show_nat n") auto

lemma hd_show_nat: "hd (show_nat n) = CHR ''0'' \<longleftrightarrow> n = 0"
proof (induction n rule: show_nat.induct)
  case (1 n)
  show ?case
  proof (cases "n < 10")
    case True
    have "byte (digit_char n) = byte CHR ''0'' \<longleftrightarrow> n = 0"
      using True by (simp add: digit_char_def)
    with True show ?thesis by (subst show_nat.simps) (simp only: of_char_eq_iff if_True list.sel)
  next
    case False
    with 1 show ?thesis by (subst show_nat.simps) (simp add: hd_append)
  qed
qed

text \<open>A decimal numeral with its sign, as \<open>strconv.FormatInt\<close> prints it in base 10.\<close>

definition show_int :: "int \<Rightarrow> string" where
  "show_int i = (if i < 0 then CHR ''-'' # show_nat (nat (- i)) else show_nat (nat i))"

lemma show_int_nonempty [simp]: "show_int i \<noteq> []"
  by (simp add: show_int_def)

subsection \<open>Lists\<close>

lemma takeWhile_append_stop:
  "list_all P xs \<Longrightarrow> ys = [] \<or> \<not> P (hd ys) \<Longrightarrow> takeWhile P (xs @ ys) = xs"
  by (induction xs) (cases ys, auto)+

lemma dropWhile_append_stop:
  "list_all P xs \<Longrightarrow> ys = [] \<or> \<not> P (hd ys) \<Longrightarrow> dropWhile P (xs @ ys) = ys"
  by (induction xs) (cases ys, auto)+

lemma length_dropWhile_lt: "length (dropWhile P xs) < Suc (length xs)"
  using length_dropWhile_le [of P xs] by simp

end
