(* ===== verification/Strconv.thy ===== *)
theory Strconv
  imports Prelude
begin

section \<open>Integers as text: Go's strconv\<close>

text \<open>
  The part of \<open>strconv\<close> the program uses: \<open>Itoa\<close>, \<open>Atoi\<close>, \<open>ParseInt(s, 10, 64)\<close>, \<open>ParseUint(s,
  10, 64)\<close> and \<open>FormatBool\<close>. \<open>chaincodes\<close> prints the worker's counter with \<open>Itoa\<close> and reads
  worker identifiers with \<open>Atoi\<close>; the chaincode reads the counter argument with \<open>Atoi\<close>;
  \<open>cmd/simi.go\<close> reads the completion index with it. The interface \<open>text_codec\<close> (printing
  followed by reading gives the value back) is what the clients of a printer and its reader rely
  on; it is interpreted here for \<open>Itoa\<close> and \<open>Atoi\<close>, and in \<open>Base64\<close> and \<open>Json\<close> for the encoders
  of those theories.
\<close>

subsection \<open>Definitions\<close>

definition max_uint64 :: nat where
  "max_uint64 = 2 ^ 64 - 1"

text \<open>
  The loop of \<open>ParseUint\<close> in base 10: \<open>n\<close> is the value of the digits read. The range check comes
  before the rest of the text is looked at, so an overflowing prefix is \<open>ErrRange\<close> even when a
  byte that is no digit follows.
\<close>

fun parse_uint_loop :: "nat \<Rightarrow> string \<Rightarrow> num_err + nat" where
  "parse_uint_loop n [] = Inr n"
| "parse_uint_loop n (c # cs) =
     (if \<not> is_digit c then Inl ErrSyntax
      else if max_uint64 div 10 + 1 \<le> n then Inl ErrRange
      else if max_uint64 < 10 * n + digit_val c then Inl ErrRange
      else parse_uint_loop (10 * n + digit_val c) cs)"

definition parse_uint :: "string \<Rightarrow> num_err + nat" where
  "parse_uint s = (if s = [] then Inl ErrSyntax else parse_uint_loop 0 s)"

text \<open>\<open>ParseUint\<close> with the sign stripped, then the range of \<open>int64\<close>.\<close>

definition parse_signed :: "bool \<Rightarrow> string \<Rightarrow> num_err + int" where
  "parse_signed neg s =
     (case parse_uint s of
        Inl e \<Rightarrow> Inl e
      | Inr un \<Rightarrow>
          if \<not> neg \<and> 2 ^ 63 \<le> un then Inl ErrRange
          else if neg \<and> 2 ^ 63 < un then Inl ErrRange
          else Inr (if neg then - int un else int un))"

definition parse_int :: "string \<Rightarrow> num_err + int" where
  "parse_int s =
     (case s of
        [] \<Rightarrow> Inl ErrSyntax
      | c # cs \<Rightarrow>
          if c = CHR ''+'' then parse_signed False cs
          else if c = CHR ''-'' then parse_signed True cs
          else parse_signed False s)"

definition Atoi :: "string \<Rightarrow> go_int res" where
  "Atoi s = (case parse_int s of
      Inl e \<Rightarrow> Inl (NumError ''Atoi'' s e)
    | Inr i \<Rightarrow> Inr (word_of_int i))"

definition Itoa :: "go_int \<Rightarrow> string" where
  "Itoa w = show_int (sint w)"

definition FormatBool :: "bool \<Rightarrow> string" where
  "FormatBool b = (if b then ''true'' else ''false'')"

subsection \<open>Printing and reading as an interface\<close>

locale text_codec =
  fixes enc :: "'a \<Rightarrow> string"
    and dec :: "string \<Rightarrow> 'e + 'a"
  assumes dec_enc: "dec (enc x) = Inr x"
begin

lemma enc_eq_iff: "enc x = enc y \<longleftrightarrow> x = y"
proof
  assume "enc x = enc y"
  then have "dec (enc x) = dec (enc y)" by simp
  then show "x = y" by (simp add: dec_enc)
qed simp

lemma enc_inj: "inj enc"
  by (simp add: inj_def enc_eq_iff)

lemma dec_range_total: "s \<in> range enc \<Longrightarrow> \<not> isl (dec s)"
  by (auto simp: dec_enc)

lemma map_dec_enc: "map (\<lambda>x. dec (enc x)) xs = map Inr xs"
  by (simp add: dec_enc)

end

subsection \<open>The reading loop\<close>

lemma max_uint64_div [simp]: "max_uint64 div 10 + 1 = 1844674407370955162"
  by (simp add: max_uint64_def)

lemma parse_uint_loop_digits:
  "list_all is_digit cs \<Longrightarrow> digits_from n cs \<le> max_uint64 \<Longrightarrow>
    parse_uint_loop n cs = Inr (digits_from n cs)"
proof (induction cs arbitrary: n)
  case (Cons c cs)
  have le: "10 * n + digit_val c \<le> max_uint64"
    using digits_from_ge [of "10 * n + digit_val c" cs] Cons.prems(2) by simp
  then have "n < 1844674407370955162" by (simp add: max_uint64_def)
  with le Cons show ?case by (simp add: max_uint64_def)
qed simp

lemma parse_uint_loop_Inr:
  "parse_uint_loop n cs = Inr v \<Longrightarrow> n \<le> max_uint64 \<Longrightarrow>
    list_all is_digit cs \<and> v = digits_from n cs \<and> v \<le> max_uint64"
  by (induction cs arbitrary: n) (auto split: if_splits)

lemma parse_uint_Inr_iff:
  "parse_uint s = Inr v \<longleftrightarrow>
    s \<noteq> [] \<and> list_all is_digit s \<and> v = digits_val s \<and> v \<le> max_uint64"
  using parse_uint_loop_Inr [of 0 s v] parse_uint_loop_digits [of s 0]
  by (auto simp: parse_uint_def digits_val_def max_uint64_def)

lemma parse_uint_show_nat: "n \<le> max_uint64 \<Longrightarrow> parse_uint (show_nat n) = Inr n"
  by (simp add: parse_uint_Inr_iff show_nat_digits)

lemma parse_int_show_int:
  assumes "- (2 ^ 63) \<le> i" and "i < 2 ^ 63"
  shows "parse_int (show_int i) = Inr i"
proof (cases "i < 0")
  case True
  with assms have "nat (- i) \<le> 2 ^ 63" by simp
  moreover from this have "nat (- i) \<le> max_uint64" by (simp add: max_uint64_def)
  ultimately show ?thesis
    using True by (simp add: show_int_def parse_int_def parse_signed_def parse_uint_show_nat)
next
  case False
  with assms have n: "nat i < 2 ^ 63" by simp
  then have "nat i \<le> max_uint64" by (simp add: max_uint64_def)
  then have p: "parse_uint (show_nat (nat i)) = Inr (nat i)" by (rule parse_uint_show_nat)
  obtain c cs where s: "show_nat (nat i) = c # cs" by (cases "show_nat (nat i)") auto
  then have "is_digit c" using hd_show_nat_digit [of "nat i"] by simp
  then have "c \<noteq> CHR ''+''" "c \<noteq> CHR ''-''" by auto
  with s p n False show ?thesis
    by (simp add: show_int_def parse_int_def parse_signed_def)
qed

lemma parse_int_Itoa [simp]: "parse_int (Itoa w) = Inr (sint w)"
  unfolding Itoa_def by (rule parse_int_show_int) (rule sint_range64)+

lemma Atoi_Itoa: "Atoi (Itoa w) = Inr w"
  by (simp add: Atoi_def)

interpretation int_text: text_codec Itoa Atoi
  by unfold_locales (rule Atoi_Itoa)

lemma Itoa_nonempty [simp]: "Itoa w \<noteq> []"
  by (simp add: Itoa_def)

text \<open>What \<open>Atoi\<close> accepts: an optional sign, then at least one digit, in the range of \<open>int64\<close>.\<close>

fun sign_split :: "string \<Rightarrow> bool \<times> string" where
  "sign_split [] = (False, [])"
| "sign_split (c # cs) =
     (if c = CHR ''+'' then (False, cs)
      else if c = CHR ''-'' then (True, cs)
      else (False, c # cs))"

definition int_text_val :: "string \<Rightarrow> int" where
  "int_text_val s =
     (case sign_split s of (neg, ds) \<Rightarrow> if neg then - int (digits_val ds) else int (digits_val ds))"

definition int_text_ok :: "string \<Rightarrow> bool" where
  "int_text_ok s \<longleftrightarrow> snd (sign_split s) \<noteq> [] \<and> list_all is_digit (snd (sign_split s))"

lemma parse_signed_Inr_iff:
  "parse_signed neg ds = Inr i \<longleftrightarrow>
    ds \<noteq> [] \<and> list_all is_digit ds \<and>
    i = (if neg then - int (digits_val ds) else int (digits_val ds)) \<and>
    - (2 ^ 63) \<le> i \<and> i < 2 ^ 63"
proof (cases "parse_uint ds")
  case (Inl e)
  then have "\<not> (ds \<noteq> [] \<and> list_all is_digit ds \<and> digits_val ds \<le> max_uint64)"
    using parse_uint_Inr_iff [of ds "digits_val ds"] by auto
  with Inl show ?thesis
    by (auto simp: parse_signed_def max_uint64_def split: if_splits)
next
  case (Inr v)
  then have "ds \<noteq> []" "list_all is_digit ds" "v = digits_val ds"
    by (simp_all add: parse_uint_Inr_iff)
  with Inr show ?thesis
    by (auto simp: parse_signed_def split: if_splits)
qed

lemma parse_int_Inr_iff:
  "parse_int s = Inr i \<longleftrightarrow>
    int_text_ok s \<and> i = int_text_val s \<and> - (2 ^ 63) \<le> i \<and> i < 2 ^ 63"
  by (cases s)
    (auto simp: parse_int_def int_text_ok_def int_text_val_def parse_signed_Inr_iff)

lemma Atoi_Inr_iff:
  "Atoi s = Inr w \<longleftrightarrow> int_text_ok s \<and> sint w = int_text_val s"
proof
  assume "Atoi s = Inr w"
  then obtain i where i: "parse_int s = Inr i" "w = word_of_int i"
    by (auto simp: Atoi_def split: sum.splits)
  then have "- (2 ^ 63) \<le> i" "i < 2 ^ 63" by (simp_all add: parse_int_Inr_iff)
  then have "sint w = i" using i(2) by (simp add: sint_of_int64)
  with i(1) show "int_text_ok s \<and> sint w = int_text_val s" by (simp add: parse_int_Inr_iff)
next
  assume "int_text_ok s \<and> sint w = int_text_val s"
  then have "parse_int s = Inr (sint w)"
    using sint_range64 [of w] by (simp add: parse_int_Inr_iff)
  then show "Atoi s = Inr w" by (simp add: Atoi_def)
qed

lemma Atoi_Inl: "Atoi s = Inl e \<Longrightarrow> \<exists>k. e = NumError ''Atoi'' s k"
  by (auto simp: Atoi_def split: sum.splits)

lemma FormatBool_inj [simp]: "FormatBool a = FormatBool b \<longleftrightarrow> a = b"
  by (cases a; cases b) (simp_all add: FormatBool_def)

text \<open>
  A counter or an identifier printed by \<open>Itoa\<close> is read back by \<open>Atoi\<close>, different numbers have
  different texts, and \<open>Atoi\<close> accepts exactly a sign or none, at least one digit, and a value in
  the range of \<open>int\<close>.
\<close>

theorem Itoa_roundtrip:
  "Atoi (Itoa w) = Inr w \<and> (Itoa v = Itoa w \<longleftrightarrow> v = w) \<and>
   (isl (Atoi s) \<longleftrightarrow> \<not> (int_text_ok s \<and> - (2 ^ 63) \<le> int_text_val s \<and> int_text_val s < 2 ^ 63))"
proof (intro conjI)
  show "Atoi (Itoa w) = Inr w" by (rule int_text.dec_enc)
  show "Itoa v = Itoa w \<longleftrightarrow> v = w" by (rule int_text.enc_eq_iff)
  show "isl (Atoi s) \<longleftrightarrow> \<not> (int_text_ok s \<and> - (2 ^ 63) \<le> int_text_val s \<and> int_text_val s < 2 ^ 63)"
  proof (cases "Atoi s")
    case (Inl e)
    then have "parse_int s \<noteq> Inr (int_text_val s)" by (auto simp: Atoi_def)
    with Inl show ?thesis by (auto simp: parse_int_Inr_iff)
  next
    case (Inr w)
    then have "int_text_ok s" "sint w = int_text_val s" by (simp_all add: Atoi_Inr_iff)
    with Inr show ?thesis using sint_range64 [of w] by (simp flip: \<open>sint w = _\<close>)
  qed
qed

end
