(* ===== verification/Base64.thy ===== *)
theory Base64
  imports Strconv
begin

section \<open>Bytes as text: Go's encoding/base64\<close>

text \<open>
  \<open>base64.StdEncoding\<close>, which \<open>encoding/json\<close> applies to a \<open>[]byte\<close> field: the chaincode stores
  the \<open>Data\<close> of an experiment in this form (\<open>experiment.go\<close>, \<open>ExperimentData\<close>). \<open>b64_encode\<close>
  writes groups of four characters with \<open>=\<close> padding; \<open>b64_decode\<close> skips carriage returns and
  newlines, wants complete groups, takes padding in the last group only and ignores the unused
  low bits of a padded group, as \<open>decodeQuantum\<close> does.
\<close>

subsection \<open>Definitions\<close>

definition b64_char :: "nat \<Rightarrow> char" where
  "b64_char i =
     (if i < 26 then char_of (65 + i)
      else if i < 52 then char_of (71 + i)
      else if i < 62 then char_of (i - 4)
      else if i = 62 then CHR ''+'' else CHR ''/'')"

definition b64_index :: "char \<Rightarrow> nat option" where
  "b64_index c =
     (let b = byte c in
      if 65 \<le> b \<and> b \<le> 90 then Some (b - 65)
      else if 97 \<le> b \<and> b \<le> 122 then Some (b - 71)
      else if 48 \<le> b \<and> b \<le> 57 then Some (b + 4)
      else if b = 43 then Some 62
      else if b = 47 then Some 63
      else None)"

fun b64_encode :: "string \<Rightarrow> string" where
  "b64_encode [] = []"
| "b64_encode [x] =
     [b64_char (byte x div 4), b64_char (byte x mod 4 * 16), CHR ''='', CHR ''='']"
| "b64_encode [x, y] =
     [b64_char (byte x div 4), b64_char (byte x mod 4 * 16 + byte y div 16),
      b64_char (byte y mod 16 * 4), CHR ''='']"
| "b64_encode (x # y # z # rest) =
     b64_char (byte x div 4) # b64_char (byte x mod 4 * 16 + byte y div 16)
     # b64_char (byte y mod 16 * 4 + byte z div 64) # b64_char (byte z mod 64)
     # b64_encode rest"

definition is_newline :: "char \<Rightarrow> bool" where
  "is_newline c \<longleftrightarrow> byte c = 10 \<or> byte c = 13"

text \<open>The bytes of a complete group, of one with one \<open>=\<close> and of one with two.\<close>

definition quantum3 :: "nat \<Rightarrow> nat \<Rightarrow> nat \<Rightarrow> nat \<Rightarrow> string" where
  "quantum3 i j k l =
     [char_of (i * 4 + j div 16), char_of (j mod 16 * 16 + k div 4), char_of (k mod 4 * 64 + l)]"

definition quantum2 :: "nat \<Rightarrow> nat \<Rightarrow> nat \<Rightarrow> string" where
  "quantum2 i j k = [char_of (i * 4 + j div 16), char_of (j mod 16 * 16 + k div 4)]"

definition quantum1 :: "nat \<Rightarrow> nat \<Rightarrow> string" where
  "quantum1 i j = [char_of (i * 4 + j div 16)]"

fun b64_groups :: "string \<Rightarrow> string option" where
  "b64_groups [] = Some []"
| "b64_groups (a # b # c # d # rest) =
     (case (b64_index a, b64_index b) of
        (Some i, Some j) \<Rightarrow>
          (case (b64_index c, b64_index d) of
             (Some k, Some l) \<Rightarrow> map_option (\<lambda>bs. quantum3 i j k l @ bs) (b64_groups rest)
           | (Some k, None) \<Rightarrow>
               if d = CHR ''='' \<and> rest = [] then Some (quantum2 i j k) else None
           | (None, _) \<Rightarrow>
               if c = CHR ''='' \<and> d = CHR ''='' \<and> rest = [] then Some (quantum1 i j) else None)
      | _ \<Rightarrow> None)"
| "b64_groups _ = None"

definition b64_decode :: "string \<Rightarrow> string res" where
  "b64_decode s =
     (case b64_groups (filter (\<lambda>c. \<not> is_newline c) s) of
        None \<Rightarrow> Inl CorruptInputError
      | Some bs \<Rightarrow> Inr bs)"

subsection \<open>The alphabet\<close>

lemma byte_b64_char:
  "i < 64 \<Longrightarrow> byte (b64_char i) =
     (if i < 26 then 65 + i else if i < 52 then 71 + i else if i < 62 then i - 4
      else if i = 62 then 43 else 47)"
  by (simp add: b64_char_def)

lemma b64_index_char [simp]: "i < 64 \<Longrightarrow> b64_index (b64_char i) = Some i"
  by (auto simp: b64_index_def Let_def byte_b64_char)

lemma b64_index_pad [simp]: "b64_index CHR ''='' = None"
  by (simp add: b64_index_def)

lemma b64_index_less: "b64_index c = Some i \<Longrightarrow> i < 64"
  by (auto simp: b64_index_def Let_def split: if_splits)

text \<open>
  An encoded text is plain: no quote, backslash or control byte, so JSON writes and reads it
  unchanged, and no newline, so \<open>b64_decode\<close> skips nothing.
\<close>

definition plain_byte :: "char \<Rightarrow> bool" where
  "plain_byte c \<longleftrightarrow> 32 \<le> byte c \<and> byte c < 128 \<and> c \<noteq> CHR ''\"'' \<and> c \<noteq> CHR 0x5C"

lemma plain_byte_iff: "plain_byte c \<longleftrightarrow> 32 \<le> byte c \<and> byte c < 128 \<and> byte c \<noteq> 34 \<and> byte c \<noteq> 92"
proof -
  have "c = CHR ''\"'' \<longleftrightarrow> byte c = 34" "c = CHR 0x5C \<longleftrightarrow> byte c = 92"
    using of_char_eq_iff [where 'a = nat, of c "CHR ''\"''"]
      of_char_eq_iff [where 'a = nat, of c "CHR 0x5C"]
    by simp_all
  then show ?thesis by (simp add: plain_byte_def)
qed

lemma plain_b64_char [simp]: "i < 64 \<Longrightarrow> plain_byte (b64_char i)"
  by (auto simp: plain_byte_iff byte_b64_char)

lemma plain_pad [simp]: "plain_byte CHR ''=''"
  by (simp add: plain_byte_def)

lemma plain_not_newline: "plain_byte c \<Longrightarrow> \<not> is_newline c"
  by (simp add: plain_byte_iff is_newline_def)

lemma byte_div4 [simp]: "byte c div 4 < 64"
  using byte_less [of c] by linarith

lemma byte_group_bounds [simp]:
  "(m :: nat) mod 4 * 16 < 64"
  "m mod 4 * 16 + byte c div 16 < 64"
  "m mod 16 * 4 < 64"
  "m mod 16 * 4 + byte c div 64 < 64"
proof -
  have "m mod 4 < 4" "m mod 16 < 16" "byte c div 16 < 16" "byte c div 64 < 4"
    using byte_less [of c] by (auto simp: less_mult_imp_div_less)
  then show "m mod 4 * 16 < 64" "m mod 4 * 16 + byte c div 16 < 64"
    "m mod 16 * 4 < 64" "m mod 16 * 4 + byte c div 64 < 64"
    by linarith+
qed

lemma b64_encode_plain: "list_all plain_byte (b64_encode s)"
  by (induction s rule: b64_encode.induct) simp_all

lemma filter_newline_encode: "filter (\<lambda>c. \<not> is_newline c) (b64_encode s) = b64_encode s"
  using b64_encode_plain [of s] by (auto simp: filter_id_conv list_all_iff plain_not_newline)

subsection \<open>Decoding what was encoded\<close>

lemma quantum1_bytes: "quantum1 (byte x div 4) (byte x mod 4 * 16) = [x]"
  by (simp add: quantum1_def)

lemma byte_parts:
  "byte x div 4 * 4 + (byte x mod 4 * 16 + byte y div 16) div 16 = byte x"
  "(byte x mod 4 * 16 + byte y div 16) mod 16 * 16 + (byte y mod 16 * 4 + byte z div 64) div 4 = byte y"
  "(byte x mod 4 * 16 + byte y div 16) mod 16 * 16 + (byte y mod 16 * 4) div 4 = byte y"
  "(byte y mod 16 * 4 + byte z div 64) mod 4 * 64 + byte z mod 64 = byte z"
proof -
  have y: "byte y div 16 < 16" and z: "byte z div 64 < 4"
    using byte_less [of y] byte_less [of z] by (auto simp: less_mult_imp_div_less)
  then have "(byte y div 16) div 16 = 0" "(byte y div 16) mod 16 = byte y div 16"
    "(byte z div 64) div 4 = 0" "(byte z div 64) mod 4 = byte z div 64"
    by simp_all
  then show
    "byte x div 4 * 4 + (byte x mod 4 * 16 + byte y div 16) div 16 = byte x"
    "(byte x mod 4 * 16 + byte y div 16) mod 16 * 16 + (byte y mod 16 * 4 + byte z div 64) div 4 = byte y"
    "(byte x mod 4 * 16 + byte y div 16) mod 16 * 16 + (byte y mod 16 * 4) div 4 = byte y"
    "(byte y mod 16 * 4 + byte z div 64) mod 4 * 64 + byte z mod 64 = byte z"
    by (simp_all add: mod_mult_self4 mod_add_eq)
qed

lemma quantum2_bytes:
  "quantum2 (byte x div 4) (byte x mod 4 * 16 + byte y div 16) (byte y mod 16 * 4) = [x, y]"
  by (simp only: quantum2_def byte_parts char_of_char)

lemma quantum3_bytes:
  "quantum3 (byte x div 4) (byte x mod 4 * 16 + byte y div 16)
     (byte y mod 16 * 4 + byte z div 64) (byte z mod 64) = [x, y, z]"
  by (simp only: quantum3_def byte_parts char_of_char)

lemma b64_groups_encode: "b64_groups (b64_encode s) = Some s"
  by (induction s rule: b64_encode.induct)
    (simp_all add: quantum1_bytes quantum2_bytes quantum3_bytes)

lemma b64_decode_encode: "b64_decode (b64_encode s) = Inr s"
  by (simp add: b64_decode_def filter_newline_encode b64_groups_encode)

interpretation base64_text: text_codec b64_encode b64_decode
  by unfold_locales (rule b64_decode_encode)

lemma length_b64_encode: "length (b64_encode s) = 4 * ((length s + 2) div 3)"
proof (induction s rule: b64_encode.induct)
  case (4 x y z rest)
  have "(length rest + 2 + 3) div 3 = Suc ((length rest + 2) div 3)"
    by (subst div_add_self2) simp_all
  with 4 show ?case by simp
qed simp_all

lemma b64_decode_Inl: "b64_decode s = Inl e \<Longrightarrow> e = CorruptInputError"
  by (auto simp: b64_decode_def split: option.splits)

end
