(* ===== verification/Json.thy ===== *)
theory Json
  imports Base64
begin

section \<open>Experiment data as JSON: Go's encoding/json\<close>

text \<open>
  \<open>experiment.go\<close> stores an \<open>ExperimentData\<close> with \<open>json.Marshal\<close> and reads it back with
  \<open>json.Unmarshal\<close>. This theory models both for that type. Reading has Go's three parts: the
  scanner (\<open>lex\<close>, which also checks string escapes and number syntax), the nesting of values
  (\<open>json_step\<close>, \<open>json_run\<close>: a machine over tokens with a stack of the open arrays and objects,
  at most 10000 deep) and the storing of a value into the struct (\<open>decode_experiment\<close>: field
  names match exactly or up to case, unknown fields are skipped, \<open>null\<close> leaves the counter and
  clears the data, the first type error is the result but later fields are still stored). String
  bytes above 127 are kept as they are; Go replaces invalid UTF-8, which no comparison of this
  program can tell apart: keys are compared with ASCII names and string values are base64.
\<close>

subsection \<open>Tokens\<close>

datatype token =
    TLBrace | TRBrace | TLBrack | TRBrack | TColon | TComma
  | TNull | TTrue | TFalse | TNum string | TStr string

definition json_space :: "char \<Rightarrow> bool" where
  "json_space c \<longleftrightarrow> byte c = 32 \<or> byte c = 9 \<or> byte c = 13 \<or> byte c = 10"

definition hex_val :: "char \<Rightarrow> nat option" where
  "hex_val c =
     (let b = byte c in
      if 48 \<le> b \<and> b \<le> 57 then Some (b - 48)
      else if 97 \<le> b \<and> b \<le> 102 then Some (b - 87)
      else if 65 \<le> b \<and> b \<le> 70 then Some (b - 55)
      else None)"

definition hex4 :: "string \<Rightarrow> nat option" where
  "hex4 s =
     (case map hex_val (take 4 s) of
        [Some a, Some b, Some c, Some d] \<Rightarrow> Some (((a * 16 + b) * 16 + c) * 16 + d)
      | _ \<Rightarrow> None)"

definition simple_escape :: "char \<Rightarrow> char option" where
  "simple_escape c =
     (let b = byte c in
      if b = 34 \<or> b = 92 \<or> b = 47 then Some c
      else if b = 98 then Some (char_of (8 :: nat))
      else if b = 102 then Some (char_of (12 :: nat))
      else if b = 110 then Some (char_of (10 :: nat))
      else if b = 114 then Some (char_of (13 :: nat))
      else if b = 116 then Some (char_of (9 :: nat))
      else None)"

text \<open>The raw text of a string literal up to its closing quote, and what follows it.\<close>

function scan_str :: "string \<Rightarrow> (string \<times> string) option" where
  "scan_str [] = None"
| "scan_str (c # cs) =
     (if byte c = 34 then Some ([], cs)
      else if byte c = 92 then
        (if cs = [] then None
         else if simple_escape (hd cs) \<noteq> None
           then map_option (apfst (\<lambda>r. c # hd cs # r)) (scan_str (drop 1 cs))
         else if byte (hd cs) = 117 \<and> hex4 (drop 1 cs) \<noteq> None
           then map_option (apfst (\<lambda>r. c # take 5 cs @ r)) (scan_str (drop 5 cs))
         else None)
      else if byte c < 32 then None
      else map_option (apfst (Cons c)) (scan_str cs))"
  by pat_completeness auto
termination by (relation "measure length") auto

definition utf8_encode :: "nat \<Rightarrow> string" where
  "utf8_encode r = map char_of
     (if r < 128 then [r]
      else if r < 2048 then [192 + r div 64, 128 + r mod 64]
      else if r < 65536 then [224 + r div 4096, 128 + r div 64 mod 64, 128 + r mod 64]
      else [240 + r div 262144, 128 + r div 4096 mod 64, 128 + r div 64 mod 64, 128 + r mod 64])"

text \<open>\<open>getu4\<close>: the code of an escape \<open>\u\<close> with four hexadecimal digits at the start of the text.\<close>

definition getu4 :: "string \<Rightarrow> nat option" where
  "getu4 s = (if length s < 6 \<or> byte (s ! 0) \<noteq> 92 \<or> byte (s ! 1) \<noteq> 117 then None
              else hex4 (drop 2 s))"

definition is_surrogate :: "nat \<Rightarrow> bool" where
  "is_surrogate r \<longleftrightarrow> 55296 \<le> r \<and> r < 57344"

definition surrogate_pair :: "nat \<Rightarrow> nat \<Rightarrow> nat option" where
  "surrogate_pair a b =
     (if 55296 \<le> a \<and> a < 56320 \<and> 56320 \<le> b \<and> b < 57344
      then Some ((a - 55296) * 1024 + (b - 56320) + 65536) else None)"

function unquote :: "string \<Rightarrow> string" where
  "unquote [] = []"
| "unquote (c # cs) =
     (case getu4 (c # cs) of
        Some r \<Rightarrow>
          if is_surrogate r then
            (case Option.bind (getu4 (drop 5 cs)) (surrogate_pair r) of
               Some p \<Rightarrow> utf8_encode p @ unquote (drop 11 cs)
             | None \<Rightarrow> utf8_encode 65533 @ unquote (drop 5 cs))
          else utf8_encode r @ unquote (drop 5 cs)
      | None \<Rightarrow>
          if byte c = 92 \<and> cs \<noteq> []
          then (case simple_escape (hd cs) of Some e \<Rightarrow> [e] | None \<Rightarrow> []) @ unquote (drop 1 cs)
          else c # unquote cs)"
  by pat_completeness auto
termination by (relation "measure length") auto

subsection \<open>Numbers and the token stream\<close>

definition lex_digits :: "string \<Rightarrow> (string \<times> string) option" where
  "lex_digits s =
     (if takeWhile is_digit s = [] then None
      else Some (takeWhile is_digit s, dropWhile is_digit s))"

definition lex_whole :: "string \<Rightarrow> (string \<times> string) option" where
  "lex_whole s =
     (if s \<noteq> [] \<and> hd s = CHR ''0'' then Some (''0'', drop 1 s) else lex_digits s)"

definition lex_frac :: "string \<Rightarrow> (string \<times> string) option" where
  "lex_frac s =
     (if s \<noteq> [] \<and> hd s = CHR ''.''
      then map_option (apfst (Cons CHR ''.'')) (lex_digits (drop 1 s)) else Some ([], s))"

definition lex_exp :: "string \<Rightarrow> (string \<times> string) option" where
  "lex_exp s =
     (if s \<noteq> [] \<and> (hd s = CHR ''e'' \<or> hd s = CHR ''E'') then
        (let k = (if 1 < length s \<and> (s ! 1 = CHR ''+'' \<or> s ! 1 = CHR ''-'') then 2 else 1)
         in map_option (apfst (\<lambda>ds. take k s @ ds)) (lex_digits (drop k s)))
      else Some ([], s))"

definition lex_num :: "string \<Rightarrow> (string \<times> string) option" where
  "lex_num s =
     (let k = (if s \<noteq> [] \<and> hd s = CHR ''-'' then 1 else 0) in
      Option.bind (lex_whole (drop k s)) (\<lambda>(w, s1).
      Option.bind (lex_frac s1) (\<lambda>(f, s2).
      Option.bind (lex_exp s2) (\<lambda>(e, s3). Some (take k s @ w @ f @ e, s3)))))"

lemma lex_digits_length: "lex_digits s = Some (t, r) \<Longrightarrow> length r < length s"
proof -
  assume h: "lex_digits s = Some (t, r)"
  then have "t \<noteq> []" "s = t @ r" by (auto simp: lex_digits_def split: if_splits)
  then show "length r < length s" by (cases t) auto
qed

lemma lex_whole_length: "lex_whole s = Some (t, r) \<Longrightarrow> length r < length s"
  by (cases s) (auto simp: lex_whole_def dest: lex_digits_length split: if_splits)

lemma lex_frac_length: "lex_frac s = Some (t, r) \<Longrightarrow> length r \<le> length s"
  by (auto simp: lex_frac_def dest!: lex_digits_length split: if_splits)

lemma lex_exp_length: "lex_exp s = Some (t, r) \<Longrightarrow> length r \<le> length s"
  by (auto simp: lex_exp_def Let_def dest!: lex_digits_length split: if_splits)

lemma lex_num_length: "lex_num s = Some (t, r) \<Longrightarrow> length r < length s"
  by (force simp: lex_num_def Let_def bind_eq_Some_conv split: if_splits
      dest!: lex_whole_length lex_frac_length lex_exp_length)

lemma scan_str_length: "scan_str s = Some (t, r) \<Longrightarrow> length r < length s"
proof (induction s arbitrary: t rule: scan_str.induct)
  case (2 c cs)
  then show ?case by (fastforce split: if_splits simp: less_Suc_eq_le)
qed simp

function lex :: "string \<Rightarrow> token list option" where
  "lex [] = Some []"
| "lex (c # cs) =
     (if json_space c then lex cs
      else if c = CHR ''{'' then map_option (Cons TLBrace) (lex cs)
      else if c = CHR ''}'' then map_option (Cons TRBrace) (lex cs)
      else if c = CHR ''['' then map_option (Cons TLBrack) (lex cs)
      else if c = CHR '']'' then map_option (Cons TRBrack) (lex cs)
      else if c = CHR '':'' then map_option (Cons TColon) (lex cs)
      else if c = CHR '','' then map_option (Cons TComma) (lex cs)
      else if c = CHR ''n'' \<and> take 3 cs = ''ull'' then map_option (Cons TNull) (lex (drop 3 cs))
      else if c = CHR ''t'' \<and> take 3 cs = ''rue'' then map_option (Cons TTrue) (lex (drop 3 cs))
      else if c = CHR ''f'' \<and> take 4 cs = ''alse'' then map_option (Cons TFalse) (lex (drop 4 cs))
      else if byte c = 34 then
        (case scan_str cs of
           None \<Rightarrow> None
         | Some (s, r) \<Rightarrow> map_option (Cons (TStr (unquote s))) (lex r))
      else
        (case lex_num (c # cs) of
           None \<Rightarrow> None
         | Some (n, r) \<Rightarrow> map_option (Cons (TNum n)) (lex r)))"
  by pat_completeness auto
termination
  by (relation "measure length") (auto dest!: scan_str_length lex_num_length)

declare lex.simps(2) [simp del]

subsection \<open>Values: the machine over tokens\<close>

datatype json =
    JNull | JBool bool | JNum string | JStr string
  | JArr "json list" | JObj "(string \<times> json) list"

text \<open>
  The enclosing arrays and objects, with what they hold so far in reverse; a frame \<open>FObj\<close> waits
  for the value of its key.
\<close>

datatype frame = FArr "json list" | FObj "(string \<times> json) list" string

datatype mode =
    NeedValue bool
  | NeedKey "(string \<times> json) list" bool
  | NeedColon "(string \<times> json) list" string
  | Have json

definition max_nesting :: nat where
  "max_nesting = 10000"

fun json_value :: "bool \<Rightarrow> token \<Rightarrow> frame list \<Rightarrow> (frame list \<times> mode) option" where
  "json_value _ TNull st = Some (st, Have JNull)"
| "json_value _ TTrue st = Some (st, Have (JBool True))"
| "json_value _ TFalse st = Some (st, Have (JBool False))"
| "json_value _ (TNum n) st = Some (st, Have (JNum n))"
| "json_value _ (TStr s) st = Some (st, Have (JStr s))"
| "json_value _ TLBrack st =
     (if length st < max_nesting then Some (FArr [] # st, NeedValue True) else None)"
| "json_value _ TLBrace st =
     (if length st < max_nesting then Some (st, NeedKey [] True) else None)"
| "json_value True TRBrack (FArr [] # st) = Some (st, Have (JArr []))"
| "json_value _ _ _ = None"

fun json_after :: "json \<Rightarrow> token \<Rightarrow> frame list \<Rightarrow> (frame list \<times> mode) option" where
  "json_after v TComma (FArr vs # st) = Some (FArr (v # vs) # st, NeedValue False)"
| "json_after v TRBrack (FArr vs # st) = Some (st, Have (JArr (rev (v # vs))))"
| "json_after v TComma (FObj kvs k # st) = Some (st, NeedKey ((k, v) # kvs) False)"
| "json_after v TRBrace (FObj kvs k # st) = Some (st, Have (JObj (rev ((k, v) # kvs))))"
| "json_after _ _ _ = None"

fun json_step :: "token \<Rightarrow> frame list \<Rightarrow> mode \<Rightarrow> (frame list \<times> mode) option" where
  "json_step t st (NeedValue close) = json_value close t st"
| "json_step t st (NeedKey kvs close) =
     (case t of
        TStr k \<Rightarrow> Some (st, NeedColon kvs k)
      | TRBrace \<Rightarrow> if close then Some (st, Have (JObj (rev kvs))) else None
      | _ \<Rightarrow> None)"
| "json_step t st (NeedColon kvs k) =
     (if t = TColon then Some (FObj kvs k # st, NeedValue False) else None)"
| "json_step t st (Have v) = json_after v t st"

fun json_run :: "token list \<Rightarrow> frame list \<Rightarrow> mode \<Rightarrow> json option" where
  "json_run [] st m = (case (st, m) of ([], Have v) \<Rightarrow> Some v | _ \<Rightarrow> None)"
| "json_run (t # ts) st m =
     (case json_step t st m of None \<Rightarrow> None | Some (st', m') \<Rightarrow> json_run ts st' m')"

definition json_parse :: "string \<Rightarrow> json option" where
  "json_parse s = Option.bind (lex s) (\<lambda>ts. json_run ts [] (NeedValue False))"

subsection \<open>The stored record\<close>

text \<open>
  \<open>ExperimentData\<close> of \<open>experiment.go\<close>; \<open>None\<close> is the nil slice.
\<close>

record ExperimentData =
  Data :: "string option"
  Counter :: go_int

definition zero_experiment :: ExperimentData where
  "zero_experiment = \<lparr>Data = None, Counter = 0\<rparr>"

text \<open>\<open>json.Marshal\<close> of an \<open>ExperimentData\<close>: it has no error for this type.\<close>

definition marshal :: "ExperimentData \<Rightarrow> string" where
  "marshal d =
     ''{\"data\":''
     @ (case Data d of None \<Rightarrow> ''null'' | Some bs \<Rightarrow> ''\"'' @ b64_encode bs @ ''\"'')
     @ '',\"counter\":'' @ Itoa (Counter d) @ ''}''"

definition first_err :: "goerr option \<Rightarrow> goerr option \<Rightarrow> goerr option" where
  "first_err a b = (case a of None \<Rightarrow> b | Some e \<Rightarrow> Some e)"

fun json_kind :: "json \<Rightarrow> string" where
  "json_kind JNull = ''null''"
| "json_kind (JBool _) = ''bool''"
| "json_kind (JNum _) = ''number''"
| "json_kind (JStr _) = ''string''"
| "json_kind (JArr _) = ''array''"
| "json_kind (JObj _) = ''object''"

text \<open>One element of an array stored into a byte: \<open>old\<close> is the byte the slice holds there.\<close>

fun decode_elem :: "char \<Rightarrow> json \<Rightarrow> char \<times> goerr option" where
  "decode_elem old (JNum n) =
     (case parse_uint n of
        Inr v \<Rightarrow> if v < 256 then (char_of v, None)
                 else (old, Some (UnmarshalTypeError (''number '' @ n) ''uint8''))
      | Inl _ \<Rightarrow> (old, Some (UnmarshalTypeError (''number '' @ n) ''uint8'')))"
| "decode_elem old JNull = (old, None)"
| "decode_elem old v = (old, Some (UnmarshalTypeError (json_kind v) ''uint8''))"

fun decode_elems :: "string \<Rightarrow> json list \<Rightarrow> string \<times> goerr option" where
  "decode_elems old [] = ([], None)"
| "decode_elems old (v # vs) =
     (let (c, e) = decode_elem (if old = [] then char_of (0 :: nat) else hd old) v;
          (cs, e') = decode_elems (drop 1 old) vs
      in (c # cs, first_err e e'))"

fun decode_data :: "string option \<Rightarrow> json \<Rightarrow> string option \<times> goerr option" where
  "decode_data old JNull = (None, None)"
| "decode_data old (JStr s) =
     (case b64_decode s of Inr bs \<Rightarrow> (Some bs, None) | Inl e \<Rightarrow> (old, Some e))"
| "decode_data old (JArr vs) =
     (case decode_elems (case old of None \<Rightarrow> [] | Some bs \<Rightarrow> bs) vs of (bs, e) \<Rightarrow> (Some bs, e))"
| "decode_data old v = (old, Some (UnmarshalTypeError (json_kind v) ''[]uint8''))"

fun decode_counter :: "go_int \<Rightarrow> json \<Rightarrow> go_int \<times> goerr option" where
  "decode_counter old JNull = (old, None)"
| "decode_counter old (JNum n) =
     (case parse_int n of
        Inr i \<Rightarrow> (word_of_int i, None)
      | Inl _ \<Rightarrow> (old, Some (UnmarshalTypeError (''number '' @ n) ''int'')))"
| "decode_counter old v = (old, Some (UnmarshalTypeError (json_kind v) ''int''))"

definition fold_case :: "char \<Rightarrow> char" where
  "fold_case c = (if 65 \<le> byte c \<and> byte c \<le> 90 then char_of (byte c + 32) else c)"

fun store_fields ::
  "(string \<times> json) list \<Rightarrow> ExperimentData \<Rightarrow> goerr option \<Rightarrow> ExperimentData \<times> goerr option" where
  "store_fields [] d e = (d, e)"
| "store_fields ((k, v) # kvs) d e =
     (if map fold_case k = ''data'' then
        (case decode_data (Data d) v of (x, e') \<Rightarrow>
           store_fields kvs (d\<lparr>Data := x\<rparr>) (first_err e e'))
      else if map fold_case k = ''counter'' then
        (case decode_counter (Counter d) v of (x, e') \<Rightarrow>
           store_fields kvs (d\<lparr>Counter := x\<rparr>) (first_err e e'))
      else store_fields kvs d e)"

definition decode_experiment :: "json \<Rightarrow> ExperimentData res" where
  "decode_experiment v =
     (case v of
        JNull \<Rightarrow> Inr zero_experiment
      | JObj kvs \<Rightarrow>
          (case store_fields kvs zero_experiment None of
             (d, None) \<Rightarrow> Inr d
           | (d, Some e) \<Rightarrow> Inl e)
      | _ \<Rightarrow> Inl (UnmarshalTypeError (json_kind v) ''chaincode.ExperimentData''))"

text \<open>\<open>json.Unmarshal(raw, &data)\<close> with \<open>data := ExperimentData{}\<close>.\<close>

definition unmarshal :: "string \<Rightarrow> ExperimentData res" where
  "unmarshal s = (case json_parse s of None \<Rightarrow> Inl JsonSyntaxError | Some v \<Rightarrow> decode_experiment v)"

subsection \<open>Scanning what was written\<close>

lemma unquote_plain: "list_all plain_byte s \<Longrightarrow> unquote s = s"
proof (induction s)
  case (Cons c s)
  then have c: "byte c \<noteq> 92" by (simp add: plain_byte_iff)
  then have "getu4 (c # s) = None" by (simp add: getu4_def)
  with c Cons show ?case by simp
qed simp

lemma scan_str_plain:
  "list_all plain_byte s \<Longrightarrow> scan_str (s @ CHR 0x22 # r) = Some (s, r)"
proof (induction s)
  case (Cons c s)
  then have "byte c \<noteq> 92" "byte c \<noteq> 34" "\<not> byte c < 32" by (simp_all add: plain_byte_iff)
  with Cons show ?case by simp
qed simp

lemma lex_str:
  "list_all plain_byte s \<Longrightarrow>
    lex (CHR 0x22 # s @ CHR 0x22 # r) = map_option (Cons (TStr s)) (lex r)"
  by (subst lex.simps) (simp add: json_space_def scan_str_plain unquote_plain)

lemma is_digit_stop: "is_digit c \<Longrightarrow> c \<noteq> CHR ''.'' \<and> c \<noteq> CHR ''e'' \<and> c \<noteq> CHR ''E'' \<and> c \<noteq> CHR ''-''"
  by (auto simp: is_digit_def)

lemma lex_digits_stop:
  "list_all is_digit ds \<Longrightarrow> ds \<noteq> [] \<Longrightarrow> \<not> is_digit c \<Longrightarrow> lex_digits (ds @ c # r) = Some (ds, c # r)"
  by (simp add: lex_digits_def takeWhile_append_stop dropWhile_append_stop)

lemma lex_whole_show_nat:
  assumes "\<not> is_digit c"
  shows "lex_whole (show_nat n @ c # r) = Some (show_nat n, c # r)"
proof (cases "n = 0")
  case True
  have "show_nat 0 = ''0''"
    by (subst show_nat.simps) (simp add: digit_char_def char_of_def bit_0)
  with True show ?thesis by (simp add: lex_whole_def)
next
  case False
  then have "hd (show_nat n @ c # r) \<noteq> CHR ''0''" by (simp add: hd_show_nat)
  then show ?thesis
    using lex_digits_stop [OF show_nat_digits show_nat_nonempty assms] by (simp add: lex_whole_def)
qed

lemma lex_num_Itoa: "lex_num (Itoa w @ CHR ''}'' # r) = Some (Itoa w, CHR ''}'' # r)"
proof -
  have stop: "\<not> is_digit CHR ''}''" by (simp add: is_digit_def)
  have tail: "lex_frac (CHR ''}'' # r) = Some ([], CHR ''}'' # r)"
    "lex_exp (CHR ''}'' # r) = Some ([], CHR ''}'' # r)"
    by (simp_all add: lex_frac_def lex_exp_def)
  have "hd (show_nat n) \<noteq> CHR ''-''" for n
    using hd_show_nat_digit [of n] by auto
  then show ?thesis
    by (simp add: lex_num_def Itoa_def show_int_def lex_whole_show_nat [OF stop] tail Let_def)
qed

lemma hd_Itoa: "hd (Itoa w) = CHR ''-'' \<or> is_digit (hd (Itoa w))"
  by (simp add: Itoa_def show_int_def hd_show_nat_digit)

lemma is_digit_bytes: "is_digit c \<Longrightarrow> c \<noteq> d" if "byte d < 48 \<or> 57 < byte d"
  using that by (auto simp: is_digit_def)

lemma lex_Itoa: "lex (Itoa w @ CHR ''}'' # r) = map_option (Cons (TNum (Itoa w))) (lex (CHR ''}'' # r))"
proof -
  obtain c cs where s: "Itoa w = c # cs" by (cases "Itoa w") auto
  then have "c = CHR ''-'' \<or> is_digit c" using hd_Itoa [of w] by simp
  then have c: "\<not> json_space c" "byte c \<noteq> 34"
    "c \<notin> {CHR ''{'', CHR ''}'', CHR ''['', CHR '']'', CHR '':'', CHR '','', CHR ''n'', CHR ''t'', CHR ''f''}"
    by (auto simp: json_space_def is_digit_def)
  have "lex_num (c # (cs @ CHR ''}'' # r)) = Some (Itoa w, CHR ''}'' # r)"
    using lex_num_Itoa [of w r] s by simp
  with c s show ?thesis by (simp add: lex.simps(2) [of c "cs @ CHR ''}'' # r"])
qed

subsection \<open>Reading back what was written\<close>

lemma lex_name:
  "list_all plain_byte s \<Longrightarrow> byte q = 34 \<Longrightarrow>
    lex (q # s @ q # r) = map_option (Cons (TStr s)) (lex r)"
proof -
  assume "list_all plain_byte s" "byte q = 34"
  moreover from this have "q = CHR 0x22"
    using of_char_eq_iff [where 'a = nat, of q "CHR 0x22"] by simp
  ultimately show ?thesis by (simp add: lex_str)
qed

lemma lex_punct:
  "lex (CHR ''{'' # s) = map_option (Cons TLBrace) (lex s)"
  "lex (CHR ''}'' # s) = map_option (Cons TRBrace) (lex s)"
  "lex (CHR '':'' # s) = map_option (Cons TColon) (lex s)"
  "lex (CHR '','' # s) = map_option (Cons TComma) (lex s)"
  by (simp_all add: lex.simps(2) json_space_def)

lemma lex_null: "lex (CHR ''n'' # CHR ''u'' # CHR ''l'' # CHR ''l'' # s) = map_option (Cons TNull) (lex s)"
  by (simp add: lex.simps(2) json_space_def)

lemma plain_names: "list_all plain_byte ''data''" "list_all plain_byte ''counter''"
  by (simp_all add: plain_byte_iff)

lemmas lex_field_names =
  lex_str [OF plain_names(1), simplified] lex_str [OF plain_names(2), simplified]

definition data_token :: "string option \<Rightarrow> token" where
  "data_token bs = (case bs of None \<Rightarrow> TNull | Some b \<Rightarrow> TStr (b64_encode b))"

lemma lex_marshal:
  "lex (marshal d) =
     Some [TLBrace, TStr ''data'', TColon, data_token (Data d), TComma,
           TStr ''counter'', TColon, TNum (Itoa (Counter d)), TRBrace]"
  by (cases "Data d")
    (simp_all add: marshal_def lex_punct lex_field_names lex_null data_token_def
       lex_str [OF b64_encode_plain] lex_Itoa)

lemma json_parse_marshal:
  "json_parse (marshal d) =
     Some (JObj [(''data'', case Data d of None \<Rightarrow> JNull | Some b \<Rightarrow> JStr (b64_encode b)),
                 (''counter'', JNum (Itoa (Counter d)))])"
  by (cases "Data d")
    (simp_all add: json_parse_def lex_marshal data_token_def max_nesting_def)

lemma unmarshal_marshal: "unmarshal (marshal d) = Inr d"
proof (cases d)
  case (fields data counter)
  then show ?thesis
    by (cases data)
      (simp_all add: unmarshal_def json_parse_marshal decode_experiment_def fold_case_def
        first_err_def b64_decode_encode zero_experiment_def)
qed

interpretation experiment_text: text_codec marshal unmarshal
  by unfold_locales (rule unmarshal_marshal)

lemma unmarshal_empty: "unmarshal [] = Inl JsonSyntaxError"
  by (simp add: unmarshal_def json_parse_def)

text \<open>
  C33: an experiment stored as JSON is read back as it was, with its data (nil or any bytes) and
  its counter; different experiments have different texts, and the empty text of a missing key
  is none of them.
\<close>

theorem experiment_roundtrip:
  "unmarshal (marshal d) = Inr d \<and> (marshal d = marshal d' \<longleftrightarrow> d = d') \<and> unmarshal [] = Inl JsonSyntaxError"
  by (intro conjI experiment_text.dec_enc experiment_text.enc_eq_iff unmarshal_empty)

end
