(* ===== verification/Float64.thy ===== *)
theory Float64
  imports Complex_Main Strconv
begin

section \<open>Non-negative float64 values\<close>

text \<open>
  The floating point numbers the program computes with are sizes (\<open>config.LoadByteSize\<close>) and
  elapsed seconds (\<open>Chaincode.Invoke\<close>), so none is negative. \<open>Finite m e\<close> is the value \<open>m\<close> times
  two to the power \<open>e\<close>. Every operation is the exact rational result rounded to binary64 by
  \<open>round_f64\<close>: to the nearest value with a 53-bit significand and an exponent of at least -1074,
  ties to even, and \<open>PosInf\<close> from \<open>2 ^ 1024\<close> on. \<open>round_f64_nearest\<close> states that no
  representable value is nearer, \<open>round_f64_exact\<close> that a representable value is kept.
\<close>

subsection \<open>Definitions\<close>

datatype f64 = Finite nat int | PosInf

fun bit_length :: "nat \<Rightarrow> nat" where
  "bit_length n = (if n = 0 then 0 else Suc (bit_length (n div 2)))"

declare bit_length.simps [simp del]

definition round_half_even :: "nat \<Rightarrow> nat \<Rightarrow> nat" where
  "round_half_even n d =
     (let q = n div d; r = n mod d in
      if 2 * r < d then q else if d < 2 * r then q + 1 else if even q then q else q + 1)"

text \<open>A fraction \<open>n / d\<close> divided by two to the power \<open>e\<close>.\<close>

definition scale_num :: "nat \<Rightarrow> int \<Rightarrow> nat" where
  "scale_num n e = n * 2 ^ nat (- e)"

definition scale_den :: "nat \<Rightarrow> int \<Rightarrow> nat" where
  "scale_den d e = d * 2 ^ nat e"

definition f64_exponent :: "nat \<Rightarrow> nat \<Rightarrow> int" where
  "f64_exponent n d =
     (let k = int (bit_length n) - int (bit_length d);
          k' = (if scale_den d k \<le> scale_num n k then k else k - 1)
      in max (k' - 52) (- 1074))"

definition round_f64 :: "nat \<Rightarrow> nat \<Rightarrow> f64" where
  "round_f64 n d =
     (let e = f64_exponent n d; m = round_half_even (scale_num n e) (scale_den d e) in
      if 0 \<le> e \<and> 2 ^ 1024 \<le> m * 2 ^ nat e then PosInf else Finite m e)"

definition f64_of_nat :: "nat \<Rightarrow> f64" where
  "f64_of_nat n = round_f64 n 1"

definition f64_scaled :: "nat \<Rightarrow> nat \<Rightarrow> int \<Rightarrow> f64" where
  "f64_scaled n d e = round_f64 (n * 2 ^ nat e) (d * 2 ^ nat (- e))"

fun f64_mul :: "f64 \<Rightarrow> f64 \<Rightarrow> f64" where
  "f64_mul (Finite m e) (Finite m' e') = f64_scaled (m * m') 1 (e + e')"
| "f64_mul _ _ = PosInf"

fun f64_add :: "f64 \<Rightarrow> f64 \<Rightarrow> f64" where
  "f64_add (Finite m e) (Finite m' e') =
     (let f = min e e' in f64_scaled (m * 2 ^ nat (e - f) + m' * 2 ^ nat (e' - f)) 1 f)"
| "f64_add _ _ = PosInf"

text \<open>Division by a finite value that is not zero.\<close>

fun f64_div :: "f64 \<Rightarrow> f64 \<Rightarrow> f64" where
  "f64_div (Finite m e) (Finite m' e') = f64_scaled m m' (e - e')"
| "f64_div (Finite m e) PosInf = Finite 0 (- 1074)"
| "f64_div PosInf _ = PosInf"

text \<open>
  The conversion \<open>int(x)\<close>: truncation. The language leaves a value that does not fit to the
  platform; the Makefile builds for amd64, whose conversion instruction gives the least \<open>int64\<close>.
\<close>

fun f64_trunc :: "nat \<Rightarrow> int \<Rightarrow> nat" where
  "f64_trunc m e = (if 0 \<le> e then m * 2 ^ nat e else m div 2 ^ nat (- e))"

fun f64_to_int :: "f64 \<Rightarrow> int" where
  "f64_to_int (Finite m e) = (if f64_trunc m e < 2 ^ 63 then int (f64_trunc m e) else - (2 ^ 63))"
| "f64_to_int PosInf = - (2 ^ 63)"

text \<open>
  \<open>strconv.ParseFloat\<close> on a text of digits and points, the only texts the regular expression of
  \<open>LoadByteSize\<close> hands to it.
\<close>

definition int_part :: "string \<Rightarrow> string" where
  "int_part s = takeWhile is_digit s"

definition frac_part :: "string \<Rightarrow> string" where
  "frac_part s = drop 1 (dropWhile is_digit s)"

definition decimal_ok :: "string \<Rightarrow> bool" where
  "decimal_ok s \<longleftrightarrow>
     (dropWhile is_digit s = [] \<or> hd (dropWhile is_digit s) = CHR ''.'') \<and>
     list_all is_digit (frac_part s) \<and> int_part s @ frac_part s \<noteq> []"

definition ParseFloat :: "string \<Rightarrow> f64 res" where
  "ParseFloat s =
     (if \<not> decimal_ok s then Inl (NumError ''ParseFloat'' s ErrSyntax)
      else case round_f64 (digits_val (int_part s @ frac_part s)) (10 ^ length (frac_part s)) of
             PosInf \<Rightarrow> Inl (NumError ''ParseFloat'' s ErrRange)
           | x \<Rightarrow> Inr x)"

text \<open>\<open>time.Duration.Seconds\<close> of a duration in nanoseconds, and \<open>fmt.Sprintf("%f", x)\<close>.\<close>

definition seconds :: "nat \<Rightarrow> f64" where
  "seconds ns =
     f64_add (f64_of_nat (ns div 10 ^ 9)) (f64_div (f64_of_nat (ns mod 10 ^ 9)) (f64_of_nat (10 ^ 9)))"

definition pad_left :: "nat \<Rightarrow> string \<Rightarrow> string" where
  "pad_left k s = replicate (k - length s) CHR ''0'' @ s"

fun format_f :: "f64 \<Rightarrow> string" where
  "format_f (Finite m e) =
     (let v = round_half_even (m * 2 ^ nat e * 10 ^ 6) (2 ^ nat (- e)) in
      show_nat (v div 10 ^ 6) @ ''.'' @ pad_left 6 (show_nat (v mod 10 ^ 6)))"
| "format_f PosInf = ''+Inf''"

subsection \<open>Values\<close>

fun f64_val :: "f64 \<Rightarrow> real" where
  "f64_val (Finite m e) = real m * 2 powi e"
| "f64_val PosInf = 0"

definition representable :: "real \<Rightarrow> bool" where
  "representable y \<longleftrightarrow> (\<exists>m e. m < 2 ^ 53 \<and> - 1074 \<le> e \<and> e \<le> 971 \<and> y = real m * 2 powi e)"

lemma bit_length_bounds: "0 < n \<Longrightarrow> 2 ^ (bit_length n - 1) \<le> n \<and> n < 2 ^ bit_length n"
proof (induction n rule: bit_length.induct)
  case (1 n)
  show ?case
  proof (cases "n = 1")
    case True
    then show ?thesis by (simp add: bit_length.simps)
  next
    case False
    with 1 have h: "2 ^ (bit_length (n div 2) - 1) \<le> n div 2" "n div 2 < 2 ^ bit_length (n div 2)"
      and pos: "0 < n div 2"
      by auto
    from pos obtain k where k: "bit_length (n div 2) = Suc k"
      by (subst (asm) bit_length.simps) (auto simp: bit_length.simps [of "n div 2"])
    have "bit_length n = Suc (Suc k)"
      using 1 k by (subst bit_length.simps) simp
    with h k show ?thesis by auto
  qed
qed

lemma scale_ratio: "real (scale_num n e) / real (scale_den d e) = (real n / real d) / 2 powi e"
proof (cases "0 \<le> e")
  case True
  then obtain k where "e = int k" by (metis nonneg_int_cases)
  then show ?thesis by (simp add: scale_num_def scale_den_def power_int_def field_simps)
next
  case False
  then obtain k where "e = - int k" by (metis int_cases2 neg_0_le_iff_le of_nat_0_le_iff)
  then show ?thesis by (simp add: scale_num_def scale_den_def power_int_minus field_simps)
qed

lemma scale_den_pos [simp]: "0 < scale_den d e \<longleftrightarrow> 0 < d"
  by (simp add: scale_den_def)

lemma scale_le_iff:
  assumes "0 < d"
  shows "scale_den d e \<le> scale_num n e \<longleftrightarrow> 2 powi e \<le> real n / real d"
proof -
  have "scale_den d e \<le> scale_num n e \<longleftrightarrow> 1 \<le> real (scale_num n e) / real (scale_den d e)"
    using assms by (simp add: le_divide_eq)
  also have "\<dots> \<longleftrightarrow> 1 \<le> (real n / real d) / 2 powi e" by (simp only: scale_ratio)
  also have "\<dots> \<longleftrightarrow> 2 powi e \<le> real n / real d"
    using assms by (simp add: le_divide_eq mult.commute)
  finally show ?thesis .
qed

lemma ratio_bounds:
  assumes "0 < n" and "0 < d" and k: "k = int (bit_length n) - int (bit_length d)"
  shows "2 powi (k - 1) \<le> real n / real d" and "real n / real d < 2 powi (k + 1)"
proof -
  from assms have pos: "0 < bit_length n" "0 < bit_length d" by (simp_all add: bit_length.simps)
  then obtain a b where ab: "bit_length n = Suc a" "bit_length d = Suc b"
    by (metis gr0_implies_Suc)
  from bit_length_bounds [OF assms(1)] bit_length_bounds [OF assms(2)] ab
  have n: "2 ^ a \<le> n" "n < 2 ^ Suc a" and d: "2 ^ b \<le> d" "d < 2 ^ Suc b" by simp_all
  from n d have r: "2 ^ a \<le> real n" "real n < 2 ^ Suc a" "2 ^ b \<le> real d" "real d < 2 ^ Suc b"
    by (metis of_nat_le_iff of_nat_less_iff of_nat_numeral of_nat_power)+
  have k: "k = int a - int b" using k ab by simp
  have "2 powi (k - 1) = (2 :: real) ^ a / 2 ^ Suc b"
    by (simp add: k power_int_diff)
  also have "\<dots> \<le> real n / real d" using r assms by (intro frac_le) auto
  finally show "2 powi (k - 1) \<le> real n / real d" .
  have "real n / real d < 2 ^ Suc a / 2 ^ b" using r assms by (intro frac_less) auto
  also have "\<dots> = (2 :: real) powi (k + 1)"
    by (simp add: k power_int_add power_int_diff)
  finally show "real n / real d < 2 powi (k + 1)" .
qed

lemma f64_exponent_bounds:
  assumes "0 < n" and "0 < d" and e: "e = f64_exponent n d"
  shows "- 1074 \<le> e" and "real n / real d < 2 powi (e + 53)"
    and "- 1074 < e \<Longrightarrow> 2 powi (e + 52) \<le> real n / real d"
proof -
  define k where "k = int (bit_length n) - int (bit_length d)"
  define k' where "k' = (if scale_den d k \<le> scale_num n k then k else k - 1)"
  have e': "e = max (k' - 52) (- 1074)"
    using e by (simp add: f64_exponent_def Let_def k_def k'_def)
  have lo: "2 powi k' \<le> real n / real d"
    using ratio_bounds(1) [OF assms(1,2) k_def] scale_le_iff [OF assms(2), of k n]
    by (auto simp: k'_def)
  have hi: "real n / real d < 2 powi (k' + 1)"
    using ratio_bounds(2) [OF assms(1,2) k_def] scale_le_iff [OF assms(2), of k n]
    by (auto simp: k'_def)
  show "- 1074 \<le> e" by (simp add: e')
  have "(2 :: real) powi (k' + 1) \<le> 2 powi (e + 53)"
    by (rule power_int_increasing) (auto simp: e')
  with hi show "real n / real d < 2 powi (e + 53)" by simp
  show "2 powi (e + 52) \<le> real n / real d" if "- 1074 < e"
    using that lo by (simp add: e' max_def split: if_splits)
qed

text \<open>Rounding a fraction to an integer: the result is within a half and no integer is nearer.\<close>

lemma round_half_even_half:
  assumes "0 < d"
  shows "\<bar>real (round_half_even n d) - real n / real d\<bar> \<le> 1 / 2"
proof -
  have n: "real n = real (n div d) * real d + real (n mod d)"
    by (metis div_mult_mod_eq of_nat_add of_nat_mult)
  have x: "real n / real d = real (n div d) + real (n mod d) / real d"
    using assms by (simp add: n field_simps)
  have "n mod d < d" using assms by simp
  moreover have "2 * (n mod d) \<le> d \<Longrightarrow> real (n mod d) / real d \<le> 1 / 2"
    using assms by (simp add: field_simps)
  moreover have "d \<le> 2 * (n mod d) \<Longrightarrow> 1 / 2 \<le> real (n mod d) / real d"
    using assms by (simp add: field_simps)
  moreover have "0 \<le> real (n mod d) / real d" "real (n mod d) / real d < 1"
    using assms by simp_all
  ultimately show ?thesis
    by (auto simp: round_half_even_def Let_def x)
qed

lemma half_nearest:
  fixes x :: real and i z :: int
  assumes "\<bar>of_int i - x\<bar> \<le> 1 / 2"
  shows "\<bar>of_int i - x\<bar> \<le> \<bar>of_int z - x\<bar>"
proof (cases "z = i")
  case False
  then have "1 \<le> \<bar>of_int z - (of_int i :: real)\<bar>" by linarith
  with assms show ?thesis by linarith
qed simp

text \<open>The rounded value before the overflow test.\<close>

definition rounded :: "nat \<Rightarrow> nat \<Rightarrow> nat" where
  "rounded n d = round_half_even (scale_num n (f64_exponent n d)) (scale_den d (f64_exponent n d))"

lemma round_f64_Finite:
  "round_f64 n d = Finite m e \<Longrightarrow> m = rounded n d \<and> e = f64_exponent n d"
  by (auto simp: round_f64_def rounded_def Let_def split: if_splits)

lemma rounded_nearest_multiple:
  fixes z :: int
  assumes "0 < d" and e: "e = f64_exponent n d"
  shows "\<bar>real (rounded n d) * 2 powi e - real n / real d\<bar> \<le> \<bar>of_int z * 2 powi e - real n / real d\<bar>"
proof -
  define x where "x = real n / real d"
  have "real (scale_num n e) / real (scale_den d e) = x / 2 powi e"
    by (simp add: scale_ratio x_def)
  then have "\<bar>real (rounded n d) - x / 2 powi e\<bar> \<le> 1 / 2"
    using round_half_even_half [of "scale_den d e" "scale_num n e"] assms by (simp add: rounded_def)
  then have "\<bar>of_int (int (rounded n d)) - x / 2 powi e\<bar> \<le> \<bar>of_int z - x / 2 powi e\<bar>"
    by (intro half_nearest) simp
  then have le: "\<bar>real (rounded n d) - x / 2 powi e\<bar> * 2 powi e \<le> \<bar>of_int z - x / 2 powi e\<bar> * 2 powi e"
    by (simp add: mult_right_mono)
  have eq: "\<bar>r - x / 2 powi e\<bar> * 2 powi e = \<bar>r * 2 powi e - x\<bar>" for r :: real
  proof -
    have "\<bar>r - x / 2 powi e\<bar> * 2 powi e = \<bar>(r - x / 2 powi e) * 2 powi e\<bar>" by (simp add: abs_mult)
    also have "(r - x / 2 powi e) * 2 powi e = r * 2 powi e - x" by (simp add: left_diff_distrib)
    finally show ?thesis .
  qed
  from le show ?thesis unfolding eq unfolding x_def .
qed

lemma powi_split: "(2 :: real) powi a = of_int (2 ^ nat (a - b)) * 2 powi b" if "b \<le> a" for a b :: int
proof -
  have "(2 :: real) powi a = 2 powi ((a - b) + b)" by simp
  also have "\<dots> = 2 powi (a - b) * 2 powi b" by (subst power_int_add) auto
  also have "(2 :: real) powi (a - b) = of_int (2 ^ nat (a - b))"
    using that by (simp add: power_int_def)
  finally show ?thesis .
qed

lemma round_f64_nearest_val:
  assumes "0 < d" and e: "e = f64_exponent n d" and y: "representable y"
  shows "\<bar>real (rounded n d) * 2 powi e - real n / real d\<bar> \<le> \<bar>y - real n / real d\<bar>"
proof -
  obtain m e' where y': "m < 2 ^ 53" "- 1074 \<le> e'" "y = real m * 2 powi e'"
    using y by (auto simp: representable_def)
  show ?thesis
  proof (cases "e \<le> e'")
    case True
    then have "y = of_int (int m * 2 ^ nat (e' - e)) * 2 powi e"
      using powi_split [OF True] by (simp add: y'(3) mult.assoc)
    then show ?thesis using rounded_nearest_multiple [OF assms(1,2)] by metis
  next
    case False
    show ?thesis
    proof (cases "n = 0")
      case True
      have "rounded n d = 0"
        by (simp add: rounded_def round_half_even_def scale_num_def Let_def True)
      with True show ?thesis by simp
    next
      case nz: False
      with False y'(2) have lo: "2 powi (e + 52) \<le> real n / real d"
        using f64_exponent_bounds(3) [of n d e] assms by auto
      have "y \<le> 2 ^ 53 * 2 powi e'"
        using y'(1) by (simp add: y'(3) mult_right_mono)
      also have "\<dots> = 2 powi (e' + 53)" by (simp add: power_int_add)
      also have "\<dots> \<le> 2 powi (e + 52)" using False by (intro power_int_increasing) auto
      finally have "y \<le> 2 powi (e + 52)" .
      with lo have "\<bar>2 powi (e + 52) - real n / real d\<bar> \<le> \<bar>y - real n / real d\<bar>" by linarith
      moreover have "2 powi (e + 52) = of_int (2 ^ 52) * (2 :: real) powi e"
        by (simp add: power_int_add)
      ultimately show ?thesis
        using rounded_nearest_multiple [OF assms(1,2), of "2 ^ 52"] by linarith
    qed
  qed
qed

lemma round_f64_exact_val:
  assumes "0 < d" and "representable (real n / real d)"
  shows "real (rounded n d) * 2 powi f64_exponent n d = real n / real d"
  using round_f64_nearest_val [OF assms(1) refl assms(2), of n] by simp

lemma overflow_test:
  "0 \<le> e \<and> 2 ^ 1024 \<le> m * 2 ^ nat e \<longleftrightarrow> 0 \<le> e \<and> 2 ^ 1024 \<le> real m * 2 powi e"
proof (cases "0 \<le> e")
  case True
  then have "2 ^ 1024 \<le> m * 2 ^ nat e \<longleftrightarrow> real (2 ^ 1024) \<le> real (m * 2 ^ nat e)"
    by (simp only: of_nat_le_iff)
  with True show ?thesis by (simp add: power_int_def)
qed simp

lemma representable_less: "representable y \<Longrightarrow> y < 2 ^ 1024"
proof -
  assume "representable y"
  then obtain m e where y: "m < 2 ^ 53" "e \<le> 971" "y = real m * 2 powi e"
    by (auto simp: representable_def)
  have "real m < 2 ^ 53" using y(1) by (metis of_nat_less_iff of_nat_numeral of_nat_power)
  then have "y < 2 ^ 53 * 2 powi e" by (simp add: y(3))
  also have "\<dots> \<le> 2 ^ 53 * 2 powi 971"
    using y(2) by (intro mult_left_mono power_int_increasing) auto
  also have "\<dots> = (2 :: real) ^ (53 + 971)" by (simp only: power_add) simp
  finally show "y < 2 ^ 1024" by simp
qed

lemma round_f64_exact:
  assumes "0 < d" and "representable (real n / real d)"
  shows "round_f64 n d = Finite (rounded n d) (f64_exponent n d)"
    and "f64_val (round_f64 n d) = real n / real d"
proof -
  have v: "real (rounded n d) * 2 powi f64_exponent n d = real n / real d"
    by (rule round_f64_exact_val) fact+
  have "\<not> (0 \<le> f64_exponent n d \<and> 2 ^ 1024 \<le> rounded n d * 2 ^ nat (f64_exponent n d))"
    by (metis overflow_test v not_le representable_less assms(2))
  then show f: "round_f64 n d = Finite (rounded n d) (f64_exponent n d)"
    by (simp add: round_f64_def rounded_def Let_def)
  show "f64_val (round_f64 n d) = real n / real d" by (simp add: f v)
qed

subsection \<open>Exact operations\<close>

fun is_finite :: "f64 \<Rightarrow> bool" where
  "is_finite (Finite _ _) = True"
| "is_finite PosInf = False"

lemma representable_nat: "n \<le> 2 ^ 53 \<Longrightarrow> representable (real n)"
proof -
  assume n: "n \<le> 2 ^ 53"
  show ?thesis
  proof (cases "n = 2 ^ 53")
    case True
    have "real n = real (2 ^ 52) * 2 powi 1" by (simp add: True)
    then show ?thesis unfolding representable_def
      by (intro exI [of _ "2 ^ 52 :: nat"] exI [of _ "1 :: int"]) simp
  next
    case False
    with n have "n < 2 ^ 53" by simp
    then show ?thesis unfolding representable_def
      by (intro exI [of _ n] exI [of _ "0 :: int"]) simp
  qed
qed

lemma f64_of_nat_exact:
  "n \<le> 2 ^ 53 \<Longrightarrow> is_finite (f64_of_nat n) \<and> f64_val (f64_of_nat n) = real n"
  using round_f64_exact [of 1 n] representable_nat [of n] by (simp add: f64_of_nat_def)

lemma f64_scaled_exact:
  assumes "0 < d" and "representable (real n / real d * 2 powi e)"
  shows "is_finite (f64_scaled n d e) \<and> f64_val (f64_scaled n d e) = real n / real d * 2 powi e"
proof -
  have eq: "real (n * 2 ^ nat e) / real (d * 2 ^ nat (- e)) = real n / real d * 2 powi e"
    by (cases "0 \<le> e") (auto simp: power_int_def field_simps)
  show ?thesis
    using assms round_f64_exact [of "d * 2 ^ nat (- e)" "n * 2 ^ nat e"]
    unfolding f64_scaled_def eq by simp
qed

lemma f64_mul_exact:
  assumes "is_finite x" and "is_finite y" and "representable (f64_val x * f64_val y)"
  shows "is_finite (f64_mul x y) \<and> f64_val (f64_mul x y) = f64_val x * f64_val y"
proof -
  obtain m e m' e' where xy: "x = Finite m e" "y = Finite m' e'"
    using assms(1,2) by (metis f64.exhaust is_finite.simps(2))
  have eq: "f64_val x * f64_val y = real (m * m') / real 1 * 2 powi (e + e')"
    by (simp add: xy power_int_add)
  show ?thesis
    using f64_scaled_exact [of 1 "m * m'" "e + e'"] assms(3) unfolding eq by (simp add: xy)
qed

lemma f64_trunc_floor: "f64_trunc m e = nat \<lfloor>real m * 2 powi e\<rfloor>"
proof (cases "0 \<le> e")
  case True
  then have "real m * 2 powi e = of_int (int (m * 2 ^ nat e))" by (simp add: power_int_def)
  then have "\<lfloor>real m * 2 powi e\<rfloor> = int (m * 2 ^ nat e)" by (simp only: floor_of_int)
  with True show ?thesis by (simp only: f64_trunc.simps if_True nat_int)
next
  case False
  then have "real m * 2 powi e = real m / real (2 ^ nat (- e))"
    by (simp add: power_int_def field_simps)
  then have "\<lfloor>real m * 2 powi e\<rfloor> = int (m div 2 ^ nat (- e))"
    by (simp only: floor_divide_of_nat_eq)
  with False show ?thesis by simp
qed

lemma f64_to_int_exact:
  "is_finite x \<Longrightarrow> f64_val x = real v \<Longrightarrow> v < 2 ^ 63 \<Longrightarrow> f64_to_int x = int v"
  by (cases x) (auto simp: f64_trunc_floor simp del: f64_trunc.simps)

lemma f64_to_int_overflow:
  "is_finite x \<Longrightarrow> f64_val x = real v \<Longrightarrow> 2 ^ 63 \<le> v \<Longrightarrow> f64_to_int x = - (2 ^ 63)"
  by (cases x) (auto simp: f64_trunc_floor simp del: f64_trunc.simps)

lemma f64_to_int_bounds:
  "f64_to_int x = - (2 ^ 63) \<or> (0 \<le> f64_to_int x \<and> f64_to_int x < 2 ^ 63)"
  by (cases x) (simp_all del: f64_trunc.simps)

subsection \<open>Reading decimals\<close>

lemma ParseFloat_Inr_iff:
  "ParseFloat s = Inr x \<longleftrightarrow>
    decimal_ok s \<and> is_finite x \<and>
    x = round_f64 (digits_val (int_part s @ frac_part s)) (10 ^ length (frac_part s))"
  by (cases x) (auto simp: ParseFloat_def split: f64.splits)

lemma ParseFloat_show_nat:
  assumes "v \<le> 2 ^ 53"
  shows "ParseFloat (show_nat v) = Inr (f64_of_nat v)"
proof -
  have t: "takeWhile is_digit (show_nat v) = show_nat v" "dropWhile is_digit (show_nat v) = []"
    using show_nat_digits [of v] by (simp_all add: list_all_iff takeWhile_eq_all_conv)
  have "int_part (show_nat v) = show_nat v" "frac_part (show_nat v) = []" "decimal_ok (show_nat v)"
    by (simp_all add: int_part_def frac_part_def decimal_ok_def t)
  then show ?thesis
    using f64_of_nat_exact [OF assms] by (simp add: ParseFloat_Inr_iff f64_of_nat_def)
qed

lemma ParseFloat_Inl: "ParseFloat s = Inl e \<Longrightarrow> \<exists>k. e = NumError ''ParseFloat'' s k"
  by (auto simp: ParseFloat_def split: if_splits f64.splits)

end
