(* ===== verification/Metrics.thy ===== *)
theory Metrics
  imports Float64
begin

section \<open>Metrics of the chaincode (fabric-chaincode/internal/chaincode/metrics/metrics.go)\<close>

text \<open>
  \<open>metricsContainer\<close> and its operations. A Prometheus collector is library code; of it the model
  keeps what the program does to it: its name, its label names and the calls made
  (\<open>WithLabelValues(...).Inc()\<close>, \<open>WithLabelValues(...).Observe(x)\<close>), in order. \<open>WithLabelValues\<close>
  panics, as documented, on a wrong number of values and on a value that is not UTF-8.
  \<open>Manager\<close>, the interface the chaincode holds, is the locale \<open>metrics_manager\<close>, interpreted on
  the container. UUIDs and stream identifiers are library types: their \<open>String\<close> methods are
  arguments. Log output is not modelled but for its severity in
  \<open>isInvalidLicenseDueToUserError\<close>.
\<close>

subsection \<open>UTF-8\<close>

text \<open>\<open>utf8.ValidString\<close>: the number of continuation bytes and the range of the first of them.\<close>

definition utf8_head :: "nat \<Rightarrow> (nat \<times> nat \<times> nat) option" where
  "utf8_head b =
     (if 194 \<le> b \<and> b \<le> 223 then Some (1, 128, 191)
      else if b = 224 then Some (2, 160, 191)
      else if b = 237 then Some (2, 128, 159)
      else if 225 \<le> b \<and> b \<le> 239 then Some (2, 128, 191)
      else if b = 240 then Some (3, 144, 191)
      else if 241 \<le> b \<and> b \<le> 243 then Some (3, 128, 191)
      else if b = 244 then Some (3, 128, 143)
      else None)"

definition byte_in :: "nat \<Rightarrow> nat \<Rightarrow> char \<Rightarrow> bool" where
  "byte_in lo hi c \<longleftrightarrow> lo \<le> byte c \<and> byte c \<le> hi"

function utf8_valid :: "string \<Rightarrow> bool" where
  "utf8_valid [] = True"
| "utf8_valid (c # cs) =
     (if byte c < 128 then utf8_valid cs
      else case utf8_head (byte c) of
        None \<Rightarrow> False
      | Some (k, lo, hi) \<Rightarrow>
          k \<le> length cs \<and> byte_in lo hi (hd cs) \<and> list_all (byte_in 128 191) (take k cs) \<and>
          utf8_valid (drop k cs))"
  by pat_completeness auto
termination by (relation "measure length") auto

lemma utf8_valid_ascii: "list_all (\<lambda>c. byte c < 128) s \<Longrightarrow> utf8_valid s"
  by (induction s) auto

subsection \<open>Labels and causes\<close>

record 'u LicenseLabels =
  CustomerID :: 'u
  DivisionID :: 'u

record ActionLabels =
  Action :: string
  Success :: bool
  ElapsedTimeSeconds :: f64

type_synonym InvalidLicenseCause = string

definition BeyondEndOfLicense :: InvalidLicenseCause where
  "BeyondEndOfLicense = ''beyond_end_of_license''"
definition BeyondMaxActiveStreams :: InvalidLicenseCause where
  "BeyondMaxActiveStreams = ''beyond_max_active_streams''"
definition CustomerNotActive :: InvalidLicenseCause where
  "CustomerNotActive = ''customer_not_active''"
definition DivisionNotActive :: InvalidLicenseCause where
  "DivisionNotActive = ''division_not_active''"
definition RootAccountIDIsNil :: InvalidLicenseCause where
  "RootAccountIDIsNil = ''root_account_id_is_nil''"
definition CustomerNotFound :: InvalidLicenseCause where
  "CustomerNotFound = ''customer_not_found''"
definition CustomerIsEmpty :: InvalidLicenseCause where
  "CustomerIsEmpty = ''customer_is_empty''"
definition CustomerListUnmarshalError :: InvalidLicenseCause where
  "CustomerListUnmarshalError = ''customer_list_unmarshal_error''"
definition CustomerUnmarshalError :: InvalidLicenseCause where
  "CustomerUnmarshalError = ''customer_unmarshal_error''"
definition DivisionNotFoundInCustomer :: InvalidLicenseCause where
  "DivisionNotFoundInCustomer = ''division_not_found_in_customer''"
definition SystemError :: InvalidLicenseCause where
  "SystemError = ''system_error''"

lemmas cause_defs =
  BeyondEndOfLicense_def BeyondMaxActiveStreams_def CustomerNotActive_def DivisionNotActive_def
  RootAccountIDIsNil_def CustomerNotFound_def CustomerIsEmpty_def CustomerListUnmarshalError_def
  CustomerUnmarshalError_def DivisionNotFoundInCustomer_def SystemError_def

text \<open>The severity of what is logged for a cause, if anything is.\<close>

datatype severity = LogWarning | LogError

definition isInvalidLicenseDueToUserError :: "InvalidLicenseCause \<Rightarrow> bool \<times> severity option" where
  "isInvalidLicenseDueToUserError cause =
     (if cause \<in> {BeyondEndOfLicense, BeyondMaxActiveStreams, CustomerNotActive, DivisionNotActive}
        then (True, None)
      else if cause \<in> {CustomerNotFound, CustomerIsEmpty, CustomerListUnmarshalError,
          CustomerUnmarshalError, DivisionNotFoundInCustomer, RootAccountIDIsNil}
        then (False, None)
      else if cause = SystemError then (False, Some LogWarning)
      else (False, Some LogError))"

subsection \<open>Collectors and the container\<close>

record collector =
  Name :: string
  LabelNames :: "string list"
  Calls :: "(string list \<times> f64 option) list"

text \<open>
  \<open>WithLabelValues(vs...)\<close> followed by \<open>Inc()\<close> (\<open>None\<close>) or \<open>Observe(x)\<close> (\<open>Some x\<close>).
\<close>

definition with_labels :: "string list \<Rightarrow> f64 option \<Rightarrow> collector \<Rightarrow> collector outcome" where
  "with_labels vs x c =
     (if length vs \<noteq> length (LabelNames c) then Panic ''inconsistent label cardinality''
      else if \<not> list_all utf8_valid vs then Panic ''label value is not valid UTF-8''
      else Ret (c\<lparr>Calls := Calls c @ [(vs, x)]\<rparr>))"

record metricsContainer =
  chaincodeActions :: collector
  failedStreamChallenges :: collector
  invalidLicenseEvents :: collector
  streams :: collector

text \<open>
  \<open>promauto.With(reg).NewCounterVec\<close> and \<open>NewHistogramVec\<close>: \<open>register\<close> is the registry's
  \<open>Register\<close>, with \<open>None\<close> for its error; promauto panics on it.
\<close>

definition promauto_new ::
  "(string \<Rightarrow> string list \<Rightarrow> 'r \<Rightarrow> 'r option) \<Rightarrow> string \<Rightarrow> string list \<Rightarrow> 'r \<Rightarrow> (collector \<times> 'r) outcome" where
  "promauto_new register name labels reg =
     (case register name labels reg of
        None \<Rightarrow> Panic (''register '' @ name)
      | Some reg' \<Rightarrow> Ret (\<lparr>Name = name, LabelNames = labels, Calls = []\<rparr>, reg'))"

definition NewMetricsManager ::
  "(string \<Rightarrow> string list \<Rightarrow> 'r \<Rightarrow> 'r option) \<Rightarrow> 'r \<Rightarrow> (metricsContainer \<times> 'r) outcome" where
  "NewMetricsManager register reg =
     outcome_bind (promauto_new register ''streams_total'' [''customerID'', ''divisionID''] reg)
       (\<lambda>(streamsCounter, reg).
     outcome_bind (promauto_new register ''chaincode_actions''
         [''action'', ''success'', ''elapsedTimeSeconds''] reg)
       (\<lambda>(actionsHistogram, reg).
     outcome_bind (promauto_new register ''chaincode_failed_stream_challenge_total''
         [''accountID'', ''streamID''] reg)
       (\<lambda>(failedStreamChallengesCounter, reg).
     outcome_bind (promauto_new register ''invalid_license_total''
         [''customerID'', ''divisionID'', ''cause'', ''isUserError''] reg)
       (\<lambda>(invalidLicenseCounter, reg).
     Ret (\<lparr>chaincodeActions = actionsHistogram,
           failedStreamChallenges = failedStreamChallengesCounter,
           invalidLicenseEvents = invalidLicenseCounter,
           streams = streamsCounter\<rparr>, reg)))))"

subsection \<open>Operations; a nil pointer panics when it is read\<close>

definition OnFailedStreamChallenge ::
  "('u \<Rightarrow> string) \<Rightarrow> ('s \<Rightarrow> string) \<Rightarrow> 'u \<Rightarrow> 's \<Rightarrow> metricsContainer \<Rightarrow> metricsContainer outcome" where
  "OnFailedStreamChallenge uuid_String id_String accountID streamID m =
     outcome_bind (with_labels [uuid_String accountID, id_String streamID] None (failedStreamChallenges m))
       (\<lambda>c. Ret (m\<lparr>failedStreamChallenges := c\<rparr>))"

definition IncrementClientStreamCount ::
  "('u \<Rightarrow> string) \<Rightarrow> 'u LicenseLabels option \<Rightarrow> metricsContainer \<Rightarrow> metricsContainer outcome" where
  "IncrementClientStreamCount uuid_String labels m =
     (case labels of
        None \<Rightarrow> Panic ''nil pointer dereference''
      | Some l \<Rightarrow>
          outcome_bind (with_labels [uuid_String (CustomerID l), uuid_String (DivisionID l)] None (streams m))
            (\<lambda>c. Ret (m\<lparr>streams := c\<rparr>)))"

definition RecordChaincodeActionInvocation ::
  "ActionLabels option \<Rightarrow> metricsContainer \<Rightarrow> metricsContainer outcome" where
  "RecordChaincodeActionInvocation labels m =
     (case labels of
        None \<Rightarrow> Panic ''nil pointer dereference''
      | Some l \<Rightarrow>
          let elapsedTimeSeconds = format_f (ElapsedTimeSeconds l) in
          outcome_bind
            (with_labels [Action l, FormatBool (Success l), elapsedTimeSeconds]
              (Some (ElapsedTimeSeconds l)) (chaincodeActions m))
            (\<lambda>c. Ret (m\<lparr>chaincodeActions := c\<rparr>)))"

definition IncrementInvalidLicensingEventCount ::
  "('u \<Rightarrow> string) \<Rightarrow> 'u LicenseLabels option \<Rightarrow> InvalidLicenseCause \<Rightarrow> metricsContainer \<Rightarrow>
   metricsContainer outcome" where
  "IncrementInvalidLicensingEventCount uuid_String labels cause m =
     (let (customerIDString, divisionIDString) =
            (case labels of
               None \<Rightarrow> ([], [])
             | Some l \<Rightarrow> (uuid_String (CustomerID l), uuid_String (DivisionID l)));
          isUserError = fst (isInvalidLicenseDueToUserError cause)
      in outcome_bind
           (with_labels [customerIDString, divisionIDString, cause, FormatBool isUserError] None
             (invalidLicenseEvents m))
           (\<lambda>c. Ret (m\<lparr>invalidLicenseEvents := c\<rparr>)))"

subsection \<open>What one call does\<close>

lemma with_labels_Ret_iff:
  "with_labels vs x c = Ret c' \<longleftrightarrow>
     length vs = length (LabelNames c) \<and> list_all utf8_valid vs \<and> c' = c\<lparr>Calls := Calls c @ [(vs, x)]\<rparr>"
  by (auto simp: with_labels_def)

lemma with_labels_ok:
  "length vs = length (LabelNames c) \<Longrightarrow> list_all utf8_valid vs \<Longrightarrow>
    with_labels vs x c = Ret (c\<lparr>Calls := Calls c @ [(vs, x)]\<rparr>)"
  by (simp add: with_labels_Ret_iff)

lemma is_digit_ascii: "is_digit c \<Longrightarrow> byte c < 128"
  by (simp add: is_digit_def)

lemma show_nat_ascii: "list_all (\<lambda>c. byte c < 128) (show_nat n)"
  using show_nat_digits [of n] by (auto simp: list_all_iff is_digit_ascii)

lemma pad_left_ascii:
  "list_all (\<lambda>c. byte c < 128) s \<Longrightarrow> list_all (\<lambda>c. byte c < 128) (pad_left k s)"
  by (auto simp: pad_left_def list_all_iff)

lemma format_f_utf8 [simp]: "utf8_valid (format_f x)"
proof (rule utf8_valid_ascii)
  show "list_all (\<lambda>c. byte c < 128) (format_f x)"
    by (cases x) (simp_all add: Let_def show_nat_ascii pad_left_ascii)
qed

lemma FormatBool_utf8 [simp]: "utf8_valid (FormatBool b)"
  by (cases b) (simp_all add: FormatBool_def utf8_valid_ascii)

text \<open>The collectors have the label names \<open>NewMetricsManager\<close> gave them.\<close>

definition wf_metrics :: "metricsContainer \<Rightarrow> bool" where
  "wf_metrics m \<longleftrightarrow>
     LabelNames (streams m) = [''customerID'', ''divisionID''] \<and>
     LabelNames (chaincodeActions m) = [''action'', ''success'', ''elapsedTimeSeconds''] \<and>
     LabelNames (failedStreamChallenges m) = [''accountID'', ''streamID''] \<and>
     LabelNames (invalidLicenseEvents m) = [''customerID'', ''divisionID'', ''cause'', ''isUserError'']"

lemma RecordChaincodeActionInvocation_ok:
  "wf_metrics m \<Longrightarrow> utf8_valid (Action l) \<Longrightarrow>
    RecordChaincodeActionInvocation (Some l) m =
      Ret (m\<lparr>chaincodeActions := (chaincodeActions m)\<lparr>Calls := Calls (chaincodeActions m) @
        [([Action l, FormatBool (Success l), format_f (ElapsedTimeSeconds l)], Some (ElapsedTimeSeconds l))]\<rparr>\<rparr>)"
  by (simp add: RecordChaincodeActionInvocation_def wf_metrics_def with_labels_ok Let_def)

lemma OnFailedStreamChallenge_ok:
  "wf_metrics m \<Longrightarrow> utf8_valid (us a) \<Longrightarrow> utf8_valid (ss s) \<Longrightarrow>
    OnFailedStreamChallenge us ss a s m =
      Ret (m\<lparr>failedStreamChallenges := (failedStreamChallenges m)\<lparr>Calls :=
        Calls (failedStreamChallenges m) @ [([us a, ss s], None)]\<rparr>\<rparr>)"
  by (simp add: OnFailedStreamChallenge_def wf_metrics_def with_labels_ok)

lemma IncrementClientStreamCount_ok:
  "wf_metrics m \<Longrightarrow> utf8_valid (us (CustomerID l)) \<Longrightarrow> utf8_valid (us (DivisionID l)) \<Longrightarrow>
    IncrementClientStreamCount us (Some l) m =
      Ret (m\<lparr>streams := (streams m)\<lparr>Calls :=
        Calls (streams m) @ [([us (CustomerID l), us (DivisionID l)], None)]\<rparr>\<rparr>)"
  by (simp add: IncrementClientStreamCount_def wf_metrics_def with_labels_ok)

text \<open>The customer and division of an event, which may both be unknown.\<close>

definition license_values :: "('u \<Rightarrow> string) \<Rightarrow> 'u LicenseLabels option \<Rightarrow> string list" where
  "license_values us labels =
     (case labels of None \<Rightarrow> [[], []] | Some l \<Rightarrow> [us (CustomerID l), us (DivisionID l)])"

lemma IncrementInvalidLicensingEventCount_ok:
  "wf_metrics m \<Longrightarrow> list_all utf8_valid (license_values us labels) \<Longrightarrow> utf8_valid cause \<Longrightarrow>
    IncrementInvalidLicensingEventCount us labels cause m =
      Ret (m\<lparr>invalidLicenseEvents := (invalidLicenseEvents m)\<lparr>Calls :=
        Calls (invalidLicenseEvents m) @
          [(license_values us labels @
            [cause, FormatBool (fst (isInvalidLicenseDueToUserError cause))], None)]\<rparr>\<rparr>)"
  by (cases labels)
    (simp_all add: IncrementInvalidLicensingEventCount_def license_values_def wf_metrics_def with_labels_ok)

subsection \<open>The Manager interface\<close>

text \<open>
  What the chaincode relies on: recording an action does not panic, and the action is added to
  what is recorded.
\<close>

locale metrics_manager =
  fixes record_action :: "ActionLabels option \<Rightarrow> 'm \<Rightarrow> 'm outcome"
    and good :: "'m \<Rightarrow> bool"
    and actions :: "'m \<Rightarrow> (string \<times> bool) list"
  assumes record_ok:
    "good m \<Longrightarrow> utf8_valid (Action l) \<Longrightarrow>
      \<exists>m'. record_action (Some l) m = Ret m' \<and> good m' \<and> actions m' = actions m @ [(Action l, Success l)]"
begin

lemma record_obtain:
  assumes "good m" and "utf8_valid (Action l)"
  obtains m' where "record_action (Some l) m = Ret m'" "good m'"
    "actions m' = actions m @ [(Action l, Success l)]"
  using record_ok [OF assms] by blast

lemma record_count:
  assumes "good m" and "utf8_valid (Action l)" and "record_action (Some l) m = Ret m'"
  shows "count_list (actions m') a = count_list (actions m) a + (if a = (Action l, Success l) then 1 else 0)"
  using record_ok [OF assms(1,2)] assms(3) by auto

end

definition recorded_actions :: "metricsContainer \<Rightarrow> (string \<times> bool) list" where
  "recorded_actions m =
     map (\<lambda>(vs, _). (vs ! 0, vs ! 1 = FormatBool True)) (Calls (chaincodeActions m))"

interpretation prometheus:
  metrics_manager RecordChaincodeActionInvocation wf_metrics recorded_actions
proof
  fix m :: metricsContainer and l :: ActionLabels
  assume "wf_metrics m" "utf8_valid (Action l)"
  then show "\<exists>m'. RecordChaincodeActionInvocation (Some l) m = Ret m' \<and> wf_metrics m' \<and>
      recorded_actions m' = recorded_actions m @ [(Action l, Success l)]"
    by (simp add: RecordChaincodeActionInvocation_ok) (simp add: wf_metrics_def recorded_actions_def)
qed

subsection \<open>A new manager, and any sequence of calls\<close>

lemma promauto_new_Ret_iff:
  "promauto_new register name labels reg = Ret (c, reg') \<longleftrightarrow>
    register name labels reg = Some reg' \<and> c = \<lparr>Name = name, LabelNames = labels, Calls = []\<rparr>"
  by (auto simp: promauto_new_def split: option.splits)

lemma NewMetricsManager_wf:
  "NewMetricsManager register reg = Ret (m, reg') \<Longrightarrow>
    wf_metrics m \<and> Calls (streams m) = [] \<and> Calls (chaincodeActions m) = [] \<and>
    Calls (failedStreamChallenges m) = [] \<and> Calls (invalidLicenseEvents m) = []"
  by (auto simp: NewMetricsManager_def promauto_new_Ret_iff wf_metrics_def)

datatype ('u, 's) manager_call =
    FailedStreamChallenge 'u 's
  | ClientStream "'u LicenseLabels option"
  | ActionInvocation "ActionLabels option"
  | InvalidLicense "'u LicenseLabels option" InvalidLicenseCause

fun manager_step ::
  "('u \<Rightarrow> string) \<Rightarrow> ('s \<Rightarrow> string) \<Rightarrow> ('u, 's) manager_call \<Rightarrow> metricsContainer \<Rightarrow> metricsContainer outcome" where
  "manager_step us ss (FailedStreamChallenge a s) m = OnFailedStreamChallenge us ss a s m"
| "manager_step us ss (ClientStream l) m = IncrementClientStreamCount us l m"
| "manager_step us ss (ActionInvocation l) m = RecordChaincodeActionInvocation l m"
| "manager_step us ss (InvalidLicense l c) m = IncrementInvalidLicensingEventCount us l c m"

fun manager_run ::
  "('u \<Rightarrow> string) \<Rightarrow> ('s \<Rightarrow> string) \<Rightarrow> ('u, 's) manager_call list \<Rightarrow> metricsContainer \<Rightarrow> metricsContainer outcome" where
  "manager_run us ss [] m = Ret m"
| "manager_run us ss (c # cs) m = outcome_bind (manager_step us ss c m) (manager_run us ss cs)"

text \<open>The texts of a call are UTF-8; those of UUIDs and stream identifiers are assumed to be.\<close>

fun call_text_ok :: "('u, 's) manager_call \<Rightarrow> bool" where
  "call_text_ok (ActionInvocation (Some l)) = utf8_valid (Action l)"
| "call_text_ok (InvalidLicense l c) = utf8_valid c"
| "call_text_ok _ = True"

text \<open>
  What a call adds to each collector, in the words of the documentation and apart from the
  definitions above: the label values, the four causes that are the customer's fault written
  out, and the observed value.
\<close>

fun challenge_entry :: "('u \<Rightarrow> string) \<Rightarrow> ('s \<Rightarrow> string) \<Rightarrow> ('u, 's) manager_call \<Rightarrow> (string list \<times> f64 option) list" where
  "challenge_entry us ss (FailedStreamChallenge a s) = [([us a, ss s], None)]"
| "challenge_entry us ss _ = []"

fun stream_entry :: "('u \<Rightarrow> string) \<Rightarrow> ('u, 's) manager_call \<Rightarrow> (string list \<times> f64 option) list" where
  "stream_entry us (ClientStream (Some l)) = [([us (CustomerID l), us (DivisionID l)], None)]"
| "stream_entry us _ = []"

fun action_entry :: "('u, 's) manager_call \<Rightarrow> (string list \<times> f64 option) list" where
  "action_entry (ActionInvocation (Some l)) =
     [([Action l, if Success l then ''true'' else ''false'', format_f (ElapsedTimeSeconds l)],
       Some (ElapsedTimeSeconds l))]"
| "action_entry _ = []"

fun license_entry :: "('u \<Rightarrow> string) \<Rightarrow> ('u, 's) manager_call \<Rightarrow> (string list \<times> f64 option) list" where
  "license_entry us (InvalidLicense l c) =
     [((case l of None \<Rightarrow> [[], []] | Some x \<Rightarrow> [us (CustomerID x), us (DivisionID x)]) @
       [c, if c \<in> {''beyond_end_of_license'', ''beyond_max_active_streams'', ''customer_not_active'',
             ''division_not_active''} then ''true'' else ''false''], None)]"
| "license_entry us _ = []"

text \<open>The calls whose labels are nil where the code reads them.\<close>

fun nil_labels :: "('u, 's) manager_call \<Rightarrow> bool" where
  "nil_labels (ClientStream None) = True"
| "nil_labels (ActionInvocation None) = True"
| "nil_labels _ = False"

definition entries_added ::
  "('u \<Rightarrow> string) \<Rightarrow> ('s \<Rightarrow> string) \<Rightarrow> ('u, 's) manager_call list \<Rightarrow> metricsContainer \<Rightarrow> metricsContainer \<Rightarrow> bool" where
  "entries_added us ss cs m m' \<longleftrightarrow>
     Calls (failedStreamChallenges m') = Calls (failedStreamChallenges m) @ concat (map (challenge_entry us ss) cs) \<and>
     Calls (streams m') = Calls (streams m) @ concat (map (stream_entry us) cs) \<and>
     Calls (chaincodeActions m') = Calls (chaincodeActions m) @ concat (map action_entry cs) \<and>
     Calls (invalidLicenseEvents m') = Calls (invalidLicenseEvents m) @ concat (map (license_entry us) cs)"

lemma user_error_label:
  "FormatBool (fst (isInvalidLicenseDueToUserError c)) =
     (if c \<in> {''beyond_end_of_license'', ''beyond_max_active_streams'', ''customer_not_active'',
        ''division_not_active''} then ''true'' else ''false'')"
  by (simp add: isInvalidLicenseDueToUserError_def cause_defs FormatBool_def)

lemma license_values_utf8: "(\<forall>u. utf8_valid (us u)) \<Longrightarrow> list_all utf8_valid (license_values us l)"
  by (simp add: license_values_def split: option.splits)

lemma manager_step_nil: "nil_labels c \<Longrightarrow> \<exists>t. manager_step us ss c m = Panic t"
  by (cases c rule: nil_labels.cases)
    (simp_all add: IncrementClientStreamCount_def RecordChaincodeActionInvocation_def)

lemma manager_step_ok:
  assumes "wf_metrics m" and "\<forall>u. utf8_valid (us u)" and "\<forall>s. utf8_valid (ss s)" and "call_text_ok c"
    and "\<not> nil_labels c"
  shows "\<exists>m'. manager_step us ss c m = Ret m' \<and> wf_metrics m' \<and> entries_added us ss [c] m m'"
proof (cases c)
  case (FailedStreamChallenge a s)
  then show ?thesis
    using assms by (simp add: OnFailedStreamChallenge_ok) (simp add: wf_metrics_def entries_added_def)
next
  case (ClientStream l)
  then show ?thesis
    using assms by (cases l; simp add: IncrementClientStreamCount_ok) (simp add: wf_metrics_def entries_added_def)
next
  case (ActionInvocation l)
  then show ?thesis
    using assms
    by (cases l; simp add: RecordChaincodeActionInvocation_ok)
      (simp add: wf_metrics_def entries_added_def FormatBool_def)
next
  case (InvalidLicense l x)
  then show ?thesis
    using assms
    by (simp only: manager_step.simps IncrementInvalidLicensingEventCount_ok license_values_utf8
        call_text_ok.simps outcome.inject ex_simps simp_thms user_error_label)
      (simp add: wf_metrics_def entries_added_def license_values_def)
qed

lemma manager_run_ok:
  assumes "\<forall>u. utf8_valid (us u)" and "\<forall>s. utf8_valid (ss s)"
  shows "wf_metrics m \<Longrightarrow> list_all call_text_ok cs \<Longrightarrow>
    (if list_ex nil_labels cs then \<exists>t. manager_run us ss cs m = Panic t
     else \<exists>m'. manager_run us ss cs m = Ret m' \<and> entries_added us ss cs m m')"
proof (induction cs arbitrary: m)
  case (Cons c cs)
  show ?case
  proof (cases "nil_labels c")
    case False
    then obtain m1 where "manager_step us ss c m = Ret m1" "wf_metrics m1" "entries_added us ss [c] m m1"
      using manager_step_ok [OF Cons.prems(1) assms, of c] Cons.prems(2) by auto
    with Cons.IH [of m1] Cons.prems(2) False show ?thesis
      by (auto simp: entries_added_def split: if_splits)
  qed (use manager_step_nil [of c us ss m] in auto)
qed (simp add: entries_added_def)

text \<open>
  C30: on a manager made by \<open>NewMetricsManager\<close>, a sequence of calls whose texts are UTF-8
  panics exactly if one of them passes nil labels to \<open>IncrementClientStreamCount\<close> or
  \<open>RecordChaincodeActionInvocation\<close>. Otherwise every collector has received exactly the entries
  of its own calls, in order and with the label values written out in \<open>challenge_entry\<close>,
  \<open>stream_entry\<close>, \<open>action_entry\<close> and \<open>license_entry\<close>: an invalid license is counted as the
  user's error for the causes beyond_end_of_license, beyond_max_active_streams,
  customer_not_active and division_not_active and for no other, known or unknown, and labels may
  be nil there.
\<close>

theorem metrics_run_counts:
  assumes "NewMetricsManager register reg = Ret (m, reg')"
    and "\<forall>u. utf8_valid (us u)" and "\<forall>s. utf8_valid (ss s)" and "list_all call_text_ok cs"
  shows "if list_ex nil_labels cs then \<exists>t. manager_run us ss cs m = Panic t
    else \<exists>m'. manager_run us ss cs m = Ret m' \<and>
      Calls (failedStreamChallenges m') = concat (map (challenge_entry us ss) cs) \<and>
      Calls (streams m') = concat (map (stream_entry us) cs) \<and>
      Calls (chaincodeActions m') = concat (map action_entry cs) \<and>
      Calls (invalidLicenseEvents m') = concat (map (license_entry us) cs)"
  using manager_run_ok [OF assms(2,3) _ assms(4), of m] NewMetricsManager_wf [OF assms(1)]
  by (auto simp: entries_added_def split: if_splits)

definition name_register :: "string \<Rightarrow> string list \<Rightarrow> string list \<Rightarrow> string list option" where
  "name_register n ls r = (if n \<in> set r then None else Some (n # r))"

lemma show_nat_utf8: "utf8_valid (show_nat n)"
  by (rule utf8_valid_ascii) (rule show_nat_ascii)

lemma name_register_manager: "\<exists>m reg'. NewMetricsManager name_register [] = Ret (m, reg')"
  by (simp add: NewMetricsManager_def promauto_new_def name_register_def)

theorem metrics_run_counts_witness:
  "\<exists>m reg' m' t. NewMetricsManager name_register [] = Ret (m, reg') \<and>
     manager_run show_nat show_nat
       [InvalidLicense None ''customer_not_active'', FailedStreamChallenge 7 8,
        InvalidLicense (Some \<lparr>CustomerID = 1, DivisionID = 2\<rparr>) ''customer_not_found''] m = Ret m' \<and>
     Calls (failedStreamChallenges m') = [([show_nat 7, show_nat 8], None)] \<and>
     Calls (invalidLicenseEvents m') =
       [([[], [], ''customer_not_active'', ''true''], None),
        ([show_nat 1, show_nat 2, ''customer_not_found'', ''false''], None)] \<and>
     manager_run show_nat show_nat [FailedStreamChallenge 7 8, ClientStream None] m = Panic t"
proof -
  obtain m reg' where m: "NewMetricsManager name_register [] = Ret (m, reg')"
    using name_register_manager by blast
  show ?thesis
    using m metrics_run_counts [OF m, of show_nat show_nat
        "[InvalidLicense None ''customer_not_active'', FailedStreamChallenge 7 8,
          InvalidLicense (Some \<lparr>CustomerID = 1, DivisionID = 2\<rparr>) ''customer_not_found'']"]
      metrics_run_counts [OF m, of show_nat show_nat "[FailedStreamChallenge 7 8, ClientStream None]"]
    by (auto simp: show_nat_utf8 utf8_valid_ascii simp del: manager_run.simps)
qed

definition metric_names :: "string set" where
  "metric_names =
     {''streams_total'', ''chaincode_actions'', ''chaincode_failed_stream_challenge_total'',
      ''invalid_license_total''}"

definition registry_law ::
  "(string \<Rightarrow> string list \<Rightarrow> 'r \<Rightarrow> 'r option) \<Rightarrow> ('r \<Rightarrow> string set) \<Rightarrow> bool" where
  "registry_law register names \<longleftrightarrow>
     (\<forall>n ls r. case register n ls r of
        None \<Rightarrow> n \<in> names r
      | Some r' \<Rightarrow> n \<notin> names r \<and> names r' = insert n (names r))"

lemma promauto_new_law:
  "registry_law register names \<Longrightarrow>
    promauto_new register n ls r =
      (if n \<in> names r then Panic (''register '' @ n)
       else Ret (\<lparr>Name = n, LabelNames = ls, Calls = []\<rparr>, the (register n ls r)))"
  unfolding registry_law_def promauto_new_def
  by (drule spec [of _ n], drule spec [of _ ls], drule spec [of _ r]) (auto split: option.splits)

lemma names_register:
  "registry_law register names \<Longrightarrow> n \<notin> names r \<Longrightarrow>
    names (the (register n ls r)) = insert n (names r)"
  unfolding registry_law_def
  by (drule spec [of _ n], drule spec [of _ ls], drule spec [of _ r]) (auto split: option.splits)

lemma NewMetricsManager_returns_iff:
  "registry_law register names \<Longrightarrow>
    (\<exists>m reg'. NewMetricsManager register reg = Ret (m, reg')) \<longleftrightarrow> names reg \<inter> metric_names = {}"
  by (auto simp: NewMetricsManager_def promauto_new_law names_register metric_names_def)

text \<open>
  \<open>NewMetricsManager\<close> makes a manager exactly if none of its four names is registered yet, and
  then registers them, so a second manager on the same registry panics.
\<close>

theorem NewMetricsManager_once:
  assumes "registry_law register names"
  shows "if names reg \<inter> metric_names = {}
    then \<exists>m reg' t. NewMetricsManager register reg = Ret (m, reg') \<and>
      names reg' = metric_names \<union> names reg \<and> NewMetricsManager register reg' = Panic t
    else \<exists>t. NewMetricsManager register reg = Panic t"
proof (cases "names reg \<inter> metric_names = {}")
  case True
  then show ?thesis
    by (simp add: NewMetricsManager_def promauto_new_law [OF assms] names_register [OF assms]
        metric_names_def) auto
next
  case False
  then show ?thesis
    by (auto simp: NewMetricsManager_def promauto_new_law [OF assms] names_register [OF assms]
        metric_names_def)
qed

lemma name_register_law: "registry_law name_register set"
  by (auto simp: registry_law_def name_register_def)

theorem NewMetricsManager_once_witness:
  "(\<exists>m reg' t. NewMetricsManager name_register [''go_goroutines''] = Ret (m, reg') \<and>
      set reg' = metric_names \<union> {''go_goroutines''} \<and> NewMetricsManager name_register reg' = Panic t) \<and>
   (\<exists>t. NewMetricsManager name_register [''streams_total''] = Panic t)"
  using NewMetricsManager_once [OF name_register_law, of "[''go_goroutines'']"]
    NewMetricsManager_once [OF name_register_law, of "[''streams_total'']"]
  by (simp add: metric_names_def)

end
