(* ===== verification/Chaincode.thy ===== *)
theory Chaincode
  imports Json Metrics
begin

section \<open>The chaincode (fabric-chaincode/internal/chaincode: chaincode.go, experiment.go)\<close>

text \<open>
  \<open>Invoke\<close> dispatches a transaction to \<open>pingChaincode\<close>, \<open>ExperimentWrite\<close> or \<open>ExperimentRead\<close>
  and records it with the metrics manager. The stub of the peer is a record of functions that
  change the world \<open>'w\<close>; a response is the call of the shim library that made it,
  \<open>shim.Success(nil)\<close> or \<open>shim.Error(text)\<close>, the text as an error. The manager is the argument
  \<open>record_action\<close> (Go holds it as the interface \<open>Manager\<close>), the time an invocation took is the
  argument \<open>elapsed\<close>, in nanoseconds, and the error of an unknown function, from a library, is
  the argument \<open>notFound\<close>. \<open>json.Marshal\<close> has no error for \<open>ExperimentData\<close>, so that branch is
  left out. What the peer does with the state is stated in \<open>ledger_laws\<close>.
\<close>

subsection \<open>Definitions\<close>

datatype Response = shim_Success "string option" | shim_Error goerr

fun status_ok :: "Response \<Rightarrow> bool" where
  "status_ok (shim_Success _) = True"
| "status_ok (shim_Error _) = False"

record 'w ChaincodeStub =
  GetFunctionAndParameters :: "string \<times> string list"
  PutState :: "string \<Rightarrow> string \<Rightarrow> 'w \<Rightarrow> goerr option \<times> 'w"
  GetState :: "string \<Rightarrow> 'w \<Rightarrow> string res \<times> 'w"

definition experimentKeyPrefix :: string where
  "experimentKeyPrefix = ''osuExperiment''"

definition parseExperimentWriteArgs :: "string list \<Rightarrow> (string \<times> go_int \<times> string) res" where
  "parseExperimentWriteArgs args =
     (if length args \<noteq> 3
      then Inl (Err (''invalid number of arguments: expected 3, got '' @ show_nat (length args)))
      else case Atoi (args ! 1) of
             Inl err \<Rightarrow> Inl err
           | Inr counter \<Rightarrow> Inr (args ! 0, counter, args ! 2))"

definition ExperimentWrite ::
  "'w ChaincodeStub \<Rightarrow> string list \<Rightarrow> 'w \<Rightarrow> Response \<times> 'w" where
  "ExperimentWrite stub args w =
     (case parseExperimentWriteArgs args of
        Inl err \<Rightarrow> (shim_Error (Wrap ''failed to parse ExperimentWrite args: '' err), w)
      | Inr (key, counter, data) \<Rightarrow>
          let key = experimentKeyPrefix @ key;
              experimentWriteJSON = marshal \<lparr>Data = Some data, Counter = counter\<rparr>
          in case PutState stub key experimentWriteJSON w of
               (Some err, w') \<Rightarrow>
                 (shim_Error (Wrap ''failed to put ExperimentData into ledger: '' err), w')
             | (None, w') \<Rightarrow> (shim_Success None, w'))"

definition parseExperimentReadArgs :: "string list \<Rightarrow> string res" where
  "parseExperimentReadArgs args =
     (if length args \<noteq> 1
      then Inl (Err (''invalid number of arguments: expected 1, got '' @ show_nat (length args)))
      else Inr (args ! 0))"

definition ExperimentRead ::
  "'w ChaincodeStub \<Rightarrow> string list \<Rightarrow> 'w \<Rightarrow> Response \<times> 'w" where
  "ExperimentRead stub args w =
     (case parseExperimentReadArgs args of
        Inl err \<Rightarrow> (shim_Error (Wrap ''failed to parse ExperimentRead args: '' err), w)
      | Inr key \<Rightarrow>
          case GetState stub (experimentKeyPrefix @ key) w of
            (Inl err, w') \<Rightarrow>
              (shim_Error (Wrap ''failed to read ExperimentData from ledger: '' err), w')
          | (Inr rawData, w') \<Rightarrow>
              (case unmarshal rawData of
                 Inl err \<Rightarrow> (shim_Error (Wrap ''failed to unmarshal ExperimentData: '' err), w')
               | Inr data \<Rightarrow> (shim_Success None, w')))"

definition Init :: "'w ChaincodeStub \<Rightarrow> 'w \<Rightarrow> Response \<times> 'w" where
  "Init stub w = (shim_Success None, w)"

definition pingChaincode :: "'w ChaincodeStub \<Rightarrow> string list \<Rightarrow> 'w \<Rightarrow> Response \<times> 'w" where
  "pingChaincode stub args w = (shim_Success None, w)"

text \<open>\<open>Chaincode\<close> holds the manager's state; \<open>NewChaincode\<close> stores it.\<close>

record 'm Chaincode =
  Metrics :: 'm

definition NewChaincode :: "'m \<Rightarrow> 'm Chaincode" where
  "NewChaincode metrics = \<lparr>Metrics = metrics\<rparr>"

definition Invoke ::
  "(ActionLabels option \<Rightarrow> 'm \<Rightarrow> 'm outcome) \<Rightarrow> goerr \<Rightarrow> nat \<Rightarrow> 'w ChaincodeStub \<Rightarrow>
   'm Chaincode \<Rightarrow> 'w \<Rightarrow> (Response \<times> 'm Chaincode) outcome \<times> 'w" where
  "Invoke record_action notFound elapsed stub cc w =
     (let (funcName, args) = GetFunctionAndParameters stub;
          result =
            (if funcName = ''pingChaincode'' then Some (pingChaincode stub args w)
             else if funcName = ''experimentWrite'' then Some (ExperimentWrite stub args w)
             else if funcName = ''experimentRead'' then Some (ExperimentRead stub args w)
             else None)
      in case result of
           None \<Rightarrow> (Ret (shim_Error notFound, cc), w)
         | Some (peerResponse, w') \<Rightarrow>
             (outcome_bind
                (record_action
                  (Some \<lparr>Action = funcName, Success = status_ok peerResponse,
                         ElapsedTimeSeconds = seconds elapsed\<rparr>)
                  (Metrics cc))
                (\<lambda>m. Ret (peerResponse, cc\<lparr>Metrics := m\<rparr>)), w'))"

subsection \<open>The operations on every branch\<close>

lemma length_3_iff: "length xs = 3 \<longleftrightarrow> (\<exists>a b c. xs = [a, b, c])"
  by (auto simp: numeral_3_eq_3 length_Suc_conv)

lemma parseExperimentWriteArgs_Inr_iff:
  "parseExperimentWriteArgs args = Inr (k, n, d) \<longleftrightarrow> (\<exists>t. args = [k, t, d] \<and> Atoi t = Inr n)"
proof (cases "length args = 3")
  case True
  then obtain a b c where "args = [a, b, c]" by (auto simp: length_3_iff)
  then show ?thesis by (auto simp: parseExperimentWriteArgs_def split: sum.splits)
qed (auto simp: parseExperimentWriteArgs_def)

lemma parseExperimentReadArgs_Inr_iff: "parseExperimentReadArgs args = Inr k \<longleftrightarrow> args = [k]"
  by (cases args) (auto simp: parseExperimentReadArgs_def)

lemma ExperimentWrite_parsed:
  "parseExperimentWriteArgs args = Inr (k, n, d) \<Longrightarrow>
    PutState stub (experimentKeyPrefix @ k) (marshal \<lparr>Data = Some d, Counter = n\<rparr>) w = (e, w') \<Longrightarrow>
    snd (ExperimentWrite stub args w) = w' \<and>
    (status_ok (fst (ExperimentWrite stub args w)) \<longleftrightarrow> e = None)"
  by (cases e) (simp_all add: ExperimentWrite_def Let_def)

lemma ExperimentWrite_unparsed:
  "parseExperimentWriteArgs args = Inl e \<Longrightarrow>
    ExperimentWrite stub args w = (shim_Error (Wrap ''failed to parse ExperimentWrite args: '' e), w)"
  by (simp add: ExperimentWrite_def)

lemma ExperimentWrite_ok_iff:
  "status_ok (fst (ExperimentWrite stub args w)) \<longleftrightarrow>
    (\<exists>k n d. parseExperimentWriteArgs args = Inr (k, n, d) \<and>
      fst (PutState stub (experimentKeyPrefix @ k) (marshal \<lparr>Data = Some d, Counter = n\<rparr>) w) = None)"
proof (cases "parseExperimentWriteArgs args")
  case (Inl e)
  then show ?thesis by (simp add: ExperimentWrite_unparsed)
next
  case (Inr p)
  obtain k n d where p: "p = (k, n, d)" by (cases p)
  obtain e w' where put:
    "PutState stub (experimentKeyPrefix @ k) (marshal \<lparr>Data = Some d, Counter = n\<rparr>) w = (e, w')"
    by fastforce
  show ?thesis using ExperimentWrite_parsed [OF Inr [unfolded p] put] put by (simp add: Inr p)
qed

lemma ExperimentWrite_put:
  assumes "status_ok (fst (ExperimentWrite stub args w))"
  obtains k n d where "parseExperimentWriteArgs args = Inr (k, n, d)"
    and "PutState stub (experimentKeyPrefix @ k) (marshal \<lparr>Data = Some d, Counter = n\<rparr>) w =
      (None, snd (ExperimentWrite stub args w))"
proof -
  obtain k n d where p: "parseExperimentWriteArgs args = Inr (k, n, d)"
    and "fst (PutState stub (experimentKeyPrefix @ k) (marshal \<lparr>Data = Some d, Counter = n\<rparr>) w) = None"
    using assms by (auto simp: ExperimentWrite_ok_iff)
  then obtain w' where put:
    "PutState stub (experimentKeyPrefix @ k) (marshal \<lparr>Data = Some d, Counter = n\<rparr>) w = (None, w')"
    by (cases "PutState stub (experimentKeyPrefix @ k) (marshal \<lparr>Data = Some d, Counter = n\<rparr>) w") auto
  then show ?thesis using ExperimentWrite_parsed [OF p put] that [OF p] by simp
qed

lemma ExperimentRead_unparsed:
  "parseExperimentReadArgs args = Inl e \<Longrightarrow>
    ExperimentRead stub args w = (shim_Error (Wrap ''failed to parse ExperimentRead args: '' e), w)"
  by (simp add: ExperimentRead_def)

lemma ExperimentRead_parsed:
  "snd (ExperimentRead stub [k] w) = snd (GetState stub (experimentKeyPrefix @ k) w)"
  "status_ok (fst (ExperimentRead stub [k] w)) \<longleftrightarrow>
    (\<exists>raw d. fst (GetState stub (experimentKeyPrefix @ k) w) = Inr raw \<and> unmarshal raw = Inr d)"
  by (auto simp: ExperimentRead_def parseExperimentReadArgs_def split: prod.splits sum.splits)

subsection \<open>The ledger\<close>

text \<open>
  What the documentation of the stub promises of a transaction on the world \<open>w\<close>, where \<open>state w\<close>
  is the committed value of every key (empty for a missing one): a write that succeeds takes
  effect for its key alone when the transaction is committed, a read changes nothing and gives
  the committed value, also of a key written before in the same transaction.
\<close>

definition ledger_laws ::
  "(string \<Rightarrow> string \<Rightarrow> 'w \<Rightarrow> goerr option \<times> 'w) \<Rightarrow> (string \<Rightarrow> 'w \<Rightarrow> string res \<times> 'w) \<Rightarrow>
   ('w \<Rightarrow> 'w) \<Rightarrow> ('w \<Rightarrow> string \<Rightarrow> string) \<Rightarrow> bool" where
  "ledger_laws put get commit state \<longleftrightarrow>
     (\<forall>k v w w'. put k v w = (None, w') \<longrightarrow> state (commit w') = (state (commit w))(k := v)) \<and>
     (\<forall>k w. state (commit (snd (get k w))) = state (commit w)) \<and>
     (\<forall>k w raw w'. get k w = (Inr raw, w') \<longrightarrow> raw = state w k) \<and>
     (\<forall>w. state (commit (commit w)) = state (commit w))"

text \<open>The experiments a state holds, and what a successful transaction does to them.\<close>

definition experiments :: "(string \<Rightarrow> string) \<Rightarrow> string \<Rightarrow> ExperimentData option" where
  "experiments s k =
     (case unmarshal (s (experimentKeyPrefix @ k)) of Inr d \<Rightarrow> Some d | Inl _ \<Rightarrow> None)"

definition spec_transaction ::
  "string \<Rightarrow> string list \<Rightarrow> (string \<Rightarrow> ExperimentData option) \<Rightarrow> string \<Rightarrow> ExperimentData option" where
  "spec_transaction f args L =
     (if f = ''experimentWrite'' then
        (case parseExperimentWriteArgs args of
           Inr (k, n, d) \<Rightarrow> L(k \<mapsto> \<lparr>Data = Some d, Counter = n\<rparr>)
         | Inl _ \<Rightarrow> L)
      else L)"

definition known_functions :: "string set" where
  "known_functions = {''pingChaincode'', ''experimentWrite'', ''experimentRead''}"

lemma known_functions_utf8: "f \<in> known_functions \<Longrightarrow> utf8_valid f"
  by (auto simp: known_functions_def intro!: utf8_valid_ascii)

lemma experiments_update:
  "experiments (s(experimentKeyPrefix @ k := marshal d)) = (experiments s)(k \<mapsto> d)"
  by (rule ext) (simp add: experiments_def unmarshal_marshal)

lemma ledger_put:
  "ledger_laws put get commit state \<Longrightarrow> put k v w = (None, w') \<Longrightarrow>
    state (commit w') = (state (commit w))(k := v)"
  by (simp add: ledger_laws_def)

lemma ledger_get:
  "ledger_laws put get commit state \<Longrightarrow> state (commit (snd (get k w))) = state (commit w)"
  by (simp add: ledger_laws_def)

lemma ledger_get_value:
  "ledger_laws put get commit state \<Longrightarrow> fst (get k w) = Inr raw \<Longrightarrow> raw = state w k"
  by (cases "get k w") (auto simp: ledger_laws_def)

lemma ExperimentWrite_refines:
  assumes "ledger_laws (PutState stub) (GetState stub) commit state"
    and "status_ok (fst (ExperimentWrite stub args w))"
  shows "experiments (state (commit (snd (ExperimentWrite stub args w)))) =
    spec_transaction ''experimentWrite'' args (experiments (state (commit w)))"
  using assms(2)
  by (rule ExperimentWrite_put)
    (simp add: ledger_put [OF assms(1)] experiments_update spec_transaction_def)

lemma ExperimentRead_refines:
  assumes "ledger_laws (PutState stub) (GetState stub) commit state"
  shows "state (commit (snd (ExperimentRead stub args w))) = state (commit w)"
    and "status_ok (fst (ExperimentRead stub args w)) \<Longrightarrow>
      \<exists>k. args = [k] \<and> experiments (state w) k \<noteq> None"
proof -
  show "state (commit (snd (ExperimentRead stub args w))) = state (commit w)"
  proof (cases "parseExperimentReadArgs args")
    case (Inl e)
    then show ?thesis by (simp add: ExperimentRead_unparsed)
  next
    case (Inr k)
    then show ?thesis
      using ledger_get [OF assms] by (simp add: parseExperimentReadArgs_Inr_iff ExperimentRead_parsed)
  qed
  assume ok: "status_ok (fst (ExperimentRead stub args w))"
  then obtain k where k: "args = [k]"
    by (cases "parseExperimentReadArgs args")
      (auto simp: ExperimentRead_unparsed parseExperimentReadArgs_Inr_iff)
  with ok show "\<exists>k. args = [k] \<and> experiments (state w) k \<noteq> None"
    using ledger_get_value [OF assms] by (force simp: ExperimentRead_parsed experiments_def)
qed

subsection \<open>Invoke, with any manager\<close>

text \<open>What the dispatched function answers, before it is recorded.\<close>

definition answer :: "'w ChaincodeStub \<Rightarrow> 'w \<Rightarrow> Response \<times> 'w" where
  "answer stub w =
     (case GetFunctionAndParameters stub of (f, args) \<Rightarrow>
        if f = ''experimentWrite'' then ExperimentWrite stub args w
        else if f = ''experimentRead'' then ExperimentRead stub args w
        else (shim_Success None, w))"

lemma Invoke_unknown:
  "fst (GetFunctionAndParameters stub) \<notin> known_functions \<Longrightarrow>
    Invoke rec notFound elapsed stub cc w = (Ret (shim_Error notFound, cc), w)"
  by (cases "GetFunctionAndParameters stub") (simp add: Invoke_def known_functions_def)

lemma Invoke_known:
  "fst (GetFunctionAndParameters stub) \<in> known_functions \<Longrightarrow>
    Invoke rec notFound elapsed stub cc w =
      (outcome_bind
         (rec (Some \<lparr>Action = fst (GetFunctionAndParameters stub),
                     Success = status_ok (fst (answer stub w)), ElapsedTimeSeconds = seconds elapsed\<rparr>)
           (Metrics cc))
         (\<lambda>m. Ret (fst (answer stub w), cc\<lparr>Metrics := m\<rparr>)), snd (answer stub w))"
  by (cases "GetFunctionAndParameters stub")
    (auto simp: Invoke_def known_functions_def answer_def pingChaincode_def split: prod.splits)

lemma answer_refines:
  assumes "ledger_laws (PutState stub) (GetState stub) commit state"
    and "GetFunctionAndParameters stub = (f, args)" and "status_ok (fst (answer stub w))"
  shows "experiments (state (commit (snd (answer stub w)))) =
    spec_transaction f args (experiments (state (commit w)))"
proof (cases "f = ''experimentWrite''")
  case True
  then show ?thesis using assms ExperimentWrite_refines [OF assms(1)] by (simp add: answer_def)
next
  case False
  then show ?thesis
    using assms(2) ExperimentRead_refines(1) [OF assms(1)] by (simp add: answer_def spec_transaction_def)
qed

text \<open>
  A channel takes transactions one after the other: the response decides whether the writes are
  committed or dropped. \<open>Fatal\<close> and \<open>Panic\<close> end the chaincode process.
\<close>

type_synonym transaction = "string \<times> string list \<times> nat"

definition submit ::
  "(ActionLabels option \<Rightarrow> 'm \<Rightarrow> 'm outcome) \<Rightarrow> goerr \<Rightarrow> ('w \<Rightarrow> 'w) \<Rightarrow> 'w ChaincodeStub \<Rightarrow>
   transaction \<Rightarrow> 'm Chaincode \<Rightarrow> 'w \<Rightarrow> (Response \<times> 'm Chaincode \<times> 'w) outcome" where
  "submit record_action notFound commit stub t cc w =
     (case t of (f, args, elapsed) \<Rightarrow>
        case Invoke record_action notFound elapsed (stub\<lparr>GetFunctionAndParameters := (f, args)\<rparr>) cc w of
          (res, w') \<Rightarrow>
            outcome_bind res (\<lambda>(r, cc'). Ret (r, cc', if status_ok r then commit w' else w)))"

fun submit_all ::
  "(ActionLabels option \<Rightarrow> 'm \<Rightarrow> 'm outcome) \<Rightarrow> goerr \<Rightarrow> ('w \<Rightarrow> 'w) \<Rightarrow> 'w ChaincodeStub \<Rightarrow>
   transaction list \<Rightarrow> 'm Chaincode \<Rightarrow> 'w \<Rightarrow> (Response list \<times> 'm Chaincode \<times> 'w) outcome" where
  "submit_all record_action notFound commit stub [] cc w = Ret ([], cc, w)"
| "submit_all record_action notFound commit stub (t # ts) cc w =
     outcome_bind (submit record_action notFound commit stub t cc w) (\<lambda>(r, cc', w').
     outcome_bind (submit_all record_action notFound commit stub ts cc' w') (\<lambda>(rs, cc'', w'').
     Ret (r # rs, cc'', w'')))"

text \<open>The abstract history: the experiments after the transactions that succeeded.\<close>

fun spec_history ::
  "(transaction \<times> Response) list \<Rightarrow> (string \<Rightarrow> ExperimentData option) \<Rightarrow>
   string \<Rightarrow> ExperimentData option" where
  "spec_history [] L = L"
| "spec_history (((f, args, _), r) # h) L =
     spec_history h (if status_ok r then spec_transaction f args L else L)"

text \<open>A response is one the abstract state allows.\<close>

definition allowed :: "string \<Rightarrow> string list \<Rightarrow> (string \<Rightarrow> ExperimentData option) \<Rightarrow> bool" where
  "allowed f args L \<longleftrightarrow>
     f = ''pingChaincode'' \<or>
     (f = ''experimentWrite'' \<and> (\<exists>p. parseExperimentWriteArgs args = Inr p)) \<or>
     (f = ''experimentRead'' \<and> (\<exists>k. args = [k] \<and> L k \<noteq> None))"

fun history_allowed ::
  "(transaction \<times> Response) list \<Rightarrow> (string \<Rightarrow> ExperimentData option) \<Rightarrow> bool" where
  "history_allowed [] L \<longleftrightarrow> True"
| "history_allowed (((f, args, _), r) # h) L \<longleftrightarrow>
     (status_ok r \<longrightarrow> allowed f args L) \<and>
     history_allowed h (if status_ok r then spec_transaction f args L else L)"

definition recorded_of :: "(transaction \<times> Response) list \<Rightarrow> (string \<times> bool) list" where
  "recorded_of h =
     map (\<lambda>((f, _), r). (f, status_ok r)) (filter (\<lambda>((f, _), r). f \<in> known_functions) h)"

lemma recorded_of_Cons:
  "recorded_of (((f, a), r) # h) = (if f \<in> known_functions then [(f, status_ok r)] else []) @ recorded_of h"
  by (simp add: recorded_of_def)

lemma answer_allowed:
  assumes "ledger_laws (PutState stub) (GetState stub) commit state"
    and "GetFunctionAndParameters stub = (f, args)" and "f \<in> known_functions"
    and "status_ok (fst (answer stub w))"
  shows "allowed f args (experiments (state w))"
proof -
  consider "f = ''pingChaincode''" | "f = ''experimentWrite''" | "f = ''experimentRead''"
    using assms(3) by (auto simp: known_functions_def)
  then show ?thesis
  proof cases
    case 1
    then show ?thesis by (simp add: allowed_def)
  next
    case 2
    with assms(2,4) have "status_ok (fst (ExperimentWrite stub args w))" by (simp add: answer_def)
    with 2 show ?thesis by (auto simp: allowed_def ExperimentWrite_ok_iff)
  next
    case 3
    with assms(2,4) have "status_ok (fst (ExperimentRead stub args w))" by (simp add: answer_def)
    with 3 show ?thesis
      using ExperimentRead_refines(2) [OF assms(1)] by (simp add: allowed_def)
  qed
qed

definition committed :: "('w \<Rightarrow> 'w) \<Rightarrow> ('w \<Rightarrow> string \<Rightarrow> string) \<Rightarrow> 'w \<Rightarrow> bool" where
  "committed commit state w \<longleftrightarrow> state (commit w) = state w"

lemma committed_commit: "ledger_laws put get commit state \<Longrightarrow> committed commit state (commit w)"
  by (simp add: ledger_laws_def committed_def)

context metrics_manager begin

lemma Invoke_returns:
  assumes "good (Metrics cc)" and f: "GetFunctionAndParameters stub = (f, args)"
  shows "\<exists>r cc'. Invoke record_action notFound elapsed stub cc w =
      (Ret (r, cc'), if f \<in> known_functions then snd (answer stub w) else w) \<and>
    good (Metrics cc') \<and>
    (if f \<in> known_functions
     then r = fst (answer stub w) \<and> actions (Metrics cc') = actions (Metrics cc) @ [(f, status_ok r)]
     else r = shim_Error notFound \<and> cc' = cc)"
proof (cases "f \<in> known_functions")
  case True
  let ?l = "\<lparr>Action = f, Success = status_ok (fst (answer stub w)), ElapsedTimeSeconds = seconds elapsed\<rparr>"
  have "utf8_valid (Action ?l)" using known_functions_utf8 [OF True] by simp
  then obtain m' where "record_action (Some ?l) (Metrics cc) = Ret m'" "good m'"
    "actions m' = actions (Metrics cc) @ [(Action ?l, Success ?l)]"
    by (rule record_obtain [OF assms(1)])
  with True f show ?thesis by (simp add: Invoke_known)
next
  case False
  with assms show ?thesis by (simp add: Invoke_unknown)
qed

lemma submit_step:
  assumes laws: "ledger_laws (PutState stub) (GetState stub) commit state"
    and "good (Metrics cc)" and "committed commit state w"
  shows "\<exists>r cc' w'. submit record_action notFound commit stub (f, args, elapsed) cc w = Ret (r, cc', w') \<and>
    good (Metrics cc') \<and> committed commit state w' \<and>
    (status_ok r \<longrightarrow> allowed f args (experiments (state w))) \<and>
    experiments (state w') =
      (if status_ok r then spec_transaction f args (experiments (state w)) else experiments (state w)) \<and>
    actions (Metrics cc') = actions (Metrics cc) @ recorded_of [((f, args, elapsed), r)]"
proof -
  let ?stub = "stub\<lparr>GetFunctionAndParameters := (f, args)\<rparr>"
  have laws': "ledger_laws (PutState ?stub) (GetState ?stub) commit state" using laws by simp
  have f: "GetFunctionAndParameters ?stub = (f, args)" by simp
  obtain r cc' where inv: "Invoke record_action notFound elapsed ?stub cc w =
      (Ret (r, cc'), if f \<in> known_functions then snd (answer ?stub w) else w)"
    and cc': "good (Metrics cc')"
    and r: "if f \<in> known_functions
      then r = fst (answer ?stub w) \<and> actions (Metrics cc') = actions (Metrics cc) @ [(f, status_ok r)]
      else r = shim_Error notFound \<and> cc' = cc"
    using Invoke_returns [OF assms(2) f, of notFound elapsed w] by blast
  show ?thesis
  proof (cases "f \<in> known_functions \<and> status_ok r")
    case True
    with r have "status_ok (fst (answer ?stub w))" by simp
    with True r inv cc' assms(3) show ?thesis
      using answer_refines [OF laws' f] answer_allowed [OF laws' f] committed_commit [OF laws]
      by (simp add: submit_def committed_def recorded_of_def)
  next
    case False
    with r inv cc' assms(3) show ?thesis
      by (auto simp: submit_def recorded_of_def split: if_splits)
  qed
qed

lemma submit_all_history:
  assumes laws: "ledger_laws (PutState stub) (GetState stub) commit state"
  shows "good (Metrics cc) \<Longrightarrow> committed commit state w \<Longrightarrow>
    \<exists>rs cc' w'. submit_all record_action notFound commit stub ts cc w = Ret (rs, cc', w') \<and>
      length rs = length ts \<and> good (Metrics cc') \<and>
      history_allowed (zip ts rs) (experiments (state w)) \<and>
      experiments (state w') = spec_history (zip ts rs) (experiments (state w)) \<and>
      actions (Metrics cc') = actions (Metrics cc) @ recorded_of (zip ts rs)"
proof (induction ts arbitrary: cc w)
  case (Cons t ts)
  obtain f args elapsed where t: "t = (f, args, elapsed)" by (cases t)
  obtain r cc1 w1 where 1: "submit record_action notFound commit stub t cc w = Ret (r, cc1, w1)"
    "good (Metrics cc1)" "committed commit state w1"
    "status_ok r \<longrightarrow> allowed f args (experiments (state w))"
    "experiments (state w1) =
      (if status_ok r then spec_transaction f args (experiments (state w)) else experiments (state w))"
    "actions (Metrics cc1) = actions (Metrics cc) @ recorded_of [(t, r)]"
    using submit_step [OF laws Cons.prems, of notFound f args elapsed] t by auto
  obtain rs cc' w' where
    "submit_all record_action notFound commit stub ts cc1 w1 = Ret (rs, cc', w')"
    "length rs = length ts" "good (Metrics cc')" "history_allowed (zip ts rs) (experiments (state w1))"
    "experiments (state w') = spec_history (zip ts rs) (experiments (state w1))"
    "actions (Metrics cc') = actions (Metrics cc1) @ recorded_of (zip ts rs)"
    using Cons.IH [OF 1(2,3)] by blast
  with 1 t show ?case by (simp add: recorded_of_Cons [of f] recorded_of_def [of "[]"])
qed (simp add: recorded_of_def)

end

subsection \<open>Properties\<close>

text \<open>The ledger the witnesses use: the committed values, and those the next commit makes.\<close>

type_synonym demo_ledger = "(string \<Rightarrow> string) \<times> (string \<Rightarrow> string)"

definition demo_put :: "string \<Rightarrow> string \<Rightarrow> demo_ledger \<Rightarrow> goerr option \<times> demo_ledger" where
  "demo_put k v w = (None, fst w, (snd w)(k := v))"

definition demo_get :: "string \<Rightarrow> demo_ledger \<Rightarrow> string res \<times> demo_ledger" where
  "demo_get k w = (Inr (fst w k), w)"

definition demo_commit :: "demo_ledger \<Rightarrow> demo_ledger" where
  "demo_commit w = (snd w, snd w)"

definition demo_stub :: "string \<Rightarrow> string list \<Rightarrow> demo_ledger ChaincodeStub" where
  "demo_stub f args = \<lparr>GetFunctionAndParameters = (f, args), PutState = demo_put, GetState = demo_get\<rparr>"

definition demo_manager :: metricsContainer where
  "demo_manager = (case NewMetricsManager name_register [] of Ret (m, _) \<Rightarrow> m)"

lemma demo_laws:
  "ledger_laws (PutState (demo_stub f args)) (GetState (demo_stub f args)) demo_commit fst"
  by (simp add: ledger_laws_def demo_stub_def demo_put_def demo_get_def demo_commit_def)

lemma demo_manager_wf: "wf_metrics demo_manager"
  by (simp add: demo_manager_def NewMetricsManager_def promauto_new_def name_register_def wf_metrics_def)

lemma Atoi_show_nat: "n < 2 ^ 63 \<Longrightarrow> Atoi (show_nat n) = Inr (of_nat n)"
  using parse_int_show_int [of "int n"] by (simp add: Atoi_def show_int_def)

text \<open>
  C7: any sequence of transactions, with any functions and arguments, leaves the chaincode
  running and answers each one; the experiments on the ledger are then those of the abstract
  history, in which a successful \<open>experimentWrite\<close> stores its data and counter under its key and
  nothing else changes anything; an \<open>experimentRead\<close> succeeds only for a key that holds an
  experiment then; and the metrics hold one entry for every call of a known function, with its
  outcome, in order.
\<close>

theorem chaincode_history:
  assumes "ledger_laws (PutState stub) (GetState stub) commit state" and "committed commit state w"
    and "wf_metrics (Metrics cc)"
  shows "\<exists>rs cc' w'.
    submit_all RecordChaincodeActionInvocation notFound commit stub ts cc w = Ret (rs, cc', w') \<and>
    length rs = length ts \<and> wf_metrics (Metrics cc') \<and>
    history_allowed (zip ts rs) (experiments (state w)) \<and>
    experiments (state w') = spec_history (zip ts rs) (experiments (state w)) \<and>
    recorded_actions (Metrics cc') = recorded_actions (Metrics cc) @ recorded_of (zip ts rs)"
  by (rule prometheus.submit_all_history [OF assms(1,3,2)])

theorem chaincode_history_witness:
  "\<exists>rs cc' w'.
    submit_all RecordChaincodeActionInvocation (Err ''not found'') demo_commit (demo_stub [] [])
      [(''experimentWrite'', [''a'', ''7'', ''xyz''], 1500), (''experimentRead'', [''a''], 900),
       (''experimentRead'', [''b''], 5), (''nothing'', [], 1)]
      (NewChaincode demo_manager) (\<lambda>_. [], \<lambda>_. []) = Ret (rs, cc', w') \<and> length rs = 4"
  using chaincode_history [OF demo_laws [of "[]" "[]"], of "(\<lambda>_. [], \<lambda>_. [])" "NewChaincode demo_manager"
      "Err ''not found''"
      "[(''experimentWrite'', [''a'', ''7'', ''xyz''], 1500), (''experimentRead'', [''a''], 900),
        (''experimentRead'', [''b''], 5), (''nothing'', [], 1)]"]
  by (auto simp: committed_def demo_commit_def NewChaincode_def demo_manager_wf simp del: submit_all.simps)

lemma Invoke_write:
  assumes "wf_metrics (Metrics cc)" and f: "GetFunctionAndParameters stub = (''experimentWrite'', [k, t, d])"
    and n: "Atoi t = Inr n"
    and put: "PutState stub (experimentKeyPrefix @ k) (marshal \<lparr>Data = Some d, Counter = n\<rparr>) w = (None, w')"
  shows "\<exists>cc'. Invoke RecordChaincodeActionInvocation notFound elapsed stub cc w =
    (Ret (shim_Success None, cc'), w') \<and> wf_metrics (Metrics cc')"
proof -
  have "parseExperimentWriteArgs [k, t, d] = Inr (k, n, d)" by (simp add: parseExperimentWriteArgs_Inr_iff n)
  then have "answer stub w = (shim_Success None, w')"
    using put f by (simp add: answer_def ExperimentWrite_def)
  then show ?thesis
    using prometheus.Invoke_returns [OF assms(1) f, of notFound elapsed w]
    by (auto simp: known_functions_def)
qed

lemma Invoke_read:
  assumes "wf_metrics (Metrics cc)" and f: "GetFunctionAndParameters stub = (''experimentRead'', [k])"
    and get: "GetState stub (experimentKeyPrefix @ k) w = (Inr raw, w')" and "unmarshal raw = Inr d"
  shows "\<exists>cc'. Invoke RecordChaincodeActionInvocation notFound elapsed stub cc w =
    (Ret (shim_Success None, cc'), w')"
proof -
  have "answer stub w = (shim_Success None, w')"
    using assms by (simp add: answer_def ExperimentRead_def parseExperimentReadArgs_def)
  then show ?thesis
    using prometheus.Invoke_returns [OF assms(1) f, of notFound elapsed w]
    by (auto simp: known_functions_def)
qed

text \<open>
  C22: an \<open>experimentWrite\<close> with a key, a decimal counter and a blob whose \<open>PutState\<close> succeeds
  is answered with success, and after its commit an \<open>experimentRead\<close> of the key that gets a
  value from the ledger is answered with success, the stored value decoding to that counter and
  blob.
\<close>

theorem write_then_read:
  assumes laws: "ledger_laws (PutState stub) (GetState stub) commit state" and m: "wf_metrics (Metrics cc)"
    and n: "Atoi t = Inr n"
    and put: "PutState stub (experimentKeyPrefix @ k) (marshal \<lparr>Data = Some d, Counter = n\<rparr>) w = (None, w1)"
    and get: "GetState stub (experimentKeyPrefix @ k) (commit w1) = (Inr raw, w2)"
  shows "\<exists>cc1 cc2.
    Invoke RecordChaincodeActionInvocation notFound e1
      (stub\<lparr>GetFunctionAndParameters := (''experimentWrite'', [k, t, d])\<rparr>) cc w =
      (Ret (shim_Success None, cc1), w1) \<and>
    Invoke RecordChaincodeActionInvocation notFound e2
      (stub\<lparr>GetFunctionAndParameters := (''experimentRead'', [k])\<rparr>) cc1 (commit w1) =
      (Ret (shim_Success None, cc2), w2) \<and>
    unmarshal raw = Inr \<lparr>Data = Some d, Counter = n\<rparr>"
proof -
  have raw: "raw = marshal \<lparr>Data = Some d, Counter = n\<rparr>"
    using ledger_get_value [OF laws, of "experimentKeyPrefix @ k" "commit w1" raw] get
      ledger_put [OF laws put] by simp
  then have u: "unmarshal raw = Inr \<lparr>Data = Some d, Counter = n\<rparr>" by (simp add: unmarshal_marshal)
  obtain cc1 where 1: "Invoke RecordChaincodeActionInvocation notFound e1
      (stub\<lparr>GetFunctionAndParameters := (''experimentWrite'', [k, t, d])\<rparr>) cc w =
      (Ret (shim_Success None, cc1), w1)" "wf_metrics (Metrics cc1)"
    using Invoke_write [OF m _ n, of "stub\<lparr>GetFunctionAndParameters := (''experimentWrite'', [k, t, d])\<rparr>" k d w w1
        notFound e1] put by auto
  then show ?thesis
    using Invoke_read [OF 1(2), of "stub\<lparr>GetFunctionAndParameters := (''experimentRead'', [k])\<rparr>" k "commit w1"
        raw w2 _ notFound e2] get u by auto
qed

theorem write_then_read_witness:
  "\<exists>w1 w2 raw cc1 cc2.
    Invoke RecordChaincodeActionInvocation (Err []) 10
      ((demo_stub [] [])\<lparr>GetFunctionAndParameters := (''experimentWrite'', [''k'', show_nat 12, ''blob''])\<rparr>)
      (NewChaincode demo_manager) (\<lambda>_. [], \<lambda>_. []) = (Ret (shim_Success None, cc1), w1) \<and>
    Invoke RecordChaincodeActionInvocation (Err []) 20
      ((demo_stub [] [])\<lparr>GetFunctionAndParameters := (''experimentRead'', [''k''])\<rparr>) cc1 (demo_commit w1) =
      (Ret (shim_Success None, cc2), w2) \<and>
    unmarshal raw = Inr \<lparr>Data = Some ''blob'', Counter = 12\<rparr>"
proof -
  let ?put = "PutState (demo_stub [] [])" and ?get = "GetState (demo_stub [] [])"
  let ?w = "(\<lambda>_. [], \<lambda>_. []) :: demo_ledger"
  have n: "Atoi (show_nat 12) = Inr 12" using Atoi_show_nat [of 12] by simp
  obtain w1 where put: "?put (experimentKeyPrefix @ ''k'') (marshal \<lparr>Data = Some ''blob'', Counter = 12\<rparr>) ?w
      = (None, w1)"
    by (simp add: demo_stub_def demo_put_def)
  obtain raw where get: "?get (experimentKeyPrefix @ ''k'') (demo_commit w1) = (Inr raw, demo_commit w1)"
    by (simp add: demo_stub_def demo_get_def)
  have m: "wf_metrics (Metrics (NewChaincode demo_manager))" by (simp add: NewChaincode_def demo_manager_wf)
  show ?thesis
    using write_then_read [OF demo_laws m n put get, of "Err []" 10 20] by blast
qed

lemma Atoi_Inr_word_iff:
  "Atoi t = Inr n \<longleftrightarrow> int_text_ok t \<and> - (2 ^ 63) \<le> int_text_val t \<and> int_text_val t < 2 ^ 63 \<and>
    n = word_of_int (int_text_val t)"
proof
  assume "Atoi t = Inr n"
  then have "int_text_ok t" "sint n = int_text_val t" by (simp_all add: Atoi_Inr_iff)
  then show "int_text_ok t \<and> - (2 ^ 63) \<le> int_text_val t \<and> int_text_val t < 2 ^ 63 \<and>
      n = word_of_int (int_text_val t)"
    using sint_range64 [of n] by (simp flip: \<open>sint n = int_text_val t\<close>)
next
  assume "int_text_ok t \<and> - (2 ^ 63) \<le> int_text_val t \<and> int_text_val t < 2 ^ 63 \<and>
    n = word_of_int (int_text_val t)"
  then show "Atoi t = Inr n" by (auto simp: Atoi_Inr_iff sint_of_int64)
qed

text \<open>
  C31: \<open>ExperimentWrite\<close> succeeds exactly for three arguments of which the second is a decimal
  integer in the range of \<open>int\<close> and a \<open>PutState\<close> that succeeds, under the prefixed key with the
  JSON text of the experiment; without such arguments it does not touch the ledger.
\<close>

theorem ExperimentWrite_accepts:
  "(status_ok (fst (ExperimentWrite stub args w)) \<longleftrightarrow>
     (\<exists>k t d. args = [k, t, d] \<and> int_text_ok t \<and>
       - (2 ^ 63) \<le> int_text_val t \<and> int_text_val t < 2 ^ 63 \<and>
       fst (PutState stub (''osuExperiment'' @ k)
         (marshal \<lparr>Data = Some d, Counter = word_of_int (int_text_val t)\<rparr>) w) = None)) \<and>
   ((\<exists>k t d. args = [k, t, d] \<and> int_text_ok t \<and>
       - (2 ^ 63) \<le> int_text_val t \<and> int_text_val t < 2 ^ 63) \<or>
     snd (ExperimentWrite stub args w) = w)"
proof (intro conjI)
  show "status_ok (fst (ExperimentWrite stub args w)) \<longleftrightarrow>
     (\<exists>k t d. args = [k, t, d] \<and> int_text_ok t \<and>
       - (2 ^ 63) \<le> int_text_val t \<and> int_text_val t < 2 ^ 63 \<and>
       fst (PutState stub (''osuExperiment'' @ k)
         (marshal \<lparr>Data = Some d, Counter = word_of_int (int_text_val t)\<rparr>) w) = None)"
    unfolding ExperimentWrite_ok_iff parseExperimentWriteArgs_Inr_iff Atoi_Inr_word_iff
      experimentKeyPrefix_def by blast
  show "(\<exists>k t d. args = [k, t, d] \<and> int_text_ok t \<and>
       - (2 ^ 63) \<le> int_text_val t \<and> int_text_val t < 2 ^ 63) \<or>
     snd (ExperimentWrite stub args w) = w"
  proof (cases "parseExperimentWriteArgs args")
    case (Inl e)
    then show ?thesis by (simp add: ExperimentWrite_unparsed)
  next
    case (Inr p)
    then show ?thesis
      using parseExperimentWriteArgs_Inr_iff [of args "fst p" "fst (snd p)" "snd (snd p)"] Atoi_Inr_word_iff
      by auto
  qed
qed

text \<open>
  C35: a call of \<open>Invoke\<close> that is answered with success, and then committed, changes no key of
  the ledger outside the prefix \<open>osuExperiment\<close>, and no key at all unless it is an
  \<open>experimentWrite\<close>.
\<close>

theorem Invoke_prefix_only:
  assumes "ledger_laws (PutState stub) (GetState stub) commit state" and "wf_metrics (Metrics cc)"
    and "Invoke RecordChaincodeActionInvocation notFound elapsed stub cc w = (Ret (r, cc'), w')"
    and "status_ok r"
    and "take 13 x \<noteq> ''osuExperiment'' \<or> fst (GetFunctionAndParameters stub) \<noteq> ''experimentWrite''"
  shows "state (commit w') x = state (commit w) x"
proof -
  obtain f args where f: "GetFunctionAndParameters stub = (f, args)" by fastforce
  have "f \<in> known_functions" "r = fst (answer stub w)" "w' = snd (answer stub w)"
    using prometheus.Invoke_returns [OF assms(2) f, of notFound elapsed w] assms(3,4)
    by (auto split: if_splits)
  show ?thesis
  proof (cases "f = ''experimentWrite''")
    case True
    then have "status_ok (fst (ExperimentWrite stub args w))"
      using assms(4) f \<open>r = _\<close> by (simp add: answer_def)
    then obtain k n d where put:
      "PutState stub (experimentKeyPrefix @ k) (marshal \<lparr>Data = Some d, Counter = n\<rparr>) w = (None, w')"
      using True f \<open>w' = _\<close> by (auto simp: answer_def elim: ExperimentWrite_put)
    have "x \<noteq> experimentKeyPrefix @ k"
      using assms(5) f True by (auto simp: experimentKeyPrefix_def)
    then show ?thesis using ledger_put [OF assms(1) put] by simp
  next
    case False
    then show ?thesis
      using f \<open>w' = _\<close> ExperimentRead_refines(1) [OF assms(1)] by (simp add: answer_def)
  qed
qed

theorem Invoke_prefix_only_witness:
  "\<exists>cc' w'. Invoke RecordChaincodeActionInvocation (Err []) 10
      (demo_stub ''experimentWrite'' [''k'', show_nat 12, ''blob'']) (NewChaincode demo_manager)
      (\<lambda>_. ''old'', \<lambda>_. ''old'') = (Ret (shim_Success None, cc'), w') \<and>
    fst (demo_commit w') ''other'' = ''old''"
proof -
  let ?stub = "demo_stub ''experimentWrite'' [''k'', show_nat 12, ''blob'']"
  let ?w = "(\<lambda>_. ''old'', \<lambda>_. ''old'') :: demo_ledger"
  have m: "wf_metrics (Metrics (NewChaincode demo_manager))" by (simp add: NewChaincode_def demo_manager_wf)
  have n: "Atoi (show_nat 12) = Inr 12" using Atoi_show_nat [of 12] by simp
  obtain w' where "PutState ?stub (experimentKeyPrefix @ ''k'') (marshal \<lparr>Data = Some ''blob'', Counter = 12\<rparr>) ?w
      = (None, w')"
    by (simp add: demo_stub_def demo_put_def)
  then obtain cc' where inv: "Invoke RecordChaincodeActionInvocation (Err []) 10 ?stub (NewChaincode demo_manager)
      ?w = (Ret (shim_Success None, cc'), w')"
    using Invoke_write [OF m _ n, of ?stub "''k''" "''blob''" ?w w' "Err []" 10] by (auto simp: demo_stub_def)
  then show ?thesis
    using Invoke_prefix_only [OF demo_laws m inv, of "''other''"] by (auto simp: demo_commit_def)
qed

text \<open>
  C32: a read of a key that the ledger does not hold (the peer gives an empty value and no
  error) is answered with an error, counted as a failed invocation; it writes nothing.
\<close>

theorem read_missing_key:
  assumes "wf_metrics (Metrics cc)" and "GetFunctionAndParameters stub = (''experimentRead'', [k])"
    and "GetState stub (''osuExperiment'' @ k) w = (Inr [], w')"
  shows "\<exists>cc'. Invoke RecordChaincodeActionInvocation notFound elapsed stub cc w =
      (Ret (shim_Error (Wrap ''failed to unmarshal ExperimentData: '' JsonSyntaxError), cc'), w') \<and>
    recorded_actions (Metrics cc') = recorded_actions (Metrics cc) @ [(''experimentRead'', False)]"
proof -
  have "answer stub w = (shim_Error (Wrap ''failed to unmarshal ExperimentData: '' JsonSyntaxError), w')"
    using assms(2,3)
    by (simp add: answer_def ExperimentRead_def parseExperimentReadArgs_def experimentKeyPrefix_def unmarshal_empty)
  then show ?thesis
    using prometheus.Invoke_returns [OF assms(1,2), of notFound elapsed w]
    by (auto simp: known_functions_def)
qed

theorem read_missing_key_witness:
  "\<exists>cc'. Invoke RecordChaincodeActionInvocation (Err []) 5 (demo_stub ''experimentRead'' [''none''])
      (NewChaincode demo_manager) (\<lambda>_. [], \<lambda>_. []) =
      (Ret (shim_Error (Wrap ''failed to unmarshal ExperimentData: '' JsonSyntaxError), cc'), (\<lambda>_. [], \<lambda>_. [])) \<and>
    recorded_actions (Metrics cc') = recorded_actions demo_manager @ [(''experimentRead'', False)]"
  using read_missing_key [of "NewChaincode demo_manager" "demo_stub ''experimentRead'' [''none'']" "''none''"
      "(\<lambda>_. [], \<lambda>_. [])" "(\<lambda>_. [], \<lambda>_. [])" "Err []" 5]
  by (simp add: NewChaincode_def demo_manager_wf demo_stub_def demo_get_def)

end
