(* ===== verification/Config.thy ===== *)
theory Config
  imports Prelude
begin

section \<open>Configuration (config/config.go, config/loader.go)\<close>

text \<open>
  The configuration records of \<open>config.go\<close>, embedded the way the source embeds them
  (\<open>WorkerConfig\<close> extends \<open>BenchConfig\<close>, which extends \<open>InfluxConfig\<close>), the function types of a
  chaincode operation, and \<open>LoadConfig\<close>. \<open>'c\<close> is the operation configuration (\<open>OperationConfig\<close>,
  an \<open>any\<close> in Go) and \<open>'w\<close> the outside world, which an operation reads and changes. Reading the
  environment, reading a file and YAML decoding are arguments.
\<close>

record InfluxConfig =
  Url :: string
  Bucket :: string

record BenchConfig = InfluxConfig +
  OperationType :: string
  BrokerURL :: string
  OperationPeriod :: go_int
  OperationsPerStream :: uint32
  NumWorkers :: uint32

text \<open>
  An operation returns its error, if any; it may also end the process or panic, and it changes
  the configuration it is called with (in Go through a pointer).
\<close>

type_synonym ('c, 'w) ChaincodeOperation =
  "'c \<Rightarrow> 'w \<Rightarrow> goerr option outcome \<times> 'c \<times> 'w"

type_synonym ('c, 'w) InitializeWorker =
  "string \<Rightarrow> 'c \<Rightarrow> 'w \<Rightarrow> (string \<times> goerr option) outcome \<times> 'c \<times> 'w"

type_synonym ('c, 'w) ShutdownWorker = "'c \<Rightarrow> 'w \<Rightarrow> 'c \<times> 'w"

record ('c, 'w) WorkerConfig = BenchConfig +
  OperationConfig :: 'c
  WriteOp :: "('c, 'w) ChaincodeOperation"
  ReadOp :: "('c, 'w) ChaincodeOperation"
  InitFunc :: "('c, 'w) InitializeWorker"
  ShutdownFunc :: "('c, 'w) ShutdownWorker option"
  DataSizeBytes :: go_int

text \<open>
  \<open>LoadConfig\<close>: \<open>getenv\<close> gives the empty string for an unset variable; \<open>yaml_unmarshal\<close> gives
  the configuration with the fields it decoded, and an error.
\<close>

definition config_file_name :: "(string \<Rightarrow> string) \<Rightarrow> string" where
  "config_file_name getenv =
     (let fn = getenv ''SIMI_YAML'' in if fn \<noteq> [] then fn else ''simi.yaml'')"

definition LoadConfig ::
  "(string \<Rightarrow> string) \<Rightarrow> (string \<Rightarrow> string res) \<Rightarrow> (string \<Rightarrow> 'conf \<Rightarrow> goerr option \<times> 'conf) \<Rightarrow>
   'conf \<Rightarrow> goerr option \<times> 'conf" where
  "LoadConfig getenv read_file yaml_unmarshal c =
     (let configFileName = config_file_name getenv in
      case read_file configFileName of
        Inl err \<Rightarrow> (Some (Wrap (''error reading '' @ configFileName @ '':  '') err), c)
      | Inr yamlFile \<Rightarrow>
          (case yaml_unmarshal yamlFile c of
             (Some err, c') \<Rightarrow> (Some (Wrap (''error unmarshaling '' @ configFileName @ '': '') err), c')
           | (None, c') \<Rightarrow> (None, c')))"

text \<open>
  \<open>LoadConfig\<close> succeeds exactly if the file that \<open>SIMI_YAML\<close> names (\<open>simi.yaml\<close> if it is unset
  or empty) can be read and decoded, and then gives what the decoder made of it; a file that
  cannot be read changes nothing.
\<close>

theorem LoadConfig_loads:
  "(LoadConfig getenv read_file yaml_unmarshal c = (None, c') \<longleftrightarrow>
     (\<exists>bytes. read_file (if getenv ''SIMI_YAML'' = [] then ''simi.yaml'' else getenv ''SIMI_YAML'') = Inr bytes \<and>
       yaml_unmarshal bytes c = (None, c'))) \<and>
   ((\<exists>bytes. read_file (config_file_name getenv) = Inr bytes) \<or>
     snd (LoadConfig getenv read_file yaml_unmarshal c) = c)"
proof (intro conjI)
  have n: "(if getenv ''SIMI_YAML'' = [] then ''simi.yaml'' else getenv ''SIMI_YAML'') = config_file_name getenv"
    by (simp add: config_file_name_def Let_def)
  show "LoadConfig getenv read_file yaml_unmarshal c = (None, c') \<longleftrightarrow>
     (\<exists>bytes. read_file (if getenv ''SIMI_YAML'' = [] then ''simi.yaml'' else getenv ''SIMI_YAML'') = Inr bytes \<and>
       yaml_unmarshal bytes c = (None, c'))"
    unfolding n
    by (auto simp: LoadConfig_def Let_def split: sum.splits prod.splits option.splits)
  show "(\<exists>bytes. read_file (config_file_name getenv) = Inr bytes) \<or>
     snd (LoadConfig getenv read_file yaml_unmarshal c) = c"
    by (cases "read_file (config_file_name getenv)") (simp_all add: LoadConfig_def Let_def)
qed

subsection \<open>An operation as an interface\<close>

text \<open>
  What a benchmark relies on in an operation: with a configuration that is ready, it comes back,
  with or without an error, and the configuration it leaves is ready again.
\<close>

locale chaincode_operation =
  fixes oper :: "('c, 'w) ChaincodeOperation"
    and ready :: "'c \<Rightarrow> bool"
  assumes op_returns: "ready c \<Longrightarrow> \<exists>e c' w'. oper c w = (Ret e, c', w') \<and> ready c'"
begin

lemma op_obtain:
  assumes "ready c"
  obtains e c' w' where "oper c w = (Ret e, c', w')" "ready c'"
  using op_returns [OF assms] by blast

lemma op_ready: "ready c \<Longrightarrow> oper c w = (r, c', w') \<Longrightarrow> ready c' \<and> returns r"
  using op_returns [of c w] by (auto simp: returns_iff)

end

text \<open>The two operations of a worker work on the same configuration.\<close>

locale operation_pair =
  writing: chaincode_operation wop ready + reading: chaincode_operation rop ready
  for wop rop :: "('c, 'w) ChaincodeOperation" and ready :: "'c \<Rightarrow> bool"
begin

lemma pair_obtain:
  assumes "ready c"
  obtains e1 c1 w1 e2 c2 w2 where "wop c w = (Ret e1, c1, w1)" "rop c1 w1 = (Ret e2, c2, w2)" "ready c2"
proof -
  obtain e1 c1 w1 where 1: "wop c w = (Ret e1, c1, w1)" "ready c1"
    using writing.op_obtain [OF assms] by blast
  obtain e2 c2 w2 where "rop c1 w1 = (Ret e2, c2, w2)" "ready c2"
    using reading.op_obtain [OF 1(2)] by blast
  with 1(1) show ?thesis by (rule that)
qed

end

end
