(* ===== verification/ByteSize.thy ===== *)
theory ByteSize
  imports Config Float64
begin

section \<open>Data sizes with units (config/loader.go, LoadByteSize)\<close>

text \<open>
  \<open>LoadByteSize\<close> reads the flag \<open>dataSizeBytes\<close>: a decimal number and a unit. The model has its
  parts in order: \<open>TrimSpace\<close>, the regular expression (\<open>match_size\<close>, its two groups),
  \<open>ParseFloat\<close>, the table of multipliers and the conversion to \<open>int\<close>. Texts are UTF-8 bytes: Go
  trims every Unicode space, and its case-insensitive class of unit letters has one member
  outside ASCII, the Kelvin sign, whose lower case is \<open>k\<close>.
\<close>

subsection \<open>Trimming\<close>

definition utf8_spaces :: "string list" where
  "utf8_spaces = map (map char_of)
     ([[9], [10], [11], [12], [13], [32], [194, 133], [194, 160], [225, 154, 128]]
      @ map (\<lambda>b. [226, 128, b]) [128, 129, 130, 131, 132, 133, 134, 135, 136, 137, 138, 168, 169, 175]
      @ [[226, 129, 159], [227, 128, 128 :: nat]])"

definition starts_with :: "string \<Rightarrow> string \<Rightarrow> bool" where
  "starts_with p s \<longleftrightarrow> take (length p) s = p"

text \<open>Removing from the front any of the given texts, none of which is empty.\<close>

lemma starts_with_drop:
  "p \<noteq> [] \<Longrightarrow> starts_with p s \<Longrightarrow> length (drop (length p) s) < length s"
  by (cases p; cases s) (auto simp: starts_with_def)

function strip_front :: "string list \<Rightarrow> string \<Rightarrow> string" where
  "strip_front ps s =
     (case find (\<lambda>p. p \<noteq> [] \<and> starts_with p s) ps of
        None \<Rightarrow> s
      | Some p \<Rightarrow> strip_front ps (drop (length p) s))"
  by pat_completeness auto
termination
  by (relation "measure (\<lambda>(ps, s). length s)")
    (auto simp: find_Some_iff simp del: length_drop intro!: starts_with_drop)

declare strip_front.simps [simp del]

definition utf8_spaces_rev :: "string list" where
  "utf8_spaces_rev = map rev utf8_spaces"

text \<open>
  \<open>strings.TrimSpace\<close>. Stripping at the end works on the reversed text: the last bytes are one
  of the space encodings exactly if decoding the last rune gives that space.
\<close>

definition TrimSpace :: "string \<Rightarrow> string" where
  "TrimSpace s = rev (strip_front utf8_spaces_rev (rev (strip_front utf8_spaces s)))"

subsection \<open>The regular expression\<close>

definition is_number_byte :: "char \<Rightarrow> bool" where
  "is_number_byte c \<longleftrightarrow> is_digit c \<or> c = CHR ''.''"

definition is_re_space :: "char \<Rightarrow> bool" where
  "is_re_space c \<longleftrightarrow> byte c \<in> {9, 10, 12, 13, 32}"

definition kelvin_sign :: string where
  "kelvin_sign = map char_of [226, 132, 170 :: nat]"

definition ascii_lower :: "char \<Rightarrow> char" where
  "ascii_lower c = (if 65 \<le> byte c \<and> byte c \<le> 90 then char_of (byte c + 32) else c)"

text \<open>The optional parts of the unit: a prefix letter, an \<open>i\<close>, a \<open>b\<close>.\<close>

definition skip_prefix_letter :: "string \<Rightarrow> string" where
  "skip_prefix_letter s =
     (if starts_with kelvin_sign s then drop 3 s
      else if s \<noteq> [] \<and> ascii_lower (hd s) \<in> set ''kmgtpezy'' then tl s
      else s)"

definition skip_letter :: "char \<Rightarrow> string \<Rightarrow> string" where
  "skip_letter c s = (if s \<noteq> [] \<and> ascii_lower (hd s) = c then tl s else s)"

definition unit_matches :: "string \<Rightarrow> bool" where
  "unit_matches s \<longleftrightarrow> skip_letter CHR ''b'' (skip_letter CHR ''i'' (skip_prefix_letter s)) = []"

text \<open>
  The groups of \<open>(?i)^([\d.]+)\s*([kmgtpezy]?i?b?)$\<close>. The three parts share no byte, so the
  leftmost-first match takes each of them as far as it goes.
\<close>

definition match_size :: "string \<Rightarrow> (string \<times> string) option" where
  "match_size s =
     (let num = takeWhile is_number_byte s;
          rest = dropWhile is_re_space (dropWhile is_number_byte s)
      in if num \<noteq> [] \<and> unit_matches rest then Some (num, rest) else None)"

text \<open>\<open>strings.ToLower\<close> on a unit, whose only byte sequence outside ASCII is the Kelvin sign.\<close>

definition ToLower_unit :: "string \<Rightarrow> string" where
  "ToLower_unit s =
     (if starts_with kelvin_sign s then CHR ''k'' # map ascii_lower (drop 3 s)
      else map ascii_lower s)"

subsection \<open>Units and the conversion\<close>

definition units :: "(string \<times> nat) list" where
  "units =
     [(''b'', 1), (''kb'', 10 ^ 3), (''mb'', 10 ^ 6), (''gb'', 10 ^ 9), (''tb'', 10 ^ 12),
      (''pb'', 10 ^ 15), (''eb'', 10 ^ 18), (''zb'', 10 ^ 21), (''yb'', 10 ^ 24),
      (''kib'', 2 ^ 10), (''mib'', 2 ^ 20), (''gib'', 2 ^ 30), (''tib'', 2 ^ 40),
      (''pib'', 2 ^ 50), (''eib'', 2 ^ 60)]"

definition unit_of :: "string \<Rightarrow> string" where
  "unit_of group2 = (let u = ToLower_unit group2 in if u = [] then ''b'' else u)"

definition LoadByteSize ::
  "string \<Rightarrow> ('c, 'w, 'r) WorkerConfig_scheme \<Rightarrow> goerr option \<times> ('c, 'w, 'r) WorkerConfig_scheme" where
  "LoadByteSize s c =
     (let s = TrimSpace s in
      case match_size s of
        None \<Rightarrow> (Some (Err (''invalid size format '' @ s)), c)
      | Some (numStr, group2) \<Rightarrow>
          (case ParseFloat numStr of
             Inl err \<Rightarrow> (Some err, c)
           | Inr num \<Rightarrow>
               (case map_of units (unit_of group2) of
                  None \<Rightarrow> (Some (Err (''unknown size unit: '' @ unit_of group2)), c)
                | Some multiplier \<Rightarrow>
                    (None, c\<lparr>DataSizeBytes :=
                       word_of_int (f64_to_int (f64_mul num (f64_of_nat multiplier)))\<rparr>))))"

subsection \<open>Trimming a text\<close>

lemma strip_front_stop:
  assumes "s \<noteq> []" and "\<And>p. p \<in> set ps \<Longrightarrow> p \<noteq> [] \<Longrightarrow> hd p \<noteq> hd s"
  shows "strip_front ps s = s"
proof -
  have "\<not> starts_with p s" if "p \<in> set ps" "p \<noteq> []" for p
    using assms(2) [OF that] that(2) assms(1) by (cases p; cases s) (auto simp: starts_with_def)
  then have "find (\<lambda>p. p \<noteq> [] \<and> starts_with p s) ps = None"
    by (auto simp: find_None_iff)
  then show ?thesis by (subst strip_front.simps) simp
qed

lemma find_single:
  assumes "[c] \<in> set ps" and "\<And>p. p \<in> set ps \<Longrightarrow> p \<noteq> [] \<Longrightarrow> hd p = c \<Longrightarrow> p = [c]"
  shows "find (\<lambda>p. p \<noteq> [] \<and> starts_with p (c # s)) ps = Some [c]"
  using assms
proof (induction ps)
  case (Cons q ps)
  show ?case
  proof (cases "q \<noteq> [] \<and> starts_with q (c # s)")
    case True
    then have "q \<noteq> []" "hd q = c" by (cases q; auto simp: starts_with_def)+
    with Cons.prems(2) [of q] True show ?thesis by simp
  next
    case False
    then have "[c] \<noteq> q" by (auto simp: starts_with_def)
    with False Cons show ?thesis by simp
  qed
qed simp

lemma strip_front_single:
  assumes "[c] \<in> set ps" and "\<And>p. p \<in> set ps \<Longrightarrow> p \<noteq> [] \<Longrightarrow> hd p = c \<Longrightarrow> p = [c]"
  shows "strip_front ps (c # s) = strip_front ps s"
  by (subst strip_front.simps) (simp add: find_single [OF assms])

definition is_ascii_space :: "char \<Rightarrow> bool" where
  "is_ascii_space c \<longleftrightarrow> byte c \<in> {9, 10, 11, 12, 13, 32}"

lemma byte_eq_char: "byte c = n \<Longrightarrow> c = char_of n"
  by (metis char_of_char)

lemma utf8_spaces_heads:
  "p \<in> set utf8_spaces \<Longrightarrow>
    byte (hd p) \<in> {194, 225, 226, 227} \<or> (\<exists>c. p = [c] \<and> byte c \<in> {9, 10, 11, 12, 13, 32})"
  by (simp add: utf8_spaces_def) (elim disjE; simp)

lemma utf8_spaces_rev_heads:
  "p \<in> set utf8_spaces_rev \<Longrightarrow>
    128 \<le> byte (hd p) \<or> (\<exists>c. p = [c] \<and> byte c \<in> {9, 10, 11, 12, 13, 32})"
  by (simp add: utf8_spaces_rev_def utf8_spaces_def) (elim disjE; simp)

lemma ascii_space_mem:
  "is_ascii_space c \<Longrightarrow> [c] \<in> set utf8_spaces"
  "is_ascii_space c \<Longrightarrow> [c] \<in> set utf8_spaces_rev"
proof -
  assume "is_ascii_space c"
  then have "byte c \<in> {9, 10, 11, 12, 13, 32}" by (simp add: is_ascii_space_def)
  then have "c \<in> char_of ` {9, 10, 11, 12, 13, 32 :: nat}" by (auto dest!: byte_eq_char)
  then show "[c] \<in> set utf8_spaces" by (auto simp: utf8_spaces_def)
  then have "rev [c] \<in> rev ` set utf8_spaces" by (rule imageI)
  then show "[c] \<in> set utf8_spaces_rev" by (simp add: utf8_spaces_rev_def)
qed

lemma ascii_space_only:
  assumes "is_ascii_space c"
  shows "p \<in> set utf8_spaces \<Longrightarrow> p \<noteq> [] \<Longrightarrow> hd p = c \<Longrightarrow> p = [c]"
    and "p \<in> set utf8_spaces_rev \<Longrightarrow> p \<noteq> [] \<Longrightarrow> hd p = c \<Longrightarrow> p = [c]"
  using assms utf8_spaces_heads [of p] utf8_spaces_rev_heads [of p]
  by (auto simp: is_ascii_space_def)

lemma strip_front_space:
  "is_ascii_space c \<Longrightarrow> strip_front utf8_spaces (c # s) = strip_front utf8_spaces s"
  "is_ascii_space c \<Longrightarrow> strip_front utf8_spaces_rev (c # s) = strip_front utf8_spaces_rev s"
  by (rule strip_front_single; erule ascii_space_mem ascii_space_only; assumption)+

lemma strip_front_spaces:
  "list_all is_ascii_space ws \<Longrightarrow> strip_front utf8_spaces (ws @ s) = strip_front utf8_spaces s"
  "list_all is_ascii_space ws \<Longrightarrow> strip_front utf8_spaces_rev (ws @ s) = strip_front utf8_spaces_rev s"
  by (induction ws) (simp_all add: strip_front_space)

text \<open>A byte that is ASCII and no space ends the trimming on both sides.\<close>

definition is_ink :: "char \<Rightarrow> bool" where
  "is_ink c \<longleftrightarrow> byte c < 128 \<and> \<not> is_ascii_space c"

lemma ink_not_space:
  assumes "is_ink c"
  shows "p \<in> set utf8_spaces \<Longrightarrow> hd p \<noteq> c" and "p \<in> set utf8_spaces_rev \<Longrightarrow> hd p \<noteq> c"
proof -
  have b: "byte c < 128" "byte c \<notin> {9, 10, 11, 12, 13, 32}"
    using assms by (simp_all add: is_ink_def is_ascii_space_def)
  show "hd p \<noteq> c" if p: "p \<in> set utf8_spaces"
  proof
    assume "hd p = c"
    with utf8_spaces_heads [OF p] b show False by (elim disjE exE conjE) simp_all
  qed
  show "hd p \<noteq> c" if p: "p \<in> set utf8_spaces_rev"
  proof
    assume "hd p = c"
    with utf8_spaces_rev_heads [OF p] b show False by (elim disjE exE conjE) simp_all
  qed
qed

lemma TrimSpace_ink:
  assumes "list_all is_ascii_space pre" and "list_all is_ascii_space post"
    and "s \<noteq> []" and "is_ink (hd s)" and "is_ink (last s)"
  shows "TrimSpace (pre @ s @ post) = s"
proof -
  have "strip_front utf8_spaces (s @ post) = s @ post"
    using assms(3,4) by (intro strip_front_stop) (auto dest: ink_not_space(1))
  moreover have "strip_front utf8_spaces_rev (rev s) = rev s"
    using assms(3,5) by (intro strip_front_stop) (auto simp: hd_rev dest: ink_not_space(2))
  moreover have "list_all is_ascii_space (rev post)" using assms(2) by (simp add: list_all_iff)
  ultimately show ?thesis
    using assms(1) by (simp add: TrimSpace_def strip_front_spaces)
qed

subsection \<open>Units in either case\<close>

lemma byte_ascii_lower:
  "byte (ascii_lower c) = (if 65 \<le> byte c \<and> byte c \<le> 90 then byte c + 32 else byte c)"
  by (simp add: ascii_lower_def)

lemma ascii_lower_idem [simp]: "ascii_lower (ascii_lower c) = ascii_lower c"
  by (rule of_char_eqI [where 'a = nat]) (simp add: byte_ascii_lower)

lemma ascii_lower_eq_byte: "ascii_lower c = d \<Longrightarrow> byte d < 128 \<Longrightarrow> byte c < 128"
  by (auto simp: byte_ascii_lower split: if_splits)

definition ascii_text :: "string \<Rightarrow> bool" where
  "ascii_text s \<longleftrightarrow> list_all (\<lambda>c. byte c < 128) s"

lemma ascii_text_no_kelvin: "ascii_text s \<Longrightarrow> \<not> starts_with kelvin_sign s"
  by (cases s) (auto simp: starts_with_def kelvin_sign_def ascii_text_def)

lemma ascii_text_map_lower: "ascii_text (map ascii_lower s) \<longleftrightarrow> ascii_text s"
  by (auto simp: ascii_text_def list_all_iff byte_ascii_lower)

lemma ascii_text_tl: "ascii_text s \<Longrightarrow> ascii_text (tl s)"
  by (cases s) (auto simp: ascii_text_def)

lemma skip_letter_lower: "map ascii_lower (skip_letter c s) = skip_letter c (map ascii_lower s)"
  by (cases s) (auto simp: skip_letter_def)

lemma skip_prefix_lower:
  assumes a: "ascii_text s"
  shows "map ascii_lower (skip_prefix_letter s) = skip_prefix_letter (map ascii_lower s)"
proof -
  have k: "\<not> starts_with kelvin_sign s" "\<not> starts_with kelvin_sign (map ascii_lower s)"
    using a ascii_text_map_lower [of s] ascii_text_no_kelvin by blast+
  show ?thesis
    unfolding skip_prefix_letter_def if_not_P [OF k(1)] if_not_P [OF k(2)]
    by (cases s) (simp_all del: list.set)
qed

lemma unit_matches_lower:
  assumes "ascii_text s"
  shows "unit_matches s \<longleftrightarrow> unit_matches (map ascii_lower s)"
proof -
  have "unit_matches s \<longleftrightarrow>
      map ascii_lower (skip_letter CHR ''b'' (skip_letter CHR ''i'' (skip_prefix_letter s))) = []"
    by (simp add: unit_matches_def)
  then show ?thesis
    by (simp add: skip_letter_lower skip_prefix_lower assms unit_matches_def)
qed

lemma unit_matches_ascii:
  "ascii_text s \<Longrightarrow> unit_matches s \<longleftrightarrow>
    skip_letter CHR ''b'' (skip_letter CHR ''i''
      (if s \<noteq> [] \<and> ascii_lower (hd s) \<in> set ''kmgtpezy'' then tl s else s)) = []"
  by (simp add: unit_matches_def skip_prefix_letter_def ascii_text_no_kelvin)

lemma unit_names_ascii: "list_all ascii_text (map fst units)"
  by (simp add: units_def ascii_text_def)

lemma unit_names_match: "list_all unit_matches (map fst units)"
  by (simp add: units_def unit_matches_ascii ascii_text_def skip_letter_def ascii_lower_def)

lemma ascii_unit_names: "(u, m) \<in> set units \<Longrightarrow> ascii_text u \<and> unit_matches u"
  using unit_names_ascii unit_names_match by (auto simp: list_all_iff)

lemma unit_names_nonempty: "(u, m) \<in> set units \<Longrightarrow> u \<noteq> []"
  by (auto simp: units_def)
lemma units_distinct: "distinct (map fst units)"
  by (simp add: units_def)

text \<open>A unit as it may be written: a name of the table in either case, or nothing for bytes.\<close>

definition writes_unit :: "string \<Rightarrow> nat \<Rightarrow> bool" where
  "writes_unit u m \<longleftrightarrow> (u = [] \<and> m = 1) \<or> (map ascii_lower u, m) \<in> set units"

lemma unit_matches_empty: "unit_matches []"
  by (simp add: unit_matches_ascii ascii_text_def skip_letter_def)

lemma writes_unit_ascii: "writes_unit u m \<Longrightarrow> ascii_text u"
  using ascii_unit_names [of "map ascii_lower u" m] ascii_text_map_lower [of u]
  by (auto simp: writes_unit_def) (simp add: ascii_text_def)

lemma writes_unit_matches: "writes_unit u m \<Longrightarrow> unit_matches u"
  using ascii_unit_names [of "map ascii_lower u" m] unit_matches_lower [OF writes_unit_ascii]
  by (auto simp: writes_unit_def unit_matches_empty)

lemma map_of_units_b: "map_of units ''b'' = Some 1"
  by (simp add: units_def)

lemma writes_unit_lookup: "writes_unit u m \<Longrightarrow> map_of units (unit_of u) = Some m"
proof -
  assume w: "writes_unit u m"
  have t: "ToLower_unit u = map ascii_lower u"
    using ascii_text_no_kelvin [OF writes_unit_ascii [OF w]] by (simp add: ToLower_unit_def)
  show ?thesis
  proof (cases "u = []")
    case True
    with w have "m = 1" using unit_names_nonempty by (auto simp: writes_unit_def)
    with True t show ?thesis by (simp add: unit_of_def map_of_units_b)
  next
    case False
    with w t show ?thesis
      by (simp add: writes_unit_def unit_of_def map_of_eq_Some_iff [OF units_distinct])
  qed
qed

subsection \<open>What LoadByteSize accepts and stores\<close>

lemma number_byte_bounds: "is_number_byte c \<Longrightarrow> byte c < 128 \<and> \<not> is_re_space c \<and> is_ink c"
  by (auto simp: is_number_byte_def is_digit_def is_re_space_def is_ink_def is_ascii_space_def)

lemma unit_head_bytes:
  "unit_matches u \<Longrightarrow> u \<noteq> [] \<Longrightarrow> \<not> is_number_byte (hd u) \<and> \<not> is_re_space (hd u)"
proof -
  assume u: "unit_matches u" "u \<noteq> []"
  then have "starts_with kelvin_sign u \<or> byte (ascii_lower (hd u)) \<in> byte ` set ''kmgtpezyib''"
    by (cases u) (auto simp: unit_matches_def skip_letter_def skip_prefix_letter_def split: if_splits)
  then have "128 \<le> byte (hd u) \<or> 65 \<le> byte (hd u)"
    using u(2) by (cases u)
      (auto simp: starts_with_def kelvin_sign_def byte_ascii_lower split: if_splits)
  then show ?thesis by (auto simp: is_number_byte_def is_digit_def is_re_space_def)
qed

lemma match_size_parts:
  assumes "num \<noteq> []" and "list_all is_number_byte num" and "list_all is_re_space ws"
    and "unit_matches u" and "u = [] \<Longrightarrow> ws = []"
  shows "match_size (num @ ws @ u) = Some (num, u)"
proof -
  have stop: "ws @ u = [] \<or> \<not> is_number_byte (hd (ws @ u))"
    using assms(3) unit_head_bytes [OF assms(4)] number_byte_bounds by (cases ws) auto
  have "u = [] \<or> \<not> is_re_space (hd u)" using unit_head_bytes [OF assms(4)] by blast
  then have "dropWhile is_re_space (ws @ u) = u"
    using assms(3) by (rule dropWhile_append_stop [rotated])
  then show ?thesis
    using assms(1,4) takeWhile_append_stop [OF assms(2) stop] dropWhile_append_stop [OF assms(2) stop]
    by (simp add: match_size_def)
qed

lemma unit_last_ink: "writes_unit u m \<Longrightarrow> u \<noteq> [] \<Longrightarrow> is_ink (last u)"
proof -
  assume w: "writes_unit u m" "u \<noteq> []"
  then have "(map ascii_lower u, m) \<in> set units" by (simp add: writes_unit_def)
  then have "last (map ascii_lower u) = CHR ''b''" unfolding units_def by auto
  then have "ascii_lower (last u) = CHR ''b''" using w(2) by (simp add: last_map)
  then have "byte (ascii_lower (last u)) = 98" by simp
  then have "65 \<le> byte (last u)" "byte (last u) \<le> 98"
    by (auto simp: byte_ascii_lower split: if_splits)
  then show ?thesis by (auto simp: is_ink_def is_ascii_space_def)
qed

text \<open>The value of a number and a multiplier that float64 holds exactly.\<close>

lemma product_exact:
  assumes "m \<le> 2 ^ 53" and "v * m \<le> 2 ^ 53" and "v \<le> 2 ^ 53"
  shows "f64_to_int (f64_mul (f64_of_nat v) (f64_of_nat m)) = int (v * m)"
proof -
  have "representable (f64_val (f64_of_nat v) * f64_val (f64_of_nat m))"
    using f64_of_nat_exact assms representable_nat [OF assms(2)] by simp
  then have "is_finite (f64_mul (f64_of_nat v) (f64_of_nat m)) \<and>
      f64_val (f64_mul (f64_of_nat v) (f64_of_nat m)) = real (v * m)"
    using f64_mul_exact f64_of_nat_exact assms by simp
  then show ?thesis using assms(2) by (intro f64_to_int_exact) auto
qed

lemma show_nat_number: "list_all is_number_byte (show_nat v)"
  using show_nat_digits [of v] by (auto simp: list_all_iff is_number_byte_def)

lemma TrimSpace_size:
  assumes "list_all is_ascii_space pre" and "list_all is_ascii_space post"
    and "num \<noteq> []" and "list_all is_number_byte num"
    and "writes_unit u m" and "u = [] \<Longrightarrow> ws = []"
  shows "TrimSpace (pre @ num @ ws @ u @ post) = num @ ws @ u"
proof -
  have "is_ink (hd num)" "is_ink (last num)"
    using assms(3,4) number_byte_bounds by (simp_all add: list_all_iff)
  then have "is_ink (last (num @ ws @ u))" "is_ink (hd (num @ ws @ u))"
    using assms(3,6) unit_last_ink [OF assms(5)] by (cases "u = []"; simp)+
  then show ?thesis
    using TrimSpace_ink [of pre post "num @ ws @ u"] assms(1,2,3) by simp
qed

text \<open>
  C23: a size written as a whole number, optional spaces around and before the unit, and a unit
  of the table in either case (or none, for bytes) is stored exactly, as the number times the
  unit's multiplier, as long as the number, the multiplier and the product are at most \<open>2 ^ 53\<close>;
  nothing else of the configuration changes.
\<close>

theorem LoadByteSize_exact:
  assumes "writes_unit u m" and "m \<le> 2 ^ 53" and "v \<le> 2 ^ 53" and "v * m \<le> 2 ^ 53"
    and "list_all is_ascii_space pre" and "list_all is_ascii_space post"
    and "list_all is_re_space ws" and "u = [] \<Longrightarrow> ws = []"
  shows "LoadByteSize (pre @ show_nat v @ ws @ u @ post) c =
    (None, c\<lparr>DataSizeBytes := of_nat (v * m)\<rparr>)"
proof -
  have "TrimSpace (pre @ show_nat v @ ws @ u @ post) = show_nat v @ ws @ u"
    by (rule TrimSpace_size [OF assms(5,6) _ show_nat_number assms(1,8)]) simp_all
  moreover have "match_size (show_nat v @ ws @ u) = Some (show_nat v, u)"
    using assms(1,7,8) by (intro match_size_parts) (simp_all add: show_nat_number writes_unit_matches)
  ultimately show ?thesis
    using assms(1-4)
    by (simp add: LoadByteSize_def ParseFloat_show_nat writes_unit_lookup product_exact)
qed

theorem LoadByteSize_exact_witness:
  "\<forall>c :: (unit, unit) WorkerConfig.
     LoadByteSize ('' '' @ show_nat 32 @ '' '' @ ''KB'' @ '' '') c =
       (None, c\<lparr>DataSizeBytes := of_nat (32 * 1000)\<rparr>)"
proof -
  have u: "writes_unit ''KB'' 1000"
    by (simp add: writes_unit_def units_def ascii_lower_def char_of_def bit_0)
  have ws: "list_all is_ascii_space '' ''" "list_all is_re_space '' ''"
    by (simp_all add: is_ascii_space_def is_re_space_def)
  show ?thesis
    by (intro allI LoadByteSize_exact [OF u _ _ _ ws(1) ws(1) ws(2)]) simp_all
qed

text \<open>Sizes of 8EiB and more are out of the range of \<open>int\<close>.\<close>

lemma EiB_out_of_range:
  assumes "8 \<le> v" and "v \<le> 2 ^ 53"
  shows "LoadByteSize (show_nat v @ ''EiB'') c = (None, c\<lparr>DataSizeBytes := - (2 ^ 63)\<rparr>)"
proof -
  have u: "writes_unit ''EiB'' (2 ^ 60)"
    by (simp add: writes_unit_def units_def ascii_lower_def char_of_def bit_0)
  have t: "TrimSpace (show_nat v @ ''EiB'') = show_nat v @ ''EiB''"
    using TrimSpace_size [of "[]" "[]" "show_nat v", OF _ _ _ show_nat_number u, of "[]"] by simp
  have m: "match_size (show_nat v @ ''EiB'') = Some (show_nat v, ''EiB'')"
    using match_size_parts [of "show_nat v" "[]" "''EiB''"] show_nat_number writes_unit_matches [OF u]
    by simp
  have r60: "representable (real (2 ^ 60))"
    unfolding representable_def by (intro exI [of _ "1 :: nat"] exI [of _ "60 :: int"]) simp
  have k: "is_finite (f64_of_nat (2 ^ 60)) \<and> f64_val (f64_of_nat (2 ^ 60)) = real (2 ^ 60)"
    using round_f64_exact [of 1 "2 ^ 60"] r60 by (simp add: f64_of_nat_def)
  have "representable (real v * real (2 ^ 60))"
  proof (cases "v = 2 ^ 53")
    case True
    then show ?thesis
      unfolding representable_def by (intro exI [of _ "1 :: nat"] exI [of _ "113 :: int"]) simp
  next
    case False
    with assms(2) have "v < 2 ^ 53" by simp
    then show ?thesis
      unfolding representable_def by (intro exI [of _ v] exI [of _ "60 :: int"]) simp
  qed
  then have p: "is_finite (f64_mul (f64_of_nat v) (f64_of_nat (2 ^ 60)))"
    "f64_val (f64_mul (f64_of_nat v) (f64_of_nat (2 ^ 60))) = real (v * 2 ^ 60)"
    using f64_mul_exact [of "f64_of_nat v" "f64_of_nat (2 ^ 60)"] f64_of_nat_exact [OF assms(2)] k
    by simp_all
  have "f64_to_int (f64_mul (f64_of_nat v) (f64_of_nat (2 ^ 60))) = - (2 ^ 63)"
    using assms(1) by (intro f64_to_int_overflow [OF p]) simp
  then show ?thesis
    using t m by (simp add: LoadByteSize_def ParseFloat_show_nat [OF assms(2)] writes_unit_lookup [OF u])
qed

text \<open>
  From \<open>2 ^ 63\<close> bytes on a size does not fit the \<open>int\<close> it is converted to: every size of at
  least 8EiB is accepted without an error and stored as the least \<open>int64\<close>, a negative number of
  bytes.
\<close>

theorem LoadByteSize_overflow:
  assumes "8 \<le> v" and "v \<le> 2 ^ 53"
  shows "LoadByteSize (show_nat v @ ''EiB'') c = (None, c\<lparr>DataSizeBytes := - (2 ^ 63)\<rparr>)"
  by (rule EiB_out_of_range [OF assms])

theorem LoadByteSize_overflow_witness:
  "\<forall>c :: (unit, unit) WorkerConfig.
     LoadByteSize (show_nat 10 @ ''EiB'') c = (None, c\<lparr>DataSizeBytes := - (2 ^ 63)\<rparr>)"
  by (intro allI LoadByteSize_overflow) simp_all

lemma match_size_Some_iff:
  "match_size s = Some (num, u) \<longleftrightarrow>
    num \<noteq> [] \<and> list_all is_number_byte num \<and> unit_matches u \<and> (\<exists>ws. s = num @ ws @ u \<and> list_all is_re_space ws)"
proof
  assume m: "match_size s = Some (num, u)"
  let ?rest = "dropWhile is_number_byte s"
  have "num = takeWhile is_number_byte s" "u = dropWhile is_re_space ?rest" "num \<noteq> []" "unit_matches u"
    using m by (auto simp: match_size_def Let_def split: if_splits)
  moreover from this have "s = num @ takeWhile is_re_space ?rest @ u" by simp
  moreover have "list_all P (takeWhile P xs)" for P :: "char \<Rightarrow> bool" and xs
    by (auto simp: list_all_iff dest: set_takeWhileD)
  ultimately show "num \<noteq> [] \<and> list_all is_number_byte num \<and> unit_matches u \<and>
      (\<exists>ws. s = num @ ws @ u \<and> list_all is_re_space ws)" by metis
next
  assume r: "num \<noteq> [] \<and> list_all is_number_byte num \<and> unit_matches u \<and>
      (\<exists>ws. s = num @ ws @ u \<and> list_all is_re_space ws)"
  then obtain ws where ws: "s = num @ ws @ u" "list_all is_re_space ws" by blast
  have stop: "ws @ u = [] \<or> \<not> is_number_byte (hd (ws @ u))"
    using ws(2) unit_head_bytes [of u] number_byte_bounds r by (cases ws) auto
  have "u = [] \<or> \<not> is_re_space (hd u)" using r unit_head_bytes by blast
  then have "dropWhile is_re_space (ws @ u) = u"
    using ws(2) by (rule dropWhile_append_stop [rotated])
  then show "match_size s = Some (num, u)"
    using r ws(1) takeWhile_append_stop [of is_number_byte num, OF _ stop]
      dropWhile_append_stop [of is_number_byte num, OF _ stop]
    by (simp add: match_size_def)
qed


end
