(* ===== verification/Bench.thy ===== *)
theory Bench
  imports Config
begin

section \<open>Benchmark results and the benchmark loop (benchmark: result.pb.go, benchmark.go, worker/worker.go)\<close>

text \<open>
  \<open>Result\<close> and its getters, and \<open>BenchOperation\<close>: after a random delay it runs the write and the
  read operation \<open>OperationsPerStream\<close> times, measures each, and keeps the extremes and the sum
  of the durations. Clock, random numbers, tracing and sleeping are the fields of \<open>runtime\<close>,
  over the world \<open>'w\<close>; a point in time is a value of type \<open>'t\<close>. The points given to
  \<open>writeAPI.WritePoint\<close> are kept in order. Durations are \<open>int64\<close> nanoseconds. \<open>err_text\<close> is the
  method \<open>Error\<close> of an error.
\<close>

subsection \<open>Results\<close>

record Result =
  res_Elapsed :: go_int
  res_Err :: string
  res_Min :: go_int
  res_Max :: go_int
  res_AvgTotal :: go_int
  res_Start :: go_int

definition GetElapsed :: "Result option \<Rightarrow> go_int" where
  "GetElapsed x = (case x of Some r \<Rightarrow> res_Elapsed r | None \<Rightarrow> 0)"

definition GetErr :: "Result option \<Rightarrow> string" where
  "GetErr x = (case x of Some r \<Rightarrow> res_Err r | None \<Rightarrow> [])"

definition GetMin :: "Result option \<Rightarrow> go_int" where
  "GetMin x = (case x of Some r \<Rightarrow> res_Min r | None \<Rightarrow> 0)"

definition GetMax :: "Result option \<Rightarrow> go_int" where
  "GetMax x = (case x of Some r \<Rightarrow> res_Max r | None \<Rightarrow> 0)"

definition GetAvgTotal :: "Result option \<Rightarrow> go_int" where
  "GetAvgTotal x = (case x of Some r \<Rightarrow> res_AvgTotal r | None \<Rightarrow> 0)"

definition GetStart :: "Result option \<Rightarrow> go_int" where
  "GetStart x = (case x of Some r \<Rightarrow> res_Start r | None \<Rightarrow> 0)"

text \<open>\<open>benchmark.MaxDuration\<close>, nine hours.\<close>

definition MaxDuration :: go_int where
  "MaxDuration = 9 * 3600 * 10 ^ 9"

subsection \<open>The surroundings of a benchmark\<close>

text \<open>
  \<open>Rand_Int63n\<close> is called with a positive argument only; \<open>Start_span\<close> tells whether a span was
  started. \<open>Since t\<close> is the time passed since \<open>t\<close>.
\<close>

record ('t, 'w) runtime =
  Now :: "'w \<Rightarrow> 't \<times> 'w"
  Since :: "'t \<Rightarrow> 'w \<Rightarrow> go_int \<times> 'w"
  UnixNano :: "'t \<Rightarrow> go_int"
  Sleep :: "go_int \<Rightarrow> 'w \<Rightarrow> 'w"
  Rand_Int63n :: "go_int \<Rightarrow> 'w \<Rightarrow> go_int \<times> 'w"
  Start_span :: "string \<Rightarrow> 'w \<Rightarrow> bool \<times> 'w"
  Finish_span :: "'w \<Rightarrow> 'w"

definition Int63n :: "('t, 'w) runtime \<Rightarrow> go_int \<Rightarrow> 'w \<Rightarrow> (go_int \<times> 'w) outcome" where
  "Int63n rt n w =
     (if sint n \<le> 0 then Panic ''invalid argument to Int63n'' else Ret (Rand_Int63n rt n w))"

text \<open>A point for Influx: the measurement, the field \<open>duration\<close> and the time.\<close>

type_synonym 't point = "string \<times> go_int \<times> 't"

record ('c, 'w, 't) bench_state =
  b_result :: Result
  b_points :: "'t point list"
  b_config :: 'c
  b_world :: 'w

subsection \<open>One operation, measured\<close>

text \<open>\<open>readFunc\<close> and \<open>writeFunc\<close>: the operation within a span, which is finished on the way out.\<close>

definition in_span ::
  "('t, 'w) runtime \<Rightarrow> string \<Rightarrow> ('c, 'w) ChaincodeOperation \<Rightarrow> ('c, 'w) ChaincodeOperation" where
  "in_span rt operationName oper c w =
     (case Start_span rt operationName w of
        (False, w) \<Rightarrow> (Ret (Some (Err (''error starting '' @ operationName @ '' span''))), c, w)
      | (True, w) \<Rightarrow> (case oper c w of (res, c', w') \<Rightarrow> (res, c', Finish_span rt w')))"

definition note_duration :: "go_int \<Rightarrow> Result \<Rightarrow> Result" where
  "note_duration elapsed r =
     (let r = (if sint elapsed < sint (res_Min r) then r\<lparr>res_Min := elapsed\<rparr> else r);
          r = (if sint (res_Max r) < sint elapsed then r\<lparr>res_Max := elapsed\<rparr> else r)
      in r\<lparr>res_AvgTotal := res_AvgTotal r + elapsed\<rparr>)"

text \<open>Half of an iteration: \<open>name\<close> is the measurement, "write" or "read".\<close>

definition measured ::
  "('t, 'w) runtime \<Rightarrow> (goerr \<Rightarrow> string) \<Rightarrow> 't \<Rightarrow> string \<Rightarrow> ('c, 'w) ChaincodeOperation \<Rightarrow>
   ('c, 'w, 't) bench_state \<Rightarrow> ('c, 'w, 't) bench_state outcome" where
  "measured rt err_text workerStart name func s =
     (let (startTime, w) = Now rt (b_world s) in
      case func (b_config s) w of
        (res, c', w') \<Rightarrow>
          outcome_bind res (\<lambda>err.
            case err of
              Some e \<Rightarrow>
                Ret (s\<lparr>b_result := (b_result s)\<lparr>res_Err := err_text e\<rparr>, b_config := c', b_world := w'\<rparr>)
            | None \<Rightarrow>
                let (elapsed, w1) = Since rt startTime w';
                    (total, w2) = Since rt workerStart w1
                in Ret (s\<lparr>b_result := (note_duration elapsed (b_result s))\<lparr>res_Elapsed := total\<rparr>,
                          b_points := b_points s @ [(name, elapsed, startTime)],
                          b_config := c', b_world := w2\<rparr>)))"

subsection \<open>The loop\<close>

definition bench_iteration ::
  "('t, 'w) runtime \<Rightarrow> (goerr \<Rightarrow> string) \<Rightarrow> ('c, 'w) WorkerConfig \<Rightarrow> 't \<Rightarrow>
   ('c, 'w, 't) bench_state \<Rightarrow> ('c, 'w, 't) bench_state outcome" where
  "bench_iteration rt err_text conf workerStart s =
     outcome_bind
       (measured rt err_text workerStart ''write'' (in_span rt (OperationType conf) (WriteOp conf))
         (s\<lparr>b_result := (b_result s)\<lparr>res_Err := []\<rparr>\<rparr>)) (\<lambda>s.
     outcome_bind
       (measured rt err_text workerStart ''read'' (in_span rt (OperationType conf) (ReadOp conf)) s) (\<lambda>s.
     Ret (s\<lparr>b_world := Sleep rt (OperationPeriod conf) (b_world s)\<rparr>)))"

lemma uint32_Suc: "(i :: uint32) < n \<Longrightarrow> unat (i + 1) = Suc (unat i)"
  using unat_uint32_less [of n] by (simp add: unat_word_ariths word_less_nat_alt)

function bench_loop ::
  "('t, 'w) runtime \<Rightarrow> (goerr \<Rightarrow> string) \<Rightarrow> ('c, 'w) WorkerConfig \<Rightarrow> 't \<Rightarrow> uint32 \<Rightarrow>
   ('c, 'w, 't) bench_state \<Rightarrow> ('c, 'w, 't) bench_state outcome" where
  "bench_loop rt err_text conf workerStart i s =
     (if i < OperationsPerStream conf then
        outcome_bind (bench_iteration rt err_text conf workerStart s)
          (bench_loop rt err_text conf workerStart (i + 1))
      else Ret s)"
  by pat_completeness auto
termination
  by (relation "measure (\<lambda>(rt, et, conf, ws, i, s). unat (OperationsPerStream conf) - unat i)")
    (auto simp: uint32_Suc word_less_nat_alt)

declare bench_loop.simps [simp del]

text \<open>
  \<open>BenchOperation\<close>, with the configuration \<open>conf\<close> of the worker; \<open>b_config\<close> of the result is the
  operation configuration it leaves. Its error is always nil.
\<close>

definition BenchOperation ::
  "('t, 'w) runtime \<Rightarrow> (goerr \<Rightarrow> string) \<Rightarrow> ('c, 'w) WorkerConfig \<Rightarrow> 'w \<Rightarrow>
   (goerr option \<times> ('c, 'w, 't) bench_state) outcome" where
  "BenchOperation rt err_text conf w =
     outcome_bind (Int63n rt (OperationPeriod conf) w) (\<lambda>(randDuration, w).
       let w = Sleep rt randDuration w;
           (workerStart, w) = Now rt w;
           result = \<lparr>res_Elapsed = 0, res_Err = [], res_Min = MaxDuration, res_Max = 0,
                     res_AvgTotal = 0, res_Start = UnixNano rt workerStart\<rparr>
       in outcome_bind
            (bench_loop rt err_text conf workerStart 0
              \<lparr>b_result = result, b_points = [], b_config = OperationConfig conf, b_world = w\<rparr>)
            (\<lambda>s. Ret (None, s)))"

subsection \<open>What a result summarises\<close>

definition durations :: "'t point list \<Rightarrow> int set" where
  "durations pts = set (map (\<lambda>(_, d, _). sint d) pts)"

definition summarises :: "Result \<Rightarrow> 't point list \<Rightarrow> bool" where
  "summarises r pts \<longleftrightarrow>
     sint (res_Min r) = Min (insert (sint MaxDuration) (durations pts)) \<and>
     sint (res_Max r) = Max (insert 0 (durations pts)) \<and>
     res_AvgTotal r = sum_list (map (\<lambda>(_, d, _). d) pts)"

lemma finite_durations [simp]: "finite (durations pts)"
  by (simp add: durations_def)

lemma durations_append: "durations (pts @ [(n, d, t)]) = insert (sint d) (durations pts)"
  by (auto simp: durations_def)

lemma Min_insert_twice: "finite A \<Longrightarrow> Min (insert x (insert y A)) = min y (Min (insert x A))" for x y :: int
  by (cases "A = {}") (simp_all add: min.left_commute min.commute)

lemma Max_insert_twice: "finite A \<Longrightarrow> Max (insert x (insert y A)) = max y (Max (insert x A))" for x y :: int
  by (cases "A = {}") (simp_all add: max.left_commute max.commute)

lemma summarises_note:
  assumes "summarises r pts"
  shows "summarises (note_duration d r) (pts @ [(n, d, t)])"
proof -
  have "sint (res_Min (note_duration d r)) = min (sint d) (sint (res_Min r))"
    "sint (res_Max (note_duration d r)) = max (sint d) (sint (res_Max r))"
    "res_AvgTotal (note_duration d r) = res_AvgTotal r + d"
    by (simp_all add: note_duration_def Let_def)
  with assms show ?thesis
    by (simp only: summarises_def durations_append Min_insert_twice Max_insert_twice finite_durations)
      (simp add: algebra_simps)
qed

lemma summarises_cong [simp]:
  "summarises (r\<lparr>res_Err := t\<rparr>) pts = summarises r pts"
  "summarises (r\<lparr>res_Elapsed := x\<rparr>) pts = summarises r pts"
  by (simp_all add: summarises_def)

text \<open>A state of the loop: the configuration is ready and the result summarises the points.\<close>

definition bench_ok :: "('c \<Rightarrow> bool) \<Rightarrow> ('c, 'w, 't) bench_state \<Rightarrow> bool" where
  "bench_ok ready s \<longleftrightarrow> ready (b_config s) \<and> summarises (b_result s) (b_points s)"

definition point_names :: "'t point list \<Rightarrow> string list" where
  "point_names pts = map fst pts"

lemma point_names_append: "point_names (xs @ ys) = point_names xs @ point_names ys"
  by (simp add: point_names_def)

context chaincode_operation begin

lemma in_span_returns:
  "ready c \<Longrightarrow> \<exists>e c' w'. in_span rt n oper c w = (Ret e, c', w') \<and> ready c'"
  by (auto simp: in_span_def returns_iff split: prod.splits bool.splits dest: op_ready)

lemma measured_step:
  assumes "bench_ok ready s"
  shows "\<exists>s'. measured rt et ws name (in_span rt n oper) s = Ret s' \<and> bench_ok ready s' \<and>
    ((\<exists>e. res_Err (b_result s') = et e \<and> b_points s' = b_points s) \<or>
     (\<exists>d t. res_Err (b_result s') = res_Err (b_result s) \<and> b_points s' = b_points s @ [(name, d, t)]))"
proof -
  obtain t w where now: "Now rt (b_world s) = (t, w)" by fastforce
  from assms have "ready (b_config s)" by (simp add: bench_ok_def)
  then obtain e c' w' where call: "in_span rt n oper (b_config s) w = (Ret e, c', w')" and c': "ready c'"
    using in_span_returns by blast
  show ?thesis
  proof (cases e)
    case (Some x)
    then show ?thesis using assms now call c' by (auto simp: measured_def bench_ok_def)
  next
    case None
    obtain d w1 where "Since rt t w' = (d, w1)" by fastforce
    moreover obtain total w2 where "Since rt ws w1 = (total, w2)" by fastforce
    moreover have "res_Err (note_duration d r) = res_Err r" for r by (simp add: note_duration_def Let_def)
    ultimately show ?thesis
      using None assms now call c' by (auto simp: measured_def bench_ok_def summarises_note)
  qed
qed

end

text \<open>What one iteration adds to the points: at most one write and one read, in this order.\<close>

definition iteration_names :: "string list set" where
  "iteration_names = {[], [''write''], [''read''], [''write'', ''read'']}"

fun iterate :: "nat \<Rightarrow> ('s \<Rightarrow> 's outcome) \<Rightarrow> 's \<Rightarrow> 's outcome" where
  "iterate 0 f s = Ret s"
| "iterate (Suc k) f s = outcome_bind (f s) (iterate k f)"

lemma bench_loop_iterate:
  "bench_loop rt et conf ws i s =
    iterate (unat (OperationsPerStream conf) - unat i) (bench_iteration rt et conf ws) s"
proof (induction rt et conf ws i s rule: bench_loop.induct)
  case (1 rt et conf ws i s)
  show ?case
  proof (cases "i < OperationsPerStream conf")
    case True
    then have "unat (OperationsPerStream conf) - unat i =
        Suc (unat (OperationsPerStream conf) - unat (i + 1))"
      using unat_uint32_less [of "OperationsPerStream conf"] by (simp add: uint32_Suc word_less_nat_alt)
    with True 1 show ?thesis
      by (cases "bench_iteration rt et conf ws s") (simp_all add: bench_loop.simps [of rt et conf ws i])
  next
    case False
    then show ?thesis by (simp add: bench_loop.simps [of rt et conf ws i] word_less_nat_alt)
  qed
qed

lemma iterate_invariant:
  assumes "\<And>s. I s \<Longrightarrow> \<exists>s'. f s = Ret s' \<and> I s' \<and> R s s'"
  shows "I s \<Longrightarrow> \<exists>ss. length ss = Suc k \<and> hd ss = s \<and> iterate k f s = Ret (last ss) \<and> I (last ss) \<and>
    (\<forall>i < k. R (ss ! i) (ss ! Suc i))"
proof (induction k arbitrary: s)
  case 0
  then show ?case by (intro exI [of _ "[s]"]) simp
next
  case (Suc k)
  obtain s1 where 1: "f s = Ret s1" "I s1" "R s s1" using assms [OF Suc.prems] by blast
  obtain ss where ss: "length ss = Suc k" "hd ss = s1" "iterate k f s1 = Ret (last ss)" "I (last ss)"
    "\<forall>i < k. R (ss ! i) (ss ! Suc i)"
    using Suc.IH [OF 1(2)] by blast
  then have "ss ! 0 = s1" by (metis hd_conv_nth list.size(3) nat.distinct(1))
  then have "R ((s # ss) ! i) ((s # ss) ! Suc i)" if "i < Suc k" for i
    using that ss(5) 1(3) by (cases i) auto
  with ss 1(1) show ?case
    by (intro exI [of _ "s # ss"]) (auto simp: last_ConsR [of ss])
qed

text \<open>How an iteration changes the points and the error text.\<close>

definition iteration_adds ::
  "(goerr \<Rightarrow> string) \<Rightarrow> ('c, 'w, 't) bench_state \<Rightarrow> ('c, 'w, 't) bench_state \<Rightarrow> string list \<Rightarrow> bool" where
  "iteration_adds et s s' ns \<longleftrightarrow>
     point_names (b_points s') = point_names (b_points s) @ ns \<and> ns \<in> iteration_names \<and>
     (if ns = [''write'', ''read''] then res_Err (b_result s') = []
      else \<exists>e. res_Err (b_result s') = et e)"

lemmas iteration_names_simps = iteration_adds_def iteration_names_def point_names_def

context operation_pair begin

lemma bench_iteration_ok:
  assumes conf: "WriteOp conf = wop" "ReadOp conf = rop" and s: "bench_ok ready s"
  shows "\<exists>s'. bench_iteration rt et conf ws s = Ret s' \<and> bench_ok ready s' \<and>
    (\<exists>ns. iteration_adds et s s' ns)"
proof -
  let ?s = "s\<lparr>b_result := (b_result s)\<lparr>res_Err := []\<rparr>\<rparr>"
  have "bench_ok ready ?s" using s by (simp add: bench_ok_def)
  then obtain s1 where
    1: "measured rt et ws ''write'' (in_span rt (OperationType conf) wop) ?s = Ret s1" "bench_ok ready s1"
    and c1: "(\<exists>e. res_Err (b_result s1) = et e \<and> b_points s1 = b_points s) \<or>
      (\<exists>d t. res_Err (b_result s1) = [] \<and> b_points s1 = b_points s @ [(''write'', d, t)])"
    using writing.measured_step [of ?s rt et ws "''write''" "OperationType conf"] by auto
  obtain s2 where
    2: "measured rt et ws ''read'' (in_span rt (OperationType conf) rop) s1 = Ret s2" "bench_ok ready s2"
    and c2: "(\<exists>e. res_Err (b_result s2) = et e \<and> b_points s2 = b_points s1) \<or>
      (\<exists>d t. res_Err (b_result s2) = res_Err (b_result s1) \<and> b_points s2 = b_points s1 @ [(''read'', d, t)])"
    using reading.measured_step [OF 1(2), of rt et ws "''read''" "OperationType conf"] by auto
  let ?s' = "s2\<lparr>b_world := Sleep rt (OperationPeriod conf) (b_world s2)\<rparr>"
  have "bench_iteration rt et conf ws s = Ret ?s'" using 1(1) 2(1) by (simp add: bench_iteration_def conf)
  moreover have "bench_ok ready ?s'" using 2(2) by (simp add: bench_ok_def)
  moreover have "\<exists>ns. iteration_adds et s ?s' ns"
    using c1 c2
  proof (elim disjE exE conjE)
    fix e e' assume "b_points s1 = b_points s" "res_Err (b_result s2) = et e'" "b_points s2 = b_points s1"
    then have "iteration_adds et s ?s' []" by (simp add: iteration_names_simps) blast
    then show ?thesis by blast
  next
    fix e d t assume "b_points s1 = b_points s" "res_Err (b_result s1) = et e"
      "res_Err (b_result s2) = res_Err (b_result s1)" "b_points s2 = b_points s1 @ [(''read'', d, t)]"
    then have "iteration_adds et s ?s' [''read'']" by (simp add: iteration_names_simps) blast
    then show ?thesis by blast
  next
    fix e d t assume "b_points s1 = b_points s @ [(''write'', d, t)]" "res_Err (b_result s2) = et e"
      "b_points s2 = b_points s1"
    then have "iteration_adds et s ?s' [''write'']" by (simp add: iteration_names_simps) blast
    then show ?thesis by blast
  next
    fix d t d' t' assume "b_points s1 = b_points s @ [(''write'', d, t)]" "res_Err (b_result s1) = []"
      "res_Err (b_result s2) = res_Err (b_result s1)" "b_points s2 = b_points s1 @ [(''read'', d', t')]"
    then have "iteration_adds et s ?s' [''write'', ''read'']" by (simp add: iteration_names_simps)
    then show ?thesis by blast
  qed
  ultimately show ?thesis by blast
qed

text \<open>
  The states of a benchmark, one before each iteration and one after the last: the first is that
  of an empty result, each iteration is the code's and leads from one to the next.
\<close>

lemma BenchOperation_run:
  assumes conf: "WriteOp conf = wop" "ReadOp conf = rop"
    and c: "ready (OperationConfig conf)" and p: "0 < sint (OperationPeriod conf)"
    and d: "Rand_Int63n rt (OperationPeriod conf) w = (d, w1)" and t: "Now rt (Sleep rt d w1) = (t, w2)"
  shows "\<exists>ss. length ss = Suc (unat (OperationsPerStream conf)) \<and>
    ss ! 0 = \<lparr>b_result = \<lparr>res_Elapsed = 0, res_Err = [], res_Min = MaxDuration, res_Max = 0, res_AvgTotal = 0,
        res_Start = UnixNano rt t\<rparr>, b_points = [], b_config = OperationConfig conf, b_world = w2\<rparr> \<and>
    (\<forall>i < unat (OperationsPerStream conf). bench_iteration rt et conf t (ss ! i) = Ret (ss ! Suc i) \<and>
      (\<exists>ns. iteration_adds et (ss ! i) (ss ! Suc i) ns)) \<and>
    BenchOperation rt et conf w = Ret (None, ss ! unat (OperationsPerStream conf)) \<and>
    bench_ok ready (ss ! unat (OperationsPerStream conf))"
proof -
  let ?n = "unat (OperationsPerStream conf)"
  let ?r = "\<lparr>res_Elapsed = 0, res_Err = [], res_Min = MaxDuration, res_Max = 0,
    res_AvgTotal = 0, res_Start = UnixNano rt t\<rparr>"
  let ?s = "\<lparr>b_result = ?r, b_points = [], b_config = OperationConfig conf, b_world = w2\<rparr>"
  let ?R = "\<lambda>s s'. bench_iteration rt et conf t s = Ret s' \<and> (\<exists>ns. iteration_adds et s s' ns)"
  have "\<exists>s'. bench_iteration rt et conf t s = Ret s' \<and> bench_ok ready s' \<and> ?R s s'" if "bench_ok ready s" for s
    using bench_iteration_ok [OF conf that, of rt et t] by blast
  moreover have "bench_ok ready ?s" using c by (simp add: bench_ok_def summarises_def durations_def)
  ultimately obtain ss where ss: "length ss = Suc ?n" "hd ss = ?s"
    "iterate ?n (bench_iteration rt et conf t) ?s = Ret (last ss)" "bench_ok ready (last ss)"
    "\<forall>i < ?n. ?R (ss ! i) (ss ! Suc i)"
    using iterate_invariant [of "bench_ok ready" "bench_iteration rt et conf t" ?R ?s ?n] by blast
  have "ss \<noteq> []" using ss(1) by auto
  then have "last ss = ss ! ?n" "ss ! 0 = ?s"
    using ss(1,2) by (simp add: last_conv_nth, metis hd_conv_nth)
  moreover have "BenchOperation rt et conf w = Ret (None, last ss)"
    using p d t ss(3) by (simp add: BenchOperation_def Int63n_def Let_def bench_loop_iterate)
  ultimately show ?thesis using ss(1,4,5) by (intro exI [of _ ss] conjI) simp_all
qed

lemma BenchOperation_ok:
  assumes "WriteOp conf = wop" "ReadOp conf = rop"
    and "ready (OperationConfig conf)" and "0 < sint (OperationPeriod conf)"
  shows "\<exists>s. BenchOperation rt et conf w = Ret (None, s)"
proof -
  obtain d w1 where d: "Rand_Int63n rt (OperationPeriod conf) w = (d, w1)" by fastforce
  obtain t w2 where t: "Now rt (Sleep rt d w1) = (t, w2)" by fastforce
  from BenchOperation_run [OF assms d t] show ?thesis by blast
qed

end

subsection \<open>What a benchmark keeps of the world\<close>

text \<open>
  A property of the configuration, the world and the measurements so far that every call of the
  benchmark keeps, an operation that succeeds adding its measurement, holds at the end.
\<close>

definition keeps ::
  "('c \<Rightarrow> 'w \<Rightarrow> string list \<Rightarrow> bool) \<Rightarrow> string \<Rightarrow> ('c, 'w) ChaincodeOperation \<Rightarrow> bool" where
  "keeps kept name oper \<longleftrightarrow>
     (\<forall>c w ns e c' w'. kept c w ns \<longrightarrow> oper c w = (Ret e, c', w') \<longrightarrow>
        kept c' w' (if e = None then ns @ [name] else ns))"

definition state_inv ::
  "('c \<Rightarrow> 'w \<Rightarrow> string list \<Rightarrow> bool) \<Rightarrow> ('c, 'w, 't) bench_state \<Rightarrow> bool" where
  "state_inv kept s \<longleftrightarrow> kept (b_config s) (b_world s) (point_names (b_points s))"

lemma keepsD: "keeps kept name oper \<Longrightarrow> kept c w ns \<Longrightarrow> oper c w = (Ret e, c', w') \<Longrightarrow>
    kept c' w' (if e = None then ns @ [name] else ns)"
  unfolding keeps_def by blast

locale bench_invariant =
  fixes rt :: "('t, 'w) runtime" and conf :: "('c, 'w) WorkerConfig"
    and kept :: "'c \<Rightarrow> 'w \<Rightarrow> string list \<Rightarrow> bool"
  assumes inv_now: "kept c w ns \<Longrightarrow> kept c (snd (Now rt w)) ns"
    and inv_since: "kept c w ns \<Longrightarrow> kept c (snd (Since rt t w)) ns"
    and inv_rand: "kept c w ns \<Longrightarrow> kept c (snd (Rand_Int63n rt d w)) ns"
    and inv_sleep: "kept c w ns \<Longrightarrow> kept c (Sleep rt d w) ns"
    and inv_start: "kept c w ns \<Longrightarrow> kept c (snd (Start_span rt n w)) ns"
    and inv_finish: "kept c w ns \<Longrightarrow> kept c (Finish_span rt w) ns"
    and inv_write: "kept c w ns \<Longrightarrow> WriteOp conf c w = (Ret e, c', w') \<Longrightarrow>
      kept c' w' (if e = None then ns @ [''write''] else ns)"
    and inv_read: "kept c w ns \<Longrightarrow> ReadOp conf c w = (Ret e, c', w') \<Longrightarrow>
      kept c' w' (if e = None then ns @ [''read''] else ns)"
begin

lemma keeps_operations: "keeps kept ''write'' (WriteOp conf)" "keeps kept ''read'' (ReadOp conf)"
  unfolding keeps_def using inv_write inv_read by blast+

lemma keeps_in_span:
  assumes "keeps kept name oper"
  shows "keeps kept name (in_span rt n oper)"
  unfolding keeps_def
proof (intro allI impI)
  fix c w ns e c' w' assume i: "kept c w ns" and call: "in_span rt n oper c w = (Ret e, c', w')"
  obtain b w1 where b: "Start_span rt n w = (b, w1)" by fastforce
  have i1: "kept c w1 ns" using inv_start [OF i, of n] b by simp
  show "kept c' w' (if e = None then ns @ [name] else ns)"
  proof (cases b)
    case True
    obtain r c2 w2 where o: "oper c w1 = (r, c2, w2)" by (metis surj_pair)
    with call b True have "r = Ret e" "c' = c2" "w' = Finish_span rt w2" by (simp_all add: in_span_def)
    with keepsD [OF assms i1, of e c2 w2] o show ?thesis by (simp add: inv_finish)
  next
    case False
    with call b i1 show ?thesis by (auto simp: in_span_def)
  qed
qed

lemma measured_inv:
  assumes k: "keeps kept name func" and s: "state_inv kept s" and m: "measured rt et ws name func s = Ret s'"
  shows "state_inv kept s'"
proof -
  obtain t w where now: "Now rt (b_world s) = (t, w)" by fastforce
  have i: "kept (b_config s) w (point_names (b_points s))"
    using inv_now [of "b_config s" "b_world s"] s now by (simp add: state_inv_def)
  obtain r c' w' where call: "func (b_config s) w = (r, c', w')" by (metis surj_pair)
  with m now obtain e where r: "r = Ret e" by (cases r) (auto simp: measured_def)
  note i' = keepsD [OF k i call [unfolded r]]
  show ?thesis
  proof (cases e)
    case None
    obtain d w1 where 1: "Since rt t w' = (d, w1)" by fastforce
    obtain total w2 where 2: "Since rt ws w1 = (total, w2)" by fastforce
    have "kept c' w2 (point_names (b_points s) @ [name])"
      using i' None inv_since [of c' w' _ t] inv_since [of c' w1 _ ws] 1 2 by simp
    with m now call r None 1 2 show ?thesis
      by (auto simp: measured_def state_inv_def point_names_def)
  next
    case (Some x)
    with m now call r i' show ?thesis by (auto simp: measured_def state_inv_def)
  qed
qed

lemma bench_iteration_inv:
  assumes "state_inv kept s" and "bench_iteration rt et conf ws s = Ret s'"
  shows "state_inv kept s'"
proof -
  obtain s1 s2 where 1: "measured rt et ws ''write'' (in_span rt (OperationType conf) (WriteOp conf))
      (s\<lparr>b_result := (b_result s)\<lparr>res_Err := []\<rparr>\<rparr>) = Ret s1"
    and 2: "measured rt et ws ''read'' (in_span rt (OperationType conf) (ReadOp conf)) s1 = Ret s2"
    and s': "s' = s2\<lparr>b_world := Sleep rt (OperationPeriod conf) (b_world s2)\<rparr>"
    using assms(2) by (auto simp: bench_iteration_def)
  have "state_inv kept (s\<lparr>b_result := r\<rparr>)" for r using assms(1) by (simp add: state_inv_def)
  from measured_inv [OF keeps_in_span [OF keeps_operations(1)] this 1]
  have "state_inv kept s2" by (rule measured_inv [OF keeps_in_span [OF keeps_operations(2)] _ 2])
  then show ?thesis by (simp add: s' state_inv_def inv_sleep)
qed

lemma BenchOperation_inv:
  assumes "kept (OperationConfig conf) w []" and "BenchOperation rt et conf w = Ret (e, s)"
  shows "kept (b_config s) (b_world s) (point_names (b_points s))"
proof -
  have iter: "iterate k (bench_iteration rt et conf ws) s = Ret s' \<Longrightarrow> state_inv kept s \<Longrightarrow> state_inv kept s'" for k ws s s'
    by (induction k arbitrary: s) (auto dest: bench_iteration_inv)
  obtain d w1 where d: "Rand_Int63n rt (OperationPeriod conf) w = (d, w1)" by fastforce
  obtain t w2 where t: "Now rt (Sleep rt d w1) = (t, w2)" by fastforce
  have "kept (OperationConfig conf) w2 []"
    using inv_now [OF inv_sleep [OF inv_rand [OF assms(1), of "OperationPeriod conf"], of d]] d t by simp
  then have start: "state_inv kept \<lparr>b_result = r, b_points = [], b_config = OperationConfig conf, b_world = w2\<rparr>" for r
    by (simp add: state_inv_def point_names_def)
  have "state_inv kept s"
    using assms(2) d t iter [OF _ start]
    by (auto simp: BenchOperation_def Int63n_def Let_def bench_loop_iterate split: if_splits)
  then show ?thesis by (simp add: state_inv_def)
qed

end

text \<open>
  With an operation period that is not positive (a missing \<open>operationPeriod\<close> is zero, and no
  loading step checks it) the benchmark panics at once, in \<open>rand.Int63n\<close>.
\<close>

theorem nonpositive_period_panics:
  assumes "sint (OperationPeriod conf) \<le> 0"
  shows "BenchOperation rt et conf w = Panic ''invalid argument to Int63n''"
  using assms by (simp add: BenchOperation_def Int63n_def)

theorem nonpositive_period_panics_witness:
  "\<forall>(conf :: (unit, unit) WorkerConfig) (rt :: (unit, unit) runtime).
    BenchOperation rt (\<lambda>_. []) (conf\<lparr>OperationPeriod := 0\<rparr>) () = Panic ''invalid argument to Int63n''"
  by (intro allI nonpositive_period_panics) simp

end
