(* ===== verification/CCWorker.thy ===== *)
theory CCWorker
  imports Bench Strconv
begin

section \<open>The chaincode worker (chaincodes: common.go, read.go, write.go)\<close>

text \<open>
  \<open>CCWorker\<close> calls the chaincode by running \<open>kubectl hlf chaincode\<close>. The model has its set-up
  (\<open>SetupSimi\<close> with the init and shutdown functions it installs, \<open>SetupReadOp\<close>, \<open>SetupWriteOp\<close>),
  the choice of a peer, the command line and the two operations. Files, YAML, random numbers,
  UUIDs, the running of a command and the global log level are the fields of \<open>host\<close>: they read
  and change the world \<open>'w\<close>. The operation configuration is an \<open>any\<close> in Go; \<open>CC None\<close> is the nil
  \<open>*CCWorker\<close>. \<open>chaincode_operation\<close> is what a benchmark relies on in an operation; it is
  interpreted on both operations here.
\<close>

subsection \<open>State and surroundings\<close>

record CCWorker =
  ChaincodeID :: string
  Username :: string
  Org :: string
  LogLevel :: string
  Id :: string
  Counter :: go_int

datatype 'x operation_config = CC "CCWorker option" | Other 'x

text \<open>The log levels \<open>read.go\<close> and \<open>write.go\<close> name, and the others.\<close>

datatype log_level = InfoLevel | DebugLevel | OtherLevel nat

text \<open>
  \<open>Unmarshal_peers\<close> gives the peers and their URLs in the order in which \<open>range\<close> visits the map.
  \<open>RunCommand\<close> is \<open>exec.Command(name, args...).CombinedOutput()\<close>; \<open>New_uuid\<close> is
  \<open>uuid.New().String()\<close>, which panics (\<open>None\<close>) without a source of random numbers.
\<close>

record ('f, 'w) host =
  Open_file :: "string \<Rightarrow> 'w \<Rightarrow> 'f res \<times> 'w"
  ReadAll :: "'f \<Rightarrow> 'w \<Rightarrow> string res \<times> 'w"
  Unmarshal_peers :: "string \<Rightarrow> 'w \<Rightarrow> (string \<times> string) list res \<times> 'w"
  Rand_Int :: "nat \<Rightarrow> 'w \<Rightarrow> nat res \<times> 'w"
  New_uuid :: "'w \<Rightarrow> string option \<times> 'w"
  RunCommand :: "string \<Rightarrow> string list \<Rightarrow> 'w \<Rightarrow> (string \<times> goerr option) \<times> 'w"
  ParseLevel :: "string \<Rightarrow> log_level res"
  SetLevel :: "log_level \<Rightarrow> 'w \<Rightarrow> 'w"

definition channelID :: string where
  "channelID = ''firstchannel''"

definition sdkConfigPath :: string where
  "sdkConfigPath = ''/fabric-config/fabric-config.yaml''"

definition nil_pointer :: string where
  "nil_pointer = ''invalid memory address or nil pointer dereference''"

subsection \<open>Choosing a user and a peer\<close>

text \<open>
  \<open>sdkUser\<close>: \<open>conf\<close> is the result of \<open>sdk.Config()\<close>, \<open>lookup\<close> its method \<open>Lookup\<close>, and \<open>as_map\<close>
  the assertion that a value is a map, with the names in the order \<open>range\<close> visits them.
\<close>

definition sdkUser ::
  "'conf res \<Rightarrow> ('conf \<Rightarrow> string \<Rightarrow> 'v option) \<Rightarrow> ('v \<Rightarrow> (string \<times> 'y) list option) \<Rightarrow> string \<Rightarrow> string res" where
  "sdkUser conf lookup as_map org =
     (case conf of
        Inl err \<Rightarrow> Inl (Wrap ''failed to load sdk config: '' err)
      | Inr conf \<Rightarrow>
          (case lookup conf (''organizations.'' @ org @ ''.users'') of
             None \<Rightarrow> Inl (Err ''organization users not found'')
           | Some users \<Rightarrow>
               (case as_map users of
                  None \<Rightarrow> Inl (Err ''organization users was not a map'')
                | Some fabUsers \<Rightarrow>
                    (case fabUsers of
                       [] \<Rightarrow> Inl (Err ''users map empty'')
                     | (user, _) # _ \<Rightarrow>
                         if user = [] then Inl (Err ''empty user found in sdk config'')
                         else Inr user))))"

definition randomPeer :: "('f, 'w) host \<Rightarrow> 'w \<Rightarrow> string res outcome \<times> 'w" where
  "randomPeer h w =
     (case Open_file h sdkConfigPath w of
        (Inl err, w) \<Rightarrow> (Ret (Inl (Wrap ''failed to open fabric config: '' err)), w)
      | (Inr f, w) \<Rightarrow>
          (case ReadAll h f w of
             (Inl err, w) \<Rightarrow> (Ret (Inl (Wrap ''failed to read fabric config: '' err)), w)
           | (Inr data, w) \<Rightarrow>
               (case Unmarshal_peers h data w of
                  (Inl err, w) \<Rightarrow> (Ret (Inl (Wrap ''failed to parse fabric config: '' err)), w)
                | (Inr peers, w) \<Rightarrow>
                    if peers = [] then (Ret (Inl (Err ''no peers found in config'')), w)
                    else
                      let keys = map fst peers in
                      (case Rand_Int h (length keys) w of
                         (Inl err, w) \<Rightarrow> (Ret (Inl (Wrap ''failed to pick random peer: '' err)), w)
                       | (Inr n, w) \<Rightarrow>
                           if n < length keys then (Ret (Inr (keys ! n)), w)
                           else (Panic ''index out of range'', w)))))"

subsection \<open>The command line\<close>

definition cli_arguments :: "CCWorker \<Rightarrow> string \<Rightarrow> string \<Rightarrow> string \<Rightarrow> string list \<Rightarrow> string list" where
  "cli_arguments a verb fcn peer args =
     [''hlf'', ''chaincode'', verb, ''--config=/fabric-config/fabric-config.yaml'', ''--user=admin'',
      ''--peer='' @ peer, ''--chaincode='' @ ChaincodeID a, ''--channel='' @ channelID, ''--fcn='' @ fcn]
     @ concat (map (\<lambda>argString. [''-a'', argString]) args)"

definition invokeChaincodeCli ::
  "('f, 'w) host \<Rightarrow> CCWorker \<Rightarrow> string \<Rightarrow> string \<Rightarrow> string list \<Rightarrow> 'w \<Rightarrow>
   (string \<times> goerr option) outcome \<times> 'w" where
  "invokeChaincodeCli h a verb fcn args w =
     (case randomPeer h w of
        (Fatal e, w) \<Rightarrow> (Fatal e, w)
      | (Panic t, w) \<Rightarrow> (Panic t, w)
      | (Ret (Inl err), w) \<Rightarrow> (Ret ([], Some err), w)
      | (Ret (Inr peer), w) \<Rightarrow>
          let cmdArgs = cli_arguments a verb fcn peer args in
          (case RunCommand h ''kubectl'' cmdArgs w of
             ((outputString, Some err), w) \<Rightarrow>
               (Ret (peer, Some (WrapIn ''HLF CLI invocation failed: '' err ('', output: '' @ outputString))), w)
           | ((outputString, None), w) \<Rightarrow> (Ret (peer, None), w)))"

subsection \<open>Read and write\<close>

text \<open>\<open>log.SetLevel\<close> of the worker's level; a level that does not parse becomes \<open>DebugLevel\<close>.\<close>

definition apply_log_level :: "('f, 'w) host \<Rightarrow> CCWorker \<Rightarrow> 'w \<Rightarrow> 'w" where
  "apply_log_level h a w =
     SetLevel h (case ParseLevel h (LogLevel a) of Inl _ \<Rightarrow> DebugLevel | Inr l \<Rightarrow> l) w"

definition readKey :: "('f, 'w) host \<Rightarrow> CCWorker \<Rightarrow> 'w \<Rightarrow> goerr option outcome \<times> 'w" where
  "readKey h a w =
     (case invokeChaincodeCli h a ''query'' ''experimentRead'' [Id a] w of
        (res, w') \<Rightarrow>
          (outcome_bind res (\<lambda>(peer, err).
             case err of
               None \<Rightarrow> Ret None
             | Some _ \<Rightarrow> Ret (Some (Err ''failed to execute experimentRead function''))), w'))"

definition CallReadFunc :: "('f, 'w) host \<Rightarrow> CCWorker \<Rightarrow> 'w \<Rightarrow> goerr option outcome \<times> 'w" where
  "CallReadFunc h a w =
     (case readKey h a (apply_log_level h a w) of
        (res, w') \<Rightarrow>
          (outcome_bind res (\<lambda>errIncrement.
             Ret (map_option (Wrap ''failed to increment key: '') errIncrement)), w'))"

text \<open>\<open>strings.Repeat("a", n)\<close>, which panics on a negative count.\<close>

definition Repeat_a :: "go_int \<Rightarrow> string outcome" where
  "Repeat_a n =
     (if sint n < 0 then Panic ''strings: negative Repeat count''
      else Ret (replicate (nat (sint n)) CHR ''a''))"

definition writeKey ::
  "('f, 'w) host \<Rightarrow> go_int \<Rightarrow> CCWorker \<Rightarrow> 'w \<Rightarrow> goerr option outcome \<times> CCWorker \<times> 'w" where
  "writeKey h dataSizeBytes a w =
     (case Repeat_a dataSizeBytes of
        Fatal e \<Rightarrow> (Fatal e, a, w)
      | Panic t \<Rightarrow> (Panic t, a, w)
      | Ret data \<Rightarrow>
          (case invokeChaincodeCli h a ''invoke'' ''experimentWrite'' [Id a, Itoa (Counter a), data] w of
             (Fatal e, w') \<Rightarrow> (Fatal e, a, w')
           | (Panic t, w') \<Rightarrow> (Panic t, a, w')
           | (Ret (peer, None), w') \<Rightarrow> (Ret None, a\<lparr>Counter := Counter a + 1\<rparr>, w')
           | (Ret (peer, Some err), w') \<Rightarrow>
               (Ret (Some (Err ''failed to execute experimentWrite function'')), a, w')))"

definition CallWriteFunc ::
  "('f, 'w) host \<Rightarrow> go_int \<Rightarrow> CCWorker \<Rightarrow> 'w \<Rightarrow> goerr option outcome \<times> CCWorker \<times> 'w" where
  "CallWriteFunc h dataSizeBytes a w =
     (case writeKey h dataSizeBytes a (apply_log_level h a w) of
        (res, a', w') \<Rightarrow>
          (outcome_bind res (\<lambda>errIncrement.
             Ret (map_option (Wrap ''failed to write key: '') errIncrement)), a', w'))"

subsection \<open>Setting up the operations\<close>

text \<open>
  The functions the set-up stores in the configuration. In Go they are closures over the
  configuration; nothing changes its operation type and data size after the set-up, so they take
  the values these fields have then.
\<close>

definition invalid_input :: goerr where
  "invalid_input = Err ''invalid input: expected a CCWorker''"

definition read_operation ::
  "('f, 'w) host \<Rightarrow> ('x operation_config, 'w) ChaincodeOperation" where
  "read_operation h c w =
     (case c of
        Other x \<Rightarrow> (Ret (Some invalid_input), c, w)
      | CC None \<Rightarrow> (Panic nil_pointer, c, w)
      | CC (Some a) \<Rightarrow> (case CallReadFunc h a w of (res, w') \<Rightarrow> (res, c, w')))"

definition write_operation ::
  "('f, 'w) host \<Rightarrow> go_int \<Rightarrow> ('x operation_config, 'w) ChaincodeOperation" where
  "write_operation h dataSizeBytes c w =
     (case c of
        Other x \<Rightarrow> (Ret (Some invalid_input), c, w)
      | CC None \<Rightarrow> (Panic nil_pointer, c, w)
      | CC (Some a) \<Rightarrow>
          (case CallWriteFunc h dataSizeBytes a w of (res, a', w') \<Rightarrow> (res, CC (Some a'), w')))"

definition SetupReadOp ::
  "('f, 'w) host \<Rightarrow> ('x operation_config, 'w) WorkerConfig \<Rightarrow>
   goerr option \<times> ('x operation_config, 'w) WorkerConfig" where
  "SetupReadOp h c = (None, c\<lparr>ReadOp := read_operation h\<rparr>)"

definition SetupWriteOp ::
  "('f, 'w) host \<Rightarrow> ('x operation_config, 'w) WorkerConfig \<Rightarrow>
   goerr option \<times> ('x operation_config, 'w) WorkerConfig" where
  "SetupWriteOp h c = (None, c\<lparr>WriteOp := write_operation h (DataSizeBytes c)\<rparr>)"

definition setupCCWorker :: "CCWorker option \<Rightarrow> goerr option" where
  "setupCCWorker a = None"

definition Close_CCWorker :: "CCWorker option \<Rightarrow> 'w \<Rightarrow> 'w" where
  "Close_CCWorker a w = w"

text \<open>Go's \<open>%\<close> on \<open>int\<close>: truncated towards zero, with a panic for a zero divisor.\<close>

definition go_rem :: "go_int \<Rightarrow> go_int \<Rightarrow> go_int outcome" where
  "go_rem a b =
     (if b = 0 then Panic ''integer divide by zero'' else Ret (word_of_int (sint a smod sint b)))"

text \<open>The identifier a read worker gets, from \<open>strconv.Atoi(worker.Id)\<close>.\<close>

definition reader_id :: "go_int \<Rightarrow> string \<Rightarrow> string outcome" where
  "reader_id numWriters i =
     (case Atoi i of
        Inl err \<Rightarrow> Fatal (Err ''Failed tp parse ID'')
      | Inr idInt \<Rightarrow> outcome_bind (go_rem idInt numWriters) (\<lambda>newId. Ret (Itoa newId)))"

definition init_worker ::
  "('f, 'w) host \<Rightarrow> string \<Rightarrow> go_int \<Rightarrow> ('x operation_config, 'w) InitializeWorker" where
  "init_worker h operationType numWriters i c w =
     (case c of
        Other x \<Rightarrow> (Ret ([], Some invalid_input), c, w)
      | CC worker \<Rightarrow>
          (case setupCCWorker worker of
             Some err \<Rightarrow> (Ret ([], Some err), c, w)
           | None \<Rightarrow>
               let renamed =
                 (if operationType = ''read'' then
                    (case worker of
                       None \<Rightarrow> Panic nil_pointer
                     | Some a \<Rightarrow>
                         outcome_bind (reader_id numWriters (Id a)) (\<lambda>newId. Ret (Some (a\<lparr>Id := newId\<rparr>))))
                  else Ret worker)
               in case renamed of
                    Fatal e \<Rightarrow> (Fatal e, c, w)
                  | Panic t \<Rightarrow> (Panic t, c, w)
                  | Ret worker' \<Rightarrow>
                      (case New_uuid h w of
                         (None, w') \<Rightarrow> (Panic ''uuid'', CC worker', w')
                       | (Some u, w') \<Rightarrow> (Ret (u, None), CC worker', w'))))"

definition shutdown_worker :: "('x operation_config, 'w) ShutdownWorker" where
  "shutdown_worker c w =
     (case c of Other x \<Rightarrow> (c, w) | CC worker \<Rightarrow> (c, Close_CCWorker worker w))"

text \<open>
  \<open>SetupSimi\<close> decodes the operation configuration into a worker with \<open>mapstructure\<close>, which gets
  the options of \<open>simi_decoder\<close>; of these the matching of a key with a field is the program's
  own function, over \<open>strcase.ToSnake\<close>. \<open>NewDecoder\<close> gives the error, if any, and \<open>Decode\<close> the
  worker (\<open>None\<close> is the nil pointer). \<open>CCWorker_fields\<close> are the fields of the struct with their
  \<open>yaml\<close> tags; the name a field has for the decoder is the tag, or the field's own name without
  one.
\<close>

record decoder_config =
  WeaklyTypedInput :: bool
  TagName :: string
  MatchName :: "string \<Rightarrow> string \<Rightarrow> bool"

record 'x mapstructure =
  ToSnake :: "string \<Rightarrow> string"
  NewDecoder :: "decoder_config \<Rightarrow> goerr option"
  Decode :: "decoder_config \<Rightarrow> 'x operation_config \<Rightarrow> CCWorker option res"

definition simi_decoder :: "(string \<Rightarrow> string) \<Rightarrow> decoder_config" where
  "simi_decoder to_snake =
     \<lparr>WeaklyTypedInput = True, TagName = ''yaml'',
      MatchName = \<lambda>mapKey fieldName. to_snake mapKey = fieldName\<rparr>"

definition CCWorker_fields :: "(string \<times> string option \<times> (CCWorker \<Rightarrow> string)) list" where
  "CCWorker_fields =
     [(''ChaincodeID'', Some ''chaincodeID'', ChaincodeID), (''Username'', Some ''username'', Username),
      (''Org'', Some ''org'', Org), (''LogLevel'', Some ''logLevel'', LogLevel), (''Id'', None, Id)]"

definition field_key :: "string \<times> string option \<times> (CCWorker \<Rightarrow> string) \<Rightarrow> string" where
  "field_key f = (case f of (name, tag, _) \<Rightarrow> case tag of Some t \<Rightarrow> t | None \<Rightarrow> name)"

definition SetupSimi ::
  "('f, 'w) host \<Rightarrow> 'x mapstructure \<Rightarrow> go_int \<Rightarrow>
   ('x operation_config, 'w) WorkerConfig \<Rightarrow> goerr option \<times> ('x operation_config, 'w) WorkerConfig" where
  "SetupSimi h ms numWriters c =
     (let cfg = simi_decoder (ToSnake ms) in
      case NewDecoder ms cfg of
        Some err \<Rightarrow> (Some err, c)
      | None \<Rightarrow>
          (case Decode ms cfg (OperationConfig c) of
             Inl err \<Rightarrow> (Some err, c)
           | Inr worker \<Rightarrow>
               (None, c\<lparr>OperationConfig := CC worker,
                        InitFunc := init_worker h (OperationType c) numWriters,
                        ShutdownFunc := Some shutdown_worker\<rparr>)))"

text \<open>
  What the two libraries document: a string field that no key of the map names or matches stays
  empty, and \<open>ToSnake\<close> gives a text without upper case letters. \<open>keys\<close> are the keys of the
  operation configuration.
\<close>

definition decode_law :: "'x mapstructure \<Rightarrow> ('x operation_config \<Rightarrow> string set) \<Rightarrow> bool" where
  "decode_law ms keys \<longleftrightarrow>
     (\<forall>s. \<forall>x \<in> set (ToSnake ms s). \<not> (65 \<le> byte x \<and> byte x \<le> 90)) \<and>
     (\<forall>cfg raw a. Decode ms cfg raw = Inr (Some a) \<longrightarrow>
        (\<forall>f \<in> set CCWorker_fields.
           (\<forall>k \<in> keys raw. k \<noteq> field_key f \<and> \<not> MatchName cfg k (field_key f)) \<longrightarrow> snd (snd f) a = []))"

text \<open>Without a key \<open>Id\<close> the worker has no identifier: the field has no tag, and no key in snake case is \<open>Id\<close>.\<close>

lemma decode_unset:
  assumes "decode_law ms keys" and "Decode ms cfg raw = Inr (Some a)" and "f \<in> set CCWorker_fields"
    and "\<And>k. k \<in> keys raw \<Longrightarrow> k \<noteq> field_key f \<and> \<not> MatchName cfg k (field_key f)"
  shows "snd (snd f) a = []"
  using assms unfolding decode_law_def by blast

lemma snake_not_Id:
  assumes "decode_law ms keys"
  shows "ToSnake ms k \<noteq> ''Id''"
proof
  assume "ToSnake ms k = ''Id''"
  then have "CHR ''I'' \<in> set (ToSnake ms k)" by simp
  with assms have "\<not> (65 \<le> byte CHR ''I'' \<and> byte CHR ''I'' \<le> 90)" unfolding decode_law_def by blast
  then show False by simp
qed

lemma decode_no_Id:
  assumes "decode_law ms keys" and "Decode ms (simi_decoder (ToSnake ms)) raw = Inr (Some a)"
    and "''Id'' \<notin> keys raw"
  shows "Id a = []"
proof -
  let ?f = "(''Id'', None, Id) :: string \<times> string option \<times> (CCWorker \<Rightarrow> string)"
  have "snd (snd ?f) a = []"
  proof (rule decode_unset [OF assms(1,2)])
    show "?f \<in> set CCWorker_fields" by (simp add: CCWorker_fields_def)
    fix k assume "k \<in> keys raw"
    with assms(3) have "k \<noteq> ''Id''" by auto
    with snake_not_Id [OF assms(1), of k]
    show "k \<noteq> field_key ?f \<and> \<not> MatchName (simi_decoder (ToSnake ms)) k (field_key ?f)"
      by (simp add: field_key_def simi_decoder_def)
  qed
  then show ?thesis by simp
qed

subsection \<open>Peers\<close>

text \<open>\<open>rand.Int(rand.Reader, max)\<close> gives, as documented, a number below \<open>max\<close>.\<close>

definition rand_law :: "('f, 'w) host \<Rightarrow> bool" where
  "rand_law h \<longleftrightarrow> (\<forall>n w k w'. Rand_Int h n w = (Inr k, w') \<longrightarrow> k < n)"

lemma rand_less: "rand_law h \<Longrightarrow> Rand_Int h n w = (Inr k, w') \<Longrightarrow> k < n"
  by (auto simp: rand_law_def)

lemma randomPeer_returns:
  assumes "rand_law h"
  shows "\<exists>r w'. randomPeer h w = (Ret r, w')"
  using rand_less [OF assms]
  by (fastforce simp: randomPeer_def Let_def split: prod.splits sum.splits)

lemma invokeChaincodeCli_returns:
  assumes "rand_law h"
  shows "\<exists>r w'. invokeChaincodeCli h a verb fcn args w = (Ret r, w')"
proof -
  obtain r w1 where "randomPeer h w = (Ret r, w1)" using randomPeer_returns [OF assms] by blast
  then show ?thesis
    by (cases r) (auto simp: invokeChaincodeCli_def Let_def split: prod.splits option.splits)
qed

subsection \<open>The operations return\<close>

lemma readKey_returns:
  assumes "rand_law h"
  shows "\<exists>e w'. readKey h a w = (Ret e, w')"
  using invokeChaincodeCli_returns [OF assms, of a "''query''" "''experimentRead''" "[Id a]" w]
  by (auto simp: readKey_def split: option.splits)

lemma CallReadFunc_returns:
  assumes "rand_law h"
  shows "\<exists>e w'. CallReadFunc h a w = (Ret e, w')"
  using readKey_returns [OF assms, of a "apply_log_level h a w"] by (auto simp: CallReadFunc_def)

lemma writeKey_cases:
  assumes "rand_law h" and "0 \<le> sint n"
  obtains (sent) w' where "writeKey h n a w = (Ret None, a\<lparr>Counter := Counter a + 1\<rparr>, w')"
  | (failed) e w' where "writeKey h n a w = (Ret (Some e), a, w')"
proof -
  obtain peer err w' where "invokeChaincodeCli h a ''invoke'' ''experimentWrite''
      [Id a, Itoa (Counter a), replicate (nat (sint n)) CHR ''a''] w = (Ret (peer, err), w')"
    using invokeChaincodeCli_returns [OF assms(1)] by (metis surj_pair)
  then show ?thesis
    using assms(2) that by (cases err) (simp_all add: writeKey_def Repeat_a_def)
qed

lemma CallWriteFunc_cases:
  assumes "rand_law h" and "0 \<le> sint n"
  obtains (sent) w' where "CallWriteFunc h n a w = (Ret None, a\<lparr>Counter := Counter a + 1\<rparr>, w')"
  | (failed) e w' where "CallWriteFunc h n a w = (Ret (Some e), a, w')"
  by (rule writeKey_cases [OF assms, of a "apply_log_level h a w"])
    (auto simp: CallWriteFunc_def intro: that)

definition ready_cc :: "('f, 'w) host \<Rightarrow> go_int \<Rightarrow> 'x operation_config \<Rightarrow> bool" where
  "ready_cc h n c \<longleftrightarrow> rand_law h \<and> 0 \<le> sint n \<and> c \<noteq> CC None"

lemma read_operation_returns:
  "ready_cc h n c \<Longrightarrow> \<exists>e c' w'. read_operation h c w = (Ret e, c', w') \<and> ready_cc h n c'"
proof -
  assume r: "ready_cc h n c"
  show ?thesis
  proof (cases c)
    case (CC a)
    then obtain b where "a = Some b" using r by (auto simp: ready_cc_def)
    then show ?thesis
      using CC r CallReadFunc_returns [of h b w] by (auto simp: ready_cc_def read_operation_def)
  qed (use r in \<open>simp add: read_operation_def\<close>)
qed

lemma write_operation_returns:
  "ready_cc h n c \<Longrightarrow> \<exists>e c' w'. write_operation h n c w = (Ret e, c', w') \<and> ready_cc h n c'"
proof -
  assume r: "ready_cc h n c"
  show ?thesis
  proof (cases c)
    case (CC a)
    then obtain b where b: "a = Some b" using r by (auto simp: ready_cc_def)
    from r have "rand_law h" "0 \<le> sint n" by (simp_all add: ready_cc_def)
    then show ?thesis
      by (cases rule: CallWriteFunc_cases [of h n b w])
        (use CC b r in \<open>simp_all add: write_operation_def ready_cc_def\<close>)
  qed (use r in \<open>simp add: write_operation_def\<close>)
qed

interpretation write_op: chaincode_operation "write_operation h n" "ready_cc h n" for h n
  by unfold_locales (rule write_operation_returns)

interpretation read_op: chaincode_operation "read_operation h" "ready_cc h n" for h n
  by unfold_locales (rule read_operation_returns)

interpretation cc: operation_pair "write_operation h n" "read_operation h" "ready_cc h n" for h n
  ..

subsection \<open>Properties\<close>

text \<open>Libraries that decode every configuration into the same worker.\<close>

definition demo_decoder :: "CCWorker \<Rightarrow> 'x mapstructure" where
  "demo_decoder a = \<lparr>ToSnake = \<lambda>_. [], NewDecoder = \<lambda>_. None, Decode = \<lambda>_ _. Inr (Some a)\<rparr>"

text \<open>A host that answers every call: one peer, commands that succeed and are logged in the world.\<close>

definition demo_host :: "(unit, string list list) host" where
  "demo_host =
     \<lparr>Open_file = \<lambda>_ w. (Inr (), w), ReadAll = \<lambda>_ w. (Inr [], w),
      Unmarshal_peers = \<lambda>_ w. (Inr [(''peer0'', ''grpcs://peer0:7051'')], w),
      Rand_Int = \<lambda>n w. (if n = 0 then Inl (Err []) else Inr (n - 1), w),
      New_uuid = \<lambda>w. (Some ''1b4e28ba'', w), RunCommand = \<lambda>name args w. (([], None), w @ [name # args]),
      ParseLevel = \<lambda>s. (if s = ''info'' then Inr InfoLevel else Inl (Err s)), SetLevel = \<lambda>_ w. w\<rparr>"

definition demo_worker :: CCWorker where
  "demo_worker = \<lparr>ChaincodeID = ''simi'', Username = ''u'', Org = ''Org1MSP'', LogLevel = ''info'',
     Id = ''7'', Counter = 0\<rparr>"

lemma demo_host_rand: "rand_law demo_host"
  by (auto simp: rand_law_def demo_host_def split: if_splits)

text \<open>A sequence of write operations, with the result of each.\<close>

fun run_writes ::
  "('f, 'w) host \<Rightarrow> go_int \<Rightarrow> nat \<Rightarrow> CCWorker \<Rightarrow> 'w \<Rightarrow> (goerr option list \<times> CCWorker \<times> 'w) outcome" where
  "run_writes h n 0 a w = Ret ([], a, w)"
| "run_writes h n (Suc k) a w =
     (case CallWriteFunc h n a w of
        (res, a', w') \<Rightarrow>
          outcome_bind res (\<lambda>e.
          outcome_bind (run_writes h n k a' w') (\<lambda>(es, a'', w''). Ret (e # es, a'', w''))))"

text \<open>
  C26: with a data size that is not negative, any number of write operations come back, and the
  worker's counter goes up by exactly the number of those that succeeded; nothing else of the
  worker changes.
\<close>

theorem write_counter:
  assumes "rand_law h" and "0 \<le> sint n"
  shows "\<exists>es w'. run_writes h n k a w =
      Ret (es, a\<lparr>Counter := Counter a + of_nat (count_list es None)\<rparr>, w') \<and> length es = k"
proof (induction k arbitrary: a w)
  case (Suc k)
  from assms show ?case
  proof (cases rule: CallWriteFunc_cases [of h n a w])
    case (sent w1)
    then show ?thesis
      using Suc.IH [of "a\<lparr>Counter := Counter a + 1\<rparr>" w1] by (auto simp: algebra_simps)
  next
    case (failed e w1)
    then show ?thesis using Suc.IH [of a w1] by auto
  qed
qed simp

theorem write_counter_witness:
  "\<exists>es w'. run_writes demo_host 3 2 demo_worker [] =
      Ret (es, demo_worker\<lparr>Counter := Counter demo_worker + of_nat (count_list es None)\<rparr>, w') \<and> length es = 2"
  by (rule write_counter [OF demo_host_rand]) simp

text \<open>
  A worker with a negative data size panics at every write, before any command is run (the only
  call is the one that sets the log level).
\<close>

theorem write_negative_panics:
  assumes "sint n < 0"
  shows "write_operation h n (CC (Some a)) w =
    (Panic ''strings: negative Repeat count'', CC (Some a), apply_log_level h a w)"
  using assms by (simp add: write_operation_def CallWriteFunc_def writeKey_def Repeat_a_def)

theorem write_negative_panics_witness:
  "write_operation demo_host (- 5) (CC (Some demo_worker) :: unit operation_config) [] =
    (Panic ''strings: negative Repeat count'', CC (Some demo_worker), apply_log_level demo_host demo_worker [])"
  by (rule write_negative_panics) simp

lemma go_rem_nonneg:
  assumes "0 \<le> sint a" and "0 < sint b"
  shows "go_rem a b = Ret (word_of_int (sint a mod sint b))"
  using assms by (auto simp: go_rem_def smod_int_alt_def sgn_if)

text \<open>
  C28: a reader whose identifier is a number that is not negative gets the identifier of one of
  the \<open>numWriters\<close> writers, the number modulo \<open>numWriters\<close>; nothing else of it changes.
\<close>

theorem init_worker_reader:
  assumes "Atoi (Id a) = Inr n" and "0 \<le> sint n" and "0 < sint numWriters"
    and "New_uuid h w = (Some u, w')"
  shows "\<exists>m. init_worker h ''read'' numWriters i (CC (Some a)) w =
      (Ret (u, None), CC (Some (a\<lparr>Id := Itoa m\<rparr>)), w') \<and>
    0 \<le> sint m \<and> sint m < sint numWriters \<and> sint m = sint n mod sint numWriters"
proof (intro exI conjI)
  let ?m = "word_of_int (sint n mod sint numWriters) :: go_int"
  show "init_worker h ''read'' numWriters i (CC (Some a)) w =
      (Ret (u, None), CC (Some (a\<lparr>Id := Itoa ?m\<rparr>)), w')"
    using assms by (simp add: init_worker_def setupCCWorker_def reader_id_def go_rem_nonneg)
  have b: "0 \<le> sint n mod sint numWriters" "sint n mod sint numWriters < sint numWriters"
    using assms(3) by simp_all
  then have "sint ?m = sint n mod sint numWriters"
    using sint_range64 [of numWriters] by (intro sint_of_int64) auto
  with b show "sint ?m = sint n mod sint numWriters" "0 \<le> sint ?m" "sint ?m < sint numWriters"
    by simp_all
qed

theorem init_worker_reader_witness:
  "\<exists>m. init_worker demo_host ''read'' 3 [] (CC (Some (demo_worker\<lparr>Id := Itoa 7\<rparr>)) :: unit operation_config) [] =
      (Ret (''1b4e28ba'', None), CC (Some (demo_worker\<lparr>Id := Itoa 7, Id := Itoa m\<rparr>)), []) \<and>
    0 \<le> sint m \<and> sint m < 3 \<and> sint m = 1"
  using init_worker_reader [of "demo_worker\<lparr>Id := Itoa 7\<rparr>" 7 3 demo_host "[]" "''1b4e28ba''" "[]"]
  by (simp add: Atoi_Itoa demo_host_def)

text \<open>
  C39: what ends a reader's set-up: the process exits exactly if the identifier is no number in
  the range of \<open>int\<close>, and with \<open>numWriters\<close> 0, the default of the flag, every other reader
  panics.
\<close>

theorem init_worker_reader_fails:
  "(fst (init_worker h ''read'' numWriters i (CC (Some a)) w) = Fatal (Err ''Failed tp parse ID'')) =
     isl (Atoi (Id a)) \<and>
   init_worker h ''read'' 0 i (CC (Some a)) w =
     (if isl (Atoi (Id a)) then Fatal (Err ''Failed tp parse ID'') else Panic ''integer divide by zero'',
      CC (Some a), w)"
  by (cases "Atoi (Id a)")
    (auto simp: init_worker_def setupCCWorker_def reader_id_def go_rem_def split: prod.splits option.splits)

text \<open>
  The commands a host has run, \<open>cmds\<close>, with their names and arguments: \<open>RunCommand\<close> adds one,
  whatever its result, and the other calls of \<open>invokeChaincodeCli\<close> run none.
\<close>

definition command_history :: "('f, 'w) host \<Rightarrow> ('w \<Rightarrow> (string \<times> string list) list) \<Rightarrow> bool" where
  "command_history h cmds \<longleftrightarrow>
     (\<forall>name args w. cmds (snd (RunCommand h name args w)) = cmds w @ [(name, args)]) \<and>
     (\<forall>p w. cmds (snd (Open_file h p w)) = cmds w) \<and> (\<forall>f w. cmds (snd (ReadAll h f w)) = cmds w) \<and>
     (\<forall>d w. cmds (snd (Unmarshal_peers h d w)) = cmds w) \<and> (\<forall>n w. cmds (snd (Rand_Int h n w)) = cmds w)"

lemma command_history_calls:
  assumes "command_history h cmds"
  shows "RunCommand h name args w = (r1, w1) \<Longrightarrow> cmds w1 = cmds w @ [(name, args)]"
    and "Open_file h p w = (r2, w2) \<Longrightarrow> cmds w2 = cmds w" and "ReadAll h f w = (r3, w3) \<Longrightarrow> cmds w3 = cmds w"
    and "Unmarshal_peers h d w = (r4, w4) \<Longrightarrow> cmds w4 = cmds w"
    and "Rand_Int h n w = (r5, w5) \<Longrightarrow> cmds w5 = cmds w"
  using assms unfolding command_history_def by (metis snd_conv)+

lemma randomPeer_runs_none: "command_history h cmds \<Longrightarrow> randomPeer h w = (r, w') \<Longrightarrow> cmds w' = cmds w"
  by (auto simp: randomPeer_def Let_def command_history_calls split: prod.splits sum.splits if_splits)

lemma randomPeer_picks:
  assumes "randomPeer h w = (Ret (Inr peer), w')"
  obtains f w1 data w2 peers w3 n where "Open_file h sdkConfigPath w = (Inr f, w1)"
    "ReadAll h f w1 = (Inr data, w2)" "Unmarshal_peers h data w2 = (Inr peers, w3)"
    "Rand_Int h (length peers) w3 = (Inr n, w')" "n < length peers" "peer = fst (peers ! n)"
  using assms by (auto simp: randomPeer_def Let_def split: prod.splits sum.splits if_splits)

lemma cli_arguments_list:
  "cli_arguments a verb fcn peer args =
     [''hlf'', ''chaincode'', verb, ''--config=/fabric-config/fabric-config.yaml'', ''--user=admin'',
      ''--peer='' @ peer, ''--chaincode='' @ ChaincodeID a, ''--channel=firstchannel'', ''--fcn='' @ fcn] @
     concat (map (\<lambda>s. [''-a'', s]) args)"
  by (simp add: cli_arguments_def channelID_def)

text \<open>
  C29: a chaincode call that succeeds has run exactly one command: \<open>kubectl hlf chaincode\<close> with
  the verb, the mounted configuration, the user admin, the peer, the worker's chaincode, the
  channel firstchannel, the function, and every argument in its order after \<open>-a\<close>; the peer is
  the one the random number picks from those the fabric configuration lists. A call that gives
  an error has run that same command once if a peer was chosen, and none otherwise; a call that
  does not come back has run none.
\<close>

theorem cli_call_sent:
  assumes "command_history h cmds" and "invokeChaincodeCli h a verb fcn args w = (r, w')"
  shows "case r of
     Ret (peer, None) \<Rightarrow>
       (\<exists>f w1 data w2 peers w3 n w4 out.
          Open_file h ''/fabric-config/fabric-config.yaml'' w = (Inr f, w1) \<and> ReadAll h f w1 = (Inr data, w2) \<and>
          Unmarshal_peers h data w2 = (Inr peers, w3) \<and> Rand_Int h (length peers) w3 = (Inr n, w4) \<and>
          n < length peers \<and> peer = fst (peers ! n) \<and>
          RunCommand h ''kubectl''
            ([''hlf'', ''chaincode'', verb, ''--config=/fabric-config/fabric-config.yaml'', ''--user=admin'',
              ''--peer='' @ peer, ''--chaincode='' @ ChaincodeID a, ''--channel=firstchannel'', ''--fcn='' @ fcn] @
             concat (map (\<lambda>s. [''-a'', s]) args)) w4 = ((out, None), w')) \<and>
       cmds w' = cmds w @ [(''kubectl'',
         [''hlf'', ''chaincode'', verb, ''--config=/fabric-config/fabric-config.yaml'', ''--user=admin'',
          ''--peer='' @ peer, ''--chaincode='' @ ChaincodeID a, ''--channel=firstchannel'', ''--fcn='' @ fcn] @
         concat (map (\<lambda>s. [''-a'', s]) args))]
   | Ret (peer, Some err) \<Rightarrow>
       cmds w' = (case fst (randomPeer h w) of
         Ret (Inr chosen) \<Rightarrow> cmds w @ [(''kubectl'',
           [''hlf'', ''chaincode'', verb, ''--config=/fabric-config/fabric-config.yaml'', ''--user=admin'',
            ''--peer='' @ chosen, ''--chaincode='' @ ChaincodeID a, ''--channel=firstchannel'', ''--fcn='' @ fcn] @
           concat (map (\<lambda>s. [''-a'', s]) args))]
       | _ \<Rightarrow> cmds w)
   | _ \<Rightarrow> cmds w' = cmds w"
proof -
  obtain rp w1 where 1: "randomPeer h w = (rp, w1)" by fastforce
  note n = randomPeer_runs_none [OF assms(1) 1]
  show ?thesis
  proof (cases "\<exists>p. rp = Ret (Inr p)")
    case True
    then obtain p where p: "rp = Ret (Inr p)" by blast
    obtain out e w2 where 2: "RunCommand h ''kubectl'' (cli_arguments a verb fcn p args) w1 = ((out, e), w2)"
      by (metis surj_pair)
    have r: "w' = w2" "r = Ret (p, map_option (\<lambda>err. WrapIn ''HLF CLI invocation failed: '' err ('', output: '' @ out)) e)"
      using assms(2) 1 p 2 by (auto simp: invokeChaincodeCli_def Let_def split: option.splits)
    show ?thesis
    proof (cases e)
      case None
      with 2 have ok: "RunCommand h ''kubectl'' (cli_arguments a verb fcn p args) w1 = ((out, None), w2)" by simp
      from 1 p have "randomPeer h w = (Ret (Inr p), w1)" by simp
      then show ?thesis
        by (rule randomPeer_picks)
          (use ok n r None command_history_calls(1) [OF assms(1) ok] in
            \<open>auto simp: cli_arguments_list sdkConfigPath_def\<close>)
    next
      case (Some err)
      then show ?thesis using r 1 p n command_history_calls(1) [OF assms(1) 2] by (simp add: cli_arguments_list)
    qed
  next
    case False
    then show ?thesis
      using assms(2) 1 n by (auto simp: invokeChaincodeCli_def split: outcome.splits sum.splits)
  qed
qed

lemma demo_host_history: "command_history demo_host (map (\<lambda>c. (hd c, tl c)))"
  by (simp add: command_history_def demo_host_def)

theorem cli_call_sent_witness:
  "\<exists>w'. invokeChaincodeCli demo_host demo_worker ''query'' ''experimentRead'' [''7'', ''8''] [] = (Ret (''peer0'', None), w') \<and>
     map (\<lambda>c. (hd c, tl c)) w' = [(''kubectl'',
       [''hlf'', ''chaincode'', ''query'', ''--config=/fabric-config/fabric-config.yaml'', ''--user=admin'',
        ''--peer=peer0'', ''--chaincode=simi'', ''--channel=firstchannel'', ''--fcn=experimentRead'',
        ''-a'', ''7'', ''-a'', ''8''])]"
proof -
  obtain w' where w': "invokeChaincodeCli demo_host demo_worker ''query'' ''experimentRead'' [''7'', ''8''] [] =
      (Ret (''peer0'', None), w')"
    by (simp add: invokeChaincodeCli_def randomPeer_def demo_host_def)
  then show ?thesis using cli_call_sent [OF demo_host_history w'] by (simp add: demo_worker_def)
qed

text \<open>
  A log level that does not parse is announced as INFO, but the level that is set is the one for
  debugging.
\<close>

lemma unknown_log_level:
  "ParseLevel h (LogLevel a) = Inl e \<Longrightarrow> apply_log_level h a w = SetLevel h DebugLevel w"
  by (simp add: apply_log_level_def)

end
