(* ===== verification/Broker.thy ===== *)
theory Broker
  imports Prelude
begin

section \<open>The message broker, as the program calls it\<close>

text \<open>
  The workers and the consumer talk through RabbitMQ (\<open>amqp091-go\<close>, a library). \<open>broker\<close> has the
  calls the program makes on a connection and a channel, with the arguments it passes; the table
  arguments are always nil and are left out. \<open>history_laws\<close> is the hypothesis of the properties
  about the order of these calls: \<open>hist\<close> of a world is the list of the calls that succeeded, and
  closing a channel is always noted. \<open>Received\<close> is a consumer reading what arrives, and whether
  the deliveries end after that.
\<close>

record 't publishing =
  ContentType :: string
  Body :: string
  CorrelationId :: string
  Timestamp :: "'t option"

record delivery =
  d_ContentType :: string
  d_Body :: string
  d_CorrelationId :: string

text \<open>
  \<open>QueueDeclare ch name durable autoDelete exclusive noWait\<close> gives the name of the queue,
  \<open>QueueBind ch name key exchange noWait\<close>, \<open>Consume ch queue consumer autoAck exclusive noLocal
  noWait\<close> the deliveries, \<open>Publish ch exchange key mandatory immediate msg\<close>.
\<close>

record ('conn, 'ch, 'd, 't, 'w) broker =
  Dial :: "string \<Rightarrow> 'w \<Rightarrow> 'conn res \<times> 'w"
  Close_connection :: "'conn \<Rightarrow> 'w \<Rightarrow> goerr option \<times> 'w"
  Open_channel :: "'conn \<Rightarrow> 'w \<Rightarrow> 'ch res \<times> 'w"
  Close_channel :: "'ch \<Rightarrow> 'w \<Rightarrow> 'w"
  QueueDeclare :: "'ch \<Rightarrow> string \<Rightarrow> bool \<Rightarrow> bool \<Rightarrow> bool \<Rightarrow> bool \<Rightarrow> 'w \<Rightarrow> string res \<times> 'w"
  QueueBind :: "'ch \<Rightarrow> string \<Rightarrow> string \<Rightarrow> string \<Rightarrow> bool \<Rightarrow> 'w \<Rightarrow> goerr option \<times> 'w"
  Consume :: "'ch \<Rightarrow> string \<Rightarrow> string \<Rightarrow> bool \<Rightarrow> bool \<Rightarrow> bool \<Rightarrow> bool \<Rightarrow> 'w \<Rightarrow> 'd res \<times> 'w"
  Publish :: "'ch \<Rightarrow> string \<Rightarrow> string \<Rightarrow> bool \<Rightarrow> bool \<Rightarrow> 't publishing \<Rightarrow> 'w \<Rightarrow> goerr option \<times> 'w"

datatype event =
    Declared string
  | Bound string string string
  | Consuming string
  | Received "delivery list" bool
  | Published string string string
  | ChannelClosed

definition history_laws :: "('conn, 'ch, 'd, 't, 'w) broker \<Rightarrow> ('w \<Rightarrow> event list) \<Rightarrow> bool" where
  "history_laws B hist \<longleftrightarrow>
     (\<forall>c w. hist (snd (Open_channel B c w)) = hist w) \<and>
     (\<forall>ch w. hist (Close_channel B ch w) = hist w @ [ChannelClosed]) \<and>
     (\<forall>ch q b1 b2 b3 b4 w. hist (snd (QueueDeclare B ch q b1 b2 b3 b4 w)) =
        hist w @ (case fst (QueueDeclare B ch q b1 b2 b3 b4 w) of Inr n \<Rightarrow> [Declared n] | Inl _ \<Rightarrow> [])) \<and>
     (\<forall>ch q k x b w. hist (snd (QueueBind B ch q k x b w)) =
        hist w @ (if fst (QueueBind B ch q k x b w) = None then [Bound q k x] else [])) \<and>
     (\<forall>ch q t b1 b2 b3 b4 w. hist (snd (Consume B ch q t b1 b2 b3 b4 w)) =
        hist w @ (case fst (Consume B ch q t b1 b2 b3 b4 w) of Inr d \<Rightarrow> [Consuming q] | Inl _ \<Rightarrow> [])) \<and>
     (\<forall>ch x k b1 b2 m w. hist (snd (Publish B ch x k b1 b2 m w)) =
        hist w @ (if fst (Publish B ch x k b1 b2 m w) = None then [Published x k (Body m)] else []))"

lemma history_open: "history_laws B hist \<Longrightarrow> Open_channel B c w = (r, w') \<Longrightarrow> hist w' = hist w"
  unfolding history_laws_def by (metis snd_conv)

lemma history_close: "history_laws B hist \<Longrightarrow> hist (Close_channel B ch w) = hist w @ [ChannelClosed]"
  by (simp add: history_laws_def)

lemma history_declare:
  "history_laws B hist \<Longrightarrow> QueueDeclare B ch q b1 b2 b3 b4 w = (r, w') \<Longrightarrow>
    hist w' = hist w @ (case r of Inr n \<Rightarrow> [Declared n] | Inl _ \<Rightarrow> [])"
  unfolding history_laws_def by (metis fst_conv snd_conv)

lemma history_bind:
  "history_laws B hist \<Longrightarrow> QueueBind B ch q k x b w = (r, w') \<Longrightarrow>
    hist w' = hist w @ (if r = None then [Bound q k x] else [])"
  unfolding history_laws_def by (metis fst_conv snd_conv)

lemma history_consume:
  "history_laws B hist \<Longrightarrow> Consume B ch q t b1 b2 b3 b4 w = (r, w') \<Longrightarrow>
    hist w' = hist w @ (case r of Inr d \<Rightarrow> [Consuming q] | Inl _ \<Rightarrow> [])"
  unfolding history_laws_def by (metis fst_conv snd_conv)

lemma history_publish:
  "history_laws B hist \<Longrightarrow> Publish B ch x k b1 b2 m w = (r, w') \<Longrightarrow>
    hist w' = hist w @ (if r = None then [Published x k (Body m)] else [])"
  unfolding history_laws_def by (metis fst_conv snd_conv)

text \<open>A broker that accepts every call and notes it.\<close>

definition noting_broker :: "(unit, unit, unit, 't, event list) broker" where
  "noting_broker =
     \<lparr>Dial = \<lambda>_ w. (Inr (), w), Close_connection = \<lambda>_ w. (None, w), Open_channel = \<lambda>_ w. (Inr (), w),
      Close_channel = \<lambda>_ w. w @ [ChannelClosed],
      QueueDeclare = \<lambda>_ q _ _ _ _ w. let n = (if q = [] then ''amq.gen-1'' else q) in (Inr n, w @ [Declared n]),
      QueueBind = \<lambda>_ q k x _ w. (None, w @ [Bound q k x]),
      Consume = \<lambda>_ q _ _ _ _ _ w. (Inr (), w @ [Consuming q]),
      Publish = \<lambda>_ x k _ _ m w. (None, w @ [Published x k (Body m)])\<rparr>"

lemma noting_broker_laws: "history_laws noting_broker (\<lambda>w. w)"
  by (simp add: history_laws_def noting_broker_def Let_def)

end
