(* ===== verification/Worker.thy ===== *)
theory Worker
  imports Broker Bench
begin

section \<open>The benchmark worker (benchmark/worker/worker.go)\<close>

text \<open>
  \<open>NewWorker\<close> (with its retries), \<open>Close\<close> and \<open>Register\<close>; \<open>BenchOperation\<close> is in \<open>Bench\<close>. The
  broker is the record of \<open>Broker\<close>, clock and random numbers that of \<open>Bench\<close>; the InfluxDB
  client is the record \<open>influx\<close>. The goroutine of \<open>NewWorker\<close> only logs write errors and is not
  modelled.
\<close>

subsection \<open>State\<close>

record ('client, 'api, 'w) influx =
  NewClient :: "string \<Rightarrow> string \<Rightarrow> 'w \<Rightarrow> 'client \<times> 'w"
  WriteAPI :: "'client \<Rightarrow> string \<Rightarrow> string \<Rightarrow> 'w \<Rightarrow> 'api \<times> 'w"
  Flush :: "'api \<Rightarrow> 'w \<Rightarrow> 'w"
  Close_client :: "'client \<Rightarrow> 'w \<Rightarrow> 'w"

text \<open>A pointer or an interface that may be nil is an option.\<close>

record ('client, 'api, 'conn, 'c, 'w) Worker =
  influxClient :: "'client option"
  writeAPI :: "'api option"
  w_conn :: "'conn option"
  correlationID :: string
  username :: string
  w_config :: "('c, 'w) WorkerConfig"

definition simiNameEnv :: string where
  "simiNameEnv = ''SIMI_NAME''"

definition influxTokEnv :: string where
  "influxTokEnv = ''INFLUX_TOKEN''"

definition second :: go_int where
  "second = 10 ^ 9"

definition startTimeout :: go_int where
  "startTimeout = 10 * 60 * second"

subsection \<open>Connecting\<close>

text \<open>
  The wait after the failed attempt \<open>i\<close>: \<open>time.Duration(1<<(i-1))\<close> seconds, half of it random.
  \<open>go_half\<close> is Go's division by two, truncated towards zero. The loop runs while \<open>i < 10\<close>; \<open>res\<close>
  is the result of the last attempt.
\<close>

definition backoff :: "nat \<Rightarrow> go_int" where
  "backoff i = second * push_bit (i - 1) 1"

definition go_half :: "go_int \<Rightarrow> go_int" where
  "go_half d = word_of_int (sint d sdiv 2)"

function dial_loop ::
  "('conn, 'ch, 'd, 't, 'w) broker \<Rightarrow> ('t, 'w) runtime \<Rightarrow> string \<Rightarrow> nat \<Rightarrow> 'conn res \<Rightarrow> 'w \<Rightarrow>
   ('conn res \<times> 'w) outcome" where
  "dial_loop B rt url i res w =
     (if i < 10 then
        (case Dial B url w of
           (Inr conn, w) \<Rightarrow> Ret (Inr conn, w)
         | (Inl err, w) \<Rightarrow>
             outcome_bind (Int63n rt (go_half (backoff i)) w) (\<lambda>(jitter, w).
               let sleep = go_half (backoff i) + jitter
               in dial_loop B rt url (i + 1) (Inl err) (Sleep rt sleep w)))
      else Ret (res, w))"
  by pat_completeness auto
termination by (relation "measure (\<lambda>(B, rt, url, i, res, w). 10 - i)") auto

declare dial_loop.simps [simp del]

definition NewWorker ::
  "('conn, 'ch, 'd, 't, 'w) broker \<Rightarrow> ('t, 'w) runtime \<Rightarrow> ('client, 'api, 'w) influx \<Rightarrow>
   (string \<Rightarrow> string option) \<Rightarrow> ('c, 'w) WorkerConfig \<Rightarrow> 'w \<Rightarrow>
   (('client, 'api, 'conn, 'c, 'w) Worker res \<times> 'w) outcome" where
  "NewWorker B rt db lookup_env conf w =
     outcome_bind (dial_loop B rt (BrokerURL conf) 1 (Inl (Err [])) w) (\<lambda>(res, w).
       case res of
         Inl err \<Rightarrow>
           Ret (Inl (WrapQuoted ''failed to dial AMQP broker at '' (BrokerURL conf) '' after retries: '' err), w)
       | Inr conn \<Rightarrow>
           (case lookup_env influxTokEnv of
              None \<Rightarrow> Ret (Inl (Err (''could not find required variable: '' @ influxTokEnv)), w)
            | Some influxTok \<Rightarrow>
                let (client, w) = NewClient db (Url conf) influxTok w;
                    (api, w) = WriteAPI db client ''simi'' (Bucket conf) w
                in Ret (Inr \<lparr>influxClient = Some client, writeAPI = Some api, w_conn = Some conn,
                             correlationID = (case lookup_env simiNameEnv of None \<Rightarrow> [] | Some n \<Rightarrow> n),
                             username = [], w_config = conf\<rparr>, w)))"

text \<open>\<open>Close\<close>: the shutdown function works on the operation configuration through its pointer.\<close>

definition Close_worker ::
  "('conn, 'ch, 'd, 't, 'w) broker \<Rightarrow> ('client, 'api, 'w) influx \<Rightarrow>
   ('client, 'api, 'conn, 'c, 'w) Worker \<Rightarrow> 'w \<Rightarrow> ('client, 'api, 'conn, 'c, 'w) Worker \<times> 'w" where
  "Close_worker B db wk w =
     (let (cfg, w) = (case ShutdownFunc (w_config wk) of
                        None \<Rightarrow> (OperationConfig (w_config wk), w)
                      | Some f \<Rightarrow> f (OperationConfig (w_config wk)) w);
          w = (case w_conn wk of None \<Rightarrow> w | Some c \<Rightarrow> snd (Close_connection B c w));
          w = (case writeAPI wk of None \<Rightarrow> w | Some a \<Rightarrow> Flush db a w);
          w = (case influxClient wk of None \<Rightarrow> w | Some cl \<Rightarrow> Close_client db cl w)
      in (wk\<lparr>w_config := (w_config wk)\<lparr>OperationConfig := cfg\<rparr>\<rparr>, w))"

subsection \<open>Registering\<close>

text \<open>What ends the wait: a delivery, the end of the deliveries, or the timer.\<close>

datatype start_event = StartDelivered | DeliveriesClosed | TimerFired

text \<open>
  \<open>Register\<close>. \<open>wait_start\<close> is the select over the deliveries and the timer of the given
  duration: any of the three events ends it without an error. The channel is closed on every
  return. A nil connection panics.
\<close>

definition errorText :: "(goerr \<Rightarrow> string) \<Rightarrow> goerr option \<Rightarrow> string" where
  "errorText err_text registrationErr =
     (case registrationErr of None \<Rightarrow> [] | Some e \<Rightarrow> err_text e)"

definition publish_registration ::
  "('conn, 'ch, 'd, 't, 'w) broker \<Rightarrow> ('t, 'w) runtime \<Rightarrow> (goerr \<Rightarrow> string) \<Rightarrow>
   ('d \<Rightarrow> go_int \<Rightarrow> 'w \<Rightarrow> start_event \<times> 'w) \<Rightarrow> 'ch \<Rightarrow> 'd \<Rightarrow> string \<Rightarrow> goerr option \<Rightarrow> 'w \<Rightarrow>
   goerr option \<times> 'w" where
  "publish_registration B rt err_text wait_start ch startCommands corr registrationErr w =
     (case QueueDeclare B ch ''registrations'' False False False False w of
        (Inl err, w) \<Rightarrow> (Some (Wrap ''failed to declare registration notification queue: '' err), w)
      | (Inr regQueue, w) \<Rightarrow>
          (let (now, w) = Now rt w in
           case Publish B ch [] regQueue True False
               \<lparr>ContentType = ''text/plain'', Body = errorText err_text registrationErr,
                CorrelationId = corr, Timestamp = Some now\<rparr> w of
             (Some err, w) \<Rightarrow> (Some (Wrap ''failed to publish benchmark result: '' err), w)
           | (None, w) \<Rightarrow>
               (case registrationErr of
                  Some e \<Rightarrow> (Some (Wrap ''failed to register: '' e), w)
                | None \<Rightarrow> (case wait_start startCommands startTimeout w of (_, w) \<Rightarrow> (None, w)))))"

definition Register_with ::
  "('conn, 'ch, 'd, 't, 'w) broker \<Rightarrow> ('t, 'w) runtime \<Rightarrow> (goerr \<Rightarrow> string) \<Rightarrow>
   ('d \<Rightarrow> go_int \<Rightarrow> 'w \<Rightarrow> start_event \<times> 'w) \<Rightarrow> 'ch \<Rightarrow>
   ('client, 'api, 'conn, 'c, 'w) Worker \<Rightarrow> 'w \<Rightarrow>
   (goerr option \<times> ('client, 'api, 'conn, 'c, 'w) Worker) outcome \<times> 'w" where
  "Register_with B rt err_text wait_start ch wk w =
     (case QueueDeclare B ch [] False True False False w of
        (Inl err, w) \<Rightarrow> (Ret (Some err, wk), w)
      | (Inr q, w) \<Rightarrow>
          (case QueueBind B ch q ''start'' ''amq.topic'' False w of
             (Some err, w) \<Rightarrow> (Ret (Some err, wk), w)
           | (None, w) \<Rightarrow>
               (case Consume B ch q [] True True False False w of
                  (Inl err, w) \<Rightarrow> (Ret (Some err, wk), w)
                | (Inr startCommands, w) \<Rightarrow>
                    (case InitFunc (w_config wk) (correlationID wk) (OperationConfig (w_config wk)) w of
                       (res, cfg, w) \<Rightarrow>
                         (case res of
                            Fatal e \<Rightarrow> (Fatal e, w)
                          | Panic t \<Rightarrow> (Panic t, w)
                          | Ret (name, registrationErr) \<Rightarrow>
                              let wk = wk\<lparr>username := name, w_config := (w_config wk)\<lparr>OperationConfig := cfg\<rparr>\<rparr>
                              in case publish_registration B rt err_text wait_start ch startCommands
                                       (username wk @ correlationID wk) registrationErr w of
                                   (err, w) \<Rightarrow> (Ret (err, wk), w))))))"

definition Register ::
  "('conn, 'ch, 'd, 't, 'w) broker \<Rightarrow> ('t, 'w) runtime \<Rightarrow> (goerr \<Rightarrow> string) \<Rightarrow>
   ('d \<Rightarrow> go_int \<Rightarrow> 'w \<Rightarrow> start_event \<times> 'w) \<Rightarrow>
   ('client, 'api, 'conn, 'c, 'w) Worker \<Rightarrow> 'w \<Rightarrow>
   (goerr option \<times> ('client, 'api, 'conn, 'c, 'w) Worker) outcome \<times> 'w" where
  "Register B rt err_text wait_start wk w =
     (case w_conn wk of
        None \<Rightarrow> (Panic ''invalid memory address or nil pointer dereference'', w)
      | Some conn \<Rightarrow>
          (case Open_channel B conn w of
             (Inl err, w) \<Rightarrow>
               (Ret (Some (Wrap ''failed to create registration notification channel: '' err), wk), w)
           | (Inr ch, w) \<Rightarrow>
               (case Register_with B rt err_text wait_start ch wk w of
                  (Fatal e, w) \<Rightarrow> (Fatal e, w)
                | (res, w) \<Rightarrow> (res, Close_channel B ch w))))"

subsection \<open>Connecting: how often and how long\<close>

text \<open>
  What is seen of the attempts: the dials of an address, with their errors, and the times slept,
  in nanoseconds. \<open>trace\<close> of a world is the list of them; random numbers and the InfluxDB client
  leave it alone, and \<open>rand.Int63n(n)\<close> gives, as documented, a number from 0 to \<open>n - 1\<close>.
\<close>

datatype dial_event = Dialled string "goerr option" | Slept int

definition dial_laws ::
  "('conn, 'ch, 'd, 't, 'w) broker \<Rightarrow> ('t, 'w) runtime \<Rightarrow> ('w \<Rightarrow> dial_event list) \<Rightarrow> bool" where
  "dial_laws B rt trace \<longleftrightarrow>
     (\<forall>url w. trace (snd (Dial B url w)) =
        trace w @ [Dialled url (case fst (Dial B url w) of Inl err \<Rightarrow> Some err | Inr _ \<Rightarrow> None)]) \<and>
     (\<forall>d w. trace (Sleep rt d w) = trace w @ [Slept (sint d)]) \<and>
     (\<forall>n w. trace (snd (Rand_Int63n rt n w)) = trace w) \<and>
     (\<forall>n w. 0 < sint n \<longrightarrow>
        0 \<le> sint (fst (Rand_Int63n rt n w)) \<and> sint (fst (Rand_Int63n rt n w)) < sint n)"

lemma dial_law_dial:
  "dial_laws B rt trace \<Longrightarrow> Dial B url w = (r, w') \<Longrightarrow>
    trace w' = trace w @ [Dialled url (case r of Inl err \<Rightarrow> Some err | Inr _ \<Rightarrow> None)]"
  unfolding dial_laws_def by (metis fst_conv snd_conv)

lemma dial_law_sleep: "dial_laws B rt trace \<Longrightarrow> trace (Sleep rt d w) = trace w @ [Slept (sint d)]"
  by (simp add: dial_laws_def)

lemma dial_law_rand:
  "dial_laws B rt trace \<Longrightarrow> Rand_Int63n rt n w = (k, w') \<Longrightarrow> 0 < sint n \<Longrightarrow>
    trace w' = trace w \<and> 0 \<le> sint k \<and> sint k < sint n"
  unfolding dial_laws_def by (metis fst_conv snd_conv)

lemma sint_half_backoff:
  assumes "1 \<le> i" and "i < 10"
  shows "sint (go_half (backoff i)) = 500000000 * 2 ^ (i - 1)"
proof -
  have "i - 1 \<in> {0, 1, 2, 3, 4, 5, 6, 7, 8}" using assms by auto
  then show ?thesis
    by (auto simp: go_half_def backoff_def second_def)
qed

lemma wait_bounds:
  assumes "1 \<le> i" and "i < 10" and "0 \<le> sint k" and "sint k < sint (go_half (backoff i))"
  shows "500000000 * 2 ^ (i - 1) \<le> sint (go_half (backoff i) + k)"
    and "sint (go_half (backoff i) + k) < 1000000000 * 2 ^ (i - 1)"
proof -
  have h: "sint (go_half (backoff i)) = 500000000 * 2 ^ (i - 1)" by (rule sint_half_backoff [OF assms(1,2)])
  have "(2 :: int) ^ (i - 1) \<le> 2 ^ 8" using assms(2) by (intro power_increasing) auto
  then have "sint (go_half (backoff i) + k) = sint (go_half (backoff i)) + sint k"
    using assms(3,4) h by (simp add: sint_word_add signed_take_bit_int_eq_self)
  with h assms(3,4) show "500000000 * 2 ^ (i - 1) \<le> sint (go_half (backoff i) + k)"
    "sint (go_half (backoff i) + k) < 1000000000 * 2 ^ (i - 1)" by simp_all
qed

text \<open>What failed attempts, each an error and the wait after it, add to the trace.\<close>

definition failed_dials :: "string \<Rightarrow> (goerr \<times> int) list \<Rightarrow> dial_event list" where
  "failed_dials url fs = concat (map (\<lambda>(err, d). [Dialled url (Some err), Slept d]) fs)"

lemma failed_dials_simps [simp]:
  "failed_dials url [] = []"
  "failed_dials url ((err, d) # fs) = Dialled url (Some err) # Slept d # failed_dials url fs"
  by (simp_all add: failed_dials_def)

lemma dial_loop_trace:
  assumes laws: "dial_laws B rt trace"
  shows "1 \<le> i \<Longrightarrow> i \<le> 10 \<Longrightarrow>
    \<exists>res w' fs. dial_loop B rt url i r w = Ret (res, w') \<and> length fs \<le> 10 - i \<and>
      trace w' = trace w @ failed_dials url fs @ (if length fs = 10 - i then [] else [Dialled url None]) \<and>
      (if length fs = 10 - i then res = (if fs = [] then r else Inl (fst (last fs))) else \<exists>conn. res = Inr conn) \<and>
      (\<forall>k<length fs. 500000000 * 2 ^ (i - 1 + k) \<le> snd (fs ! k) \<and> snd (fs ! k) < 1000000000 * 2 ^ (i - 1 + k))"
proof (induction "10 - i" arbitrary: i r w)
  case 0
  then have "i = 10" by simp
  then show ?case
    by (intro exI [of _ r] exI [of _ w] exI [of _ "[]"]) (simp add: dial_loop.simps [of B rt url 10])
next
  case (Suc k)
  then have i: "i < 10" by simp
  obtain d w1 where d: "Dial B url w = (d, w1)" by fastforce
  note d1 = dial_law_dial [OF laws d]
  show ?case
  proof (cases d)
    case (Inr conn)
    then show ?thesis
      using d d1 i
      by (intro exI [of _ d] exI [of _ w1] exI [of _ "[]"]) (simp add: dial_loop.simps [of B rt url i])
  next
    case (Inl err)
    let ?h = "go_half (backoff i)"
    obtain j w2 where j: "Rand_Int63n rt ?h w1 = (j, w2)" by fastforce
    have pos: "0 < sint ?h" using sint_half_backoff [OF Suc.prems(1) i] by simp
    note j1 = dial_law_rand [OF laws j pos]
    let ?w3 = "Sleep rt (?h + j) w2" and ?d = "sint (?h + j)"
    note s1 = dial_law_sleep [OF laws, of "?h + j" w2]
    have b: "500000000 * 2 ^ (i - 1) \<le> ?d" "?d < 1000000000 * 2 ^ (i - 1)"
      using wait_bounds [OF Suc.prems(1) i] j1 by blast+
    have k: "k = 10 - (i + 1)" using Suc.hyps(2) by simp
    have "1 \<le> i + 1" "i + 1 \<le> 10" using i by simp_all
    from Suc.hyps(1) [OF k this, of "Inl err" ?w3] obtain res w' fs where
      IH: "dial_loop B rt url (i + 1) (Inl err) ?w3 = Ret (res, w')" "length fs \<le> 10 - (i + 1)"
      "trace w' = trace ?w3 @ failed_dials url fs @ (if length fs = 10 - (i + 1) then [] else [Dialled url None])"
      "if length fs = 10 - (i + 1) then res = (if fs = [] then Inl err else Inl (fst (last fs)))
       else \<exists>conn. res = Inr conn"
      "\<forall>k<length fs. 500000000 * 2 ^ (i + 1 - 1 + k) \<le> snd (fs ! k) \<and> snd (fs ! k) < 1000000000 * 2 ^ (i + 1 - 1 + k)"
      by blast
    let ?fs = "(err, ?d) # fs"
    have "dial_loop B rt url i r w = Ret (res, w')"
      using IH(1) d Inl i j pos by (simp add: dial_loop.simps [of B rt url i] Int63n_def Let_def)
    moreover have len: "(length ?fs = 10 - i) = (length fs = 10 - (i + 1))" "length ?fs \<le> 10 - i"
      using i IH(2) by auto
    moreover have "trace w' = trace w @ failed_dials url ?fs @
        (if length ?fs = 10 - i then [] else [Dialled url None])"
      unfolding len(1) using IH(3) d1 j1 s1 Inl by simp
    moreover have "if length ?fs = 10 - i then res = (if ?fs = [] then r else Inl (fst (last ?fs)))
        else \<exists>conn. res = Inr conn"
      unfolding len(1) using IH(4) by (simp split: if_splits)
    moreover have "500000000 * 2 ^ (i - 1 + n) \<le> snd (?fs ! n) \<and> snd (?fs ! n) < 1000000000 * 2 ^ (i - 1 + n)"
      if n: "n < length ?fs" for n
    proof (cases n)
      case 0
      then show ?thesis using b by simp
    next
      case (Suc m)
      with n have "m < length fs" by simp
      moreover have "i - 1 + n = i + 1 - 1 + m" using Suc Suc.prems(1) by simp
      ultimately show ?thesis using IH(5) Suc by simp
    qed
    ultimately show ?thesis by blast
  qed
qed

lemma dial_loop_from_one:
  assumes laws: "dial_laws B rt trace"
  shows "\<exists>res w' fs. dial_loop B rt url 1 r w = Ret (res, w') \<and> length fs \<le> 9 \<and>
    trace w' = trace w @ failed_dials url fs @ (if length fs = 9 then [] else [Dialled url None]) \<and>
    (if length fs = 9 then res = (if fs = [] then r else Inl (fst (last fs))) else \<exists>conn. res = Inr conn) \<and>
    (\<forall>k<length fs. 500000000 * 2 ^ k \<le> snd (fs ! k) \<and> snd (fs ! k) < 1000000000 * 2 ^ k)"
proof -
  have eqs: "10 - (1 :: nat) = 9" "(1 :: nat) - 1 + k = k" for k by simp_all
  have "(1 :: nat) \<le> 1" "(1 :: nat) \<le> 10" by simp_all
  from dial_loop_trace [OF laws this, of url r w] show ?thesis unfolding eqs .
qed

lemma NewWorker_after:
  assumes "dial_loop B rt (BrokerURL conf) 1 (Inl (Err [])) w = Ret (d, w1)"
  shows "\<exists>res w'. NewWorker B rt db lookup_env conf w = Ret (res, w') \<and> (isl d \<longrightarrow> isl res) \<and>
    (w' = w1 \<or> (\<exists>c org b u t. w' = snd (WriteAPI db c org b (snd (NewClient db u t w1)))))"
proof (cases d)
  case (Inl e)
  then show ?thesis using assms by (simp add: NewWorker_def)
next
  case (Inr conn)
  show ?thesis
  proof (cases "lookup_env influxTokEnv")
    case None
    then show ?thesis using assms Inr by (simp add: NewWorker_def)
  next
    case (Some t)
    then show ?thesis
      using assms Inr by (auto simp: NewWorker_def split: prod.splits) (metis snd_conv)
  qed
qed

text \<open>
  C25: \<open>NewWorker\<close> comes back, and this is all it did: it dialled the configured address, failed
  \<open>f\<close> times, slept after each failure, the \<open>k\<close>-th time from \<open>2 ^ k / 2\<close> up to \<open>2 ^ k\<close> seconds
  (counting from zero; at most 511 seconds in all), and then either connected, or had failed
  nine times. After nine failures it gives the last error; a connection gives a worker for the
  configuration if the variable for the token is set, and an error if not.
\<close>

theorem NewWorker_dials:
  fixes conf :: "('c, 'w) WorkerConfig"
  assumes laws: "dial_laws B rt trace"
    and db: "\<forall>u t w. trace (snd (NewClient db u t w)) = trace w"
      "\<forall>c org b w. trace (snd (WriteAPI db c org b w)) = trace w"
  shows "\<exists>res w' fs. NewWorker B rt db lookup_env conf w = Ret (res, w') \<and> length fs \<le> 9 \<and>
    trace w' = trace w @
      concat (map (\<lambda>(err, d). [Dialled (BrokerURL conf) (Some err), Slept d]) fs) @
      (if length fs = 9 then [] else [Dialled (BrokerURL conf) None]) \<and>
    (\<forall>k<length fs. 500000000 * 2 ^ k \<le> snd (fs ! k) \<and> snd (fs ! k) < 1000000000 * 2 ^ k) \<and>
    (if length fs = 9 then
       res = Inl (WrapQuoted ''failed to dial AMQP broker at '' (BrokerURL conf) '' after retries: '' (fst (last fs)))
     else if lookup_env ''INFLUX_TOKEN'' = None then
       res = Inl (Err ''could not find required variable: INFLUX_TOKEN'')
     else \<exists>wk. res = Inr wk \<and> w_config wk = conf)"
proof -
  obtain d w1 fs where d: "dial_loop B rt (BrokerURL conf) 1 (Inl (Err [])) w = Ret (d, w1)" "length fs \<le> 9"
    "trace w1 = trace w @ failed_dials (BrokerURL conf) fs @
      (if length fs = 9 then [] else [Dialled (BrokerURL conf) None])"
    "if length fs = 9 then d = (if fs = [] then Inl (Err []) else Inl (fst (last fs))) else \<exists>conn. d = Inr conn"
    "\<forall>k<length fs. 500000000 * 2 ^ k \<le> snd (fs ! k) \<and> snd (fs ! k) < 1000000000 * 2 ^ k"
    using dial_loop_from_one [OF laws, of "BrokerURL conf" "Inl (Err [])" w] by blast
  obtain res w' where n: "NewWorker B rt db lookup_env conf w = Ret (res, w')"
    "w' = w1 \<or> (\<exists>c org b u t. w' = snd (WriteAPI db c org b (snd (NewClient db u t w1))))"
    using NewWorker_after [OF d(1), of db lookup_env] by blast
  have "trace w' = trace w1" using n(2) db by auto
  moreover have "if length fs = 9 then
       res = Inl (WrapQuoted ''failed to dial AMQP broker at '' (BrokerURL conf) '' after retries: '' (fst (last fs)))
     else if lookup_env ''INFLUX_TOKEN'' = None then
       res = Inl (Err ''could not find required variable: INFLUX_TOKEN'')
     else \<exists>wk. res = Inr wk \<and> w_config wk = conf"
    using n(1) d(1,4) by (auto simp: NewWorker_def influxTokEnv_def split: if_splits option.splits prod.splits)
  moreover note n(1) d(2) d(3) [unfolded failed_dials_def] d(5)
  ultimately show ?thesis by (intro exI [of _ res] exI [of _ w'] exI [of _ fs] conjI) simp_all
qed

text \<open>A broker that refuses the first \<open>n\<close> connections, with the trace as the world.\<close>

definition dead_broker :: "nat \<Rightarrow> (unit, unit, unit, unit, dial_event list) broker" where
  "dead_broker n =
     \<lparr>Dial = \<lambda>u w. let r = (if length w < 2 * n then Inl (Err ''connection refused'') else Inr ()) in
        (r, w @ [Dialled u (case r of Inl err \<Rightarrow> Some err | Inr _ \<Rightarrow> None)]),
      Close_connection = \<lambda>_ w. (None, w),
      Open_channel = \<lambda>_ w. (Inr (), w), Close_channel = \<lambda>_ w. w,
      QueueDeclare = \<lambda>_ q _ _ _ _ w. (Inr q, w), QueueBind = \<lambda>_ _ _ _ _ w. (None, w),
      Consume = \<lambda>_ _ _ _ _ _ _ w. (Inr (), w), Publish = \<lambda>_ _ _ _ _ _ w. (None, w)\<rparr>"

definition counting_runtime :: "(unit, dial_event list) runtime" where
  "counting_runtime =
     \<lparr>Now = \<lambda>w. ((), w), Since = \<lambda>_ w. (0, w), UnixNano = \<lambda>_. 0,
      Sleep = \<lambda>d w. w @ [Slept (sint d)], Rand_Int63n = \<lambda>_ w. (0, w),
      Start_span = \<lambda>_ w. (True, w), Finish_span = \<lambda>w. w\<rparr>"

definition idle_influx :: "(unit, unit, 'w) influx" where
  "idle_influx = \<lparr>NewClient = \<lambda>_ _ w. ((), w), WriteAPI = \<lambda>_ _ _ w. ((), w), Flush = \<lambda>_ w. w,
     Close_client = \<lambda>_ w. w\<rparr>"

lemma dead_broker_laws: "dial_laws (dead_broker n) counting_runtime (\<lambda>w. w)"
  by (auto simp: dial_laws_def dead_broker_def counting_runtime_def Let_def)

theorem NewWorker_dials_witness:
  "\<forall>conf :: (unit, dial_event list) WorkerConfig.
    \<exists>res w' fs. NewWorker (dead_broker 4) counting_runtime idle_influx (\<lambda>_. None) conf [] = Ret (res, w') \<and>
      length fs \<le> 9 \<and>
      w' = concat (map (\<lambda>(err, d). [Dialled (BrokerURL conf) (Some err), Slept d]) fs) @
        (if length fs = 9 then [] else [Dialled (BrokerURL conf) None]) \<and>
      (\<forall>k<length fs. 500000000 * 2 ^ k \<le> snd (fs ! k) \<and> snd (fs ! k) < 1000000000 * 2 ^ k) \<and> isl res"
proof
  fix conf :: "(unit, dial_event list) WorkerConfig"
  show "\<exists>res w' fs. NewWorker (dead_broker 4) counting_runtime idle_influx (\<lambda>_. None) conf [] = Ret (res, w') \<and>
      length fs \<le> 9 \<and>
      w' = concat (map (\<lambda>(err, d). [Dialled (BrokerURL conf) (Some err), Slept d]) fs) @
        (if length fs = 9 then [] else [Dialled (BrokerURL conf) None]) \<and>
      (\<forall>k<length fs. 500000000 * 2 ^ k \<le> snd (fs ! k) \<and> snd (fs ! k) < 1000000000 * 2 ^ k) \<and> isl res"
    using NewWorker_dials [OF dead_broker_laws, of idle_influx 4 "\<lambda>_. None" conf "[]"]
    by (fastforce simp: idle_influx_def split: if_splits)
qed

subsection \<open>Registering: the order of the calls\<close>

text \<open>The calls of a registration, up to the publication of its outcome.\<close>

definition registration_calls :: "string \<Rightarrow> string \<Rightarrow> string \<Rightarrow> event list" where
  "registration_calls q rq b =
     [Declared q, Bound q ''start'' ''amq.topic'', Consuming q, Declared rq, Published [] rq b]"

text \<open>What the worker's own functions leave alone: the init function, the wait and the clock make no broker calls.\<close>

definition quiet ::
  "('t, 'w) runtime \<Rightarrow> ('d \<Rightarrow> go_int \<Rightarrow> 'w \<Rightarrow> start_event \<times> 'w) \<Rightarrow> ('c, 'w) WorkerConfig \<Rightarrow>
   ('w \<Rightarrow> event list) \<Rightarrow> bool" where
  "quiet rt wait_start conf hist \<longleftrightarrow>
     (\<forall>w. hist (snd (Now rt w)) = hist w) \<and>
     (\<forall>d t w. hist (snd (wait_start d t w)) = hist w) \<and>
     (\<forall>i c w. hist (snd (snd (InitFunc conf i c w))) = hist w)"

lemma quiet_now: "quiet rt wait_start conf hist \<Longrightarrow> Now rt w = (t, w') \<Longrightarrow> hist w' = hist w"
  unfolding quiet_def by (metis snd_conv)

lemma quiet_wait: "quiet rt wait_start conf hist \<Longrightarrow> wait_start d t w = (e, w') \<Longrightarrow> hist w' = hist w"
  unfolding quiet_def by (metis snd_conv)

lemma quiet_init:
  "quiet rt wait_start conf hist \<Longrightarrow> InitFunc conf i c w = (r, c', w') \<Longrightarrow> hist w' = hist w"
  unfolding quiet_def by (metis snd_conv)

lemma publish_registration_calls:
  assumes laws: "history_laws B hist" and q: "quiet rt wait_start conf hist"
    and p: "publish_registration B rt et wait_start ch d corr e w = (err, w')"
  shows "(\<exists>rq. hist w' = hist w @ [Declared rq, Published [] rq (errorText et e)] \<and> (err = None \<longleftrightarrow> e = None)) \<or>
    ((\<exists>rq. hist w' = hist w \<or> hist w' = hist w @ [Declared rq]) \<and> err \<noteq> None)"
proof -
  obtain r1 w1 where 1: "QueueDeclare B ch ''registrations'' False False False False w = (r1, w1)" by fastforce
  note h1 = history_declare [OF laws 1]
  show ?thesis
  proof (cases r1)
    case (Inl x)
    then show ?thesis using p 1 h1 by (auto simp: publish_registration_def)
  next
    case (Inr rq)
    obtain t w2 where 2: "Now rt w1 = (t, w2)" by fastforce
    note h2 = quiet_now [OF q 2]
    obtain r3 w3 where 3: "Publish B ch [] rq True False
        \<lparr>ContentType = ''text/plain'', Body = errorText et e, CorrelationId = corr, Timestamp = Some t\<rparr> w2
        = (r3, w3)" by fastforce
    note h3 = history_publish [OF laws 3]
    obtain ev w4 where 4: "wait_start d startTimeout w3 = (ev, w4)" by fastforce
    note h4 = quiet_wait [OF q 4]
    show ?thesis
    proof (cases r3)
      case (Some x)
      then show ?thesis using p 1 2 3 Inr h1 h2 h3 by (auto simp: publish_registration_def)
    next
      case None
      then show ?thesis
        using p 1 2 3 4 Inr h1 h2 h3 h4
        by (cases e) (auto simp: publish_registration_def)
    qed
  qed
qed

text \<open>A history that follows a registration for \<open>k\<close> calls, with the outcome \<open>e\<close> of the init function.\<close>

definition registered_as ::
  "(goerr \<Rightarrow> string) \<Rightarrow> event list \<Rightarrow> goerr option \<Rightarrow> bool" where
  "registered_as et evs err \<longleftrightarrow>
     (\<exists>q rq e k. evs = take k (registration_calls q rq (errorText et e)) \<and> k \<le> 5 \<and>
       (err = None \<longleftrightarrow> k = 5 \<and> e = None))"

lemma registered_asI:
  "evs = take k (registration_calls q rq (errorText et e)) \<Longrightarrow> k \<le> 5 \<Longrightarrow>
    (err = None \<longleftrightarrow> k = 5 \<and> e = None) \<Longrightarrow> registered_as et evs err"
  unfolding registered_as_def by blast

lemma Register_with_calls:
  assumes laws: "history_laws B hist" and q: "quiet rt wait_start (w_config wk) hist"
    and p: "Register_with B rt et wait_start ch wk w = (Ret (err, wk'), w')"
  shows "\<exists>evs. hist w' = hist w @ evs \<and> registered_as et evs err"
proof -
  obtain r1 w1 where 1: "QueueDeclare B ch [] False True False False w = (r1, w1)" by fastforce
  note h1 = history_declare [OF laws 1]
  show ?thesis
  proof (cases r1)
    case (Inl x)
    then show ?thesis
      using p 1 h1 by (auto simp: Register_with_def intro!: registered_asI [of _ 0])
  next
    case q1: (Inr q1)
    obtain r2 w2 where 2: "QueueBind B ch q1 ''start'' ''amq.topic'' False w1 = (r2, w2)" by fastforce
    note h2 = history_bind [OF laws 2]
    show ?thesis
    proof (cases r2)
      case (Some x)
      then show ?thesis
        using p 1 2 q1 h1 h2
        by (auto simp: Register_with_def registration_calls_def intro!: registered_asI [of _ 1 q1])
    next
      case b: None
      obtain r3 w3 where 3: "Consume B ch q1 [] True True False False w2 = (r3, w3)" by fastforce
      note h3 = history_consume [OF laws 3]
      show ?thesis
      proof (cases r3)
        case (Inl x)
        then show ?thesis
          using p 1 2 3 q1 b h1 h2 h3
          by (auto simp: Register_with_def registration_calls_def numeral_2_eq_2 intro!: registered_asI [of _ 2 q1])
      next
        case d: (Inr d)
        obtain res cfg w4 where 4: "InitFunc (w_config wk) (correlationID wk) (OperationConfig (w_config wk)) w3
            = (res, cfg, w4)" by (metis surj_pair)
        note h4 = quiet_init [OF q 4]
        obtain n e where res: "res = Ret (n, e)"
          using p 1 2 3 4 q1 b d by (cases res) (auto simp: Register_with_def)
        obtain w5 where 5: "publish_registration B rt et wait_start ch d (n @ correlationID wk) e w4 = (err, w5)"
          "w5 = w'"
          using p 1 2 3 4 q1 b d res by (auto simp: Register_with_def Let_def split: prod.splits)
        have h: "hist w4 = hist w @ [Declared q1, Bound q1 ''start'' ''amq.topic'', Consuming q1]"
          using h1 h2 h3 h4 q1 b d by simp
        from publish_registration_calls [OF laws q 5(1)]
        consider (sent) rq where "hist w' = hist w4 @ [Declared rq, Published [] rq (errorText et e)]"
            "err = None \<longleftrightarrow> e = None"
          | (none) "hist w' = hist w4" "err \<noteq> None"
          | (declared) rq where "hist w' = hist w4 @ [Declared rq]" "err \<noteq> None"
          using 5(2) by auto
        then show ?thesis
        proof cases
          case sent
          then have "hist w' = hist w @ registration_calls q1 rq (errorText et e)"
            using h by (simp add: registration_calls_def)
          moreover have "registered_as et (registration_calls q1 rq (errorText et e)) err"
            using sent(2) by (intro registered_asI [of _ 5 q1 rq et e]) (simp_all add: registration_calls_def)
          ultimately show ?thesis by blast
        next
          case none
          have "registered_as et (take 3 (registration_calls q1 [] (errorText et e))) err"
            using none(2) by (intro registered_asI [OF refl]) simp_all
          with none(1) h show ?thesis by (auto simp: registration_calls_def eval_nat_numeral)
        next
          case declared
          have "registered_as et (take 4 (registration_calls q1 rq (errorText et e))) err"
            using declared(2) by (intro registered_asI [OF refl]) simp_all
          with declared(1) h show ?thesis by (auto simp: registration_calls_def eval_nat_numeral)
        qed
      qed
    qed
  qed
qed

text \<open>
  C19: a registration that returns has made its broker calls in the order declare, bind,
  consume, declare, publish and close, stopping early only with an error: the worker listens for
  the start command before it announces itself. It succeeds exactly if all were made and the
  init function had no error, and then the message published has an empty body; the body is the
  error's text otherwise. The channel is closed once, as the last call.
\<close>

theorem Register_calls:
  assumes laws: "history_laws B hist" and q: "quiet rt wait_start (w_config wk) hist"
    and p: "Register B rt et wait_start wk w = (Ret (err, wk'), w')"
  shows "(hist w' = hist w \<and> err \<noteq> None) \<or>
    (\<exists>q rq e k. hist w' = hist w @
        take k [Declared q, Bound q ''start'' ''amq.topic'', Consuming q, Declared rq,
          Published [] rq (case e of None \<Rightarrow> [] | Some x \<Rightarrow> et x)] @ [ChannelClosed] \<and>
      k \<le> 5 \<and> (err = None \<longleftrightarrow> k = 5 \<and> e = None))"
proof -
  from p obtain conn where c: "w_conn wk = Some conn" by (auto simp: Register_def split: option.splits)
  obtain r w1 where 1: "Open_channel B conn w = (r, w1)" by fastforce
  note h1 = history_open [OF laws 1]
  show ?thesis
  proof (cases r)
    case (Inl x)
    then show ?thesis using p c 1 h1 by (auto simp: Register_def)
  next
    case (Inr ch)
    obtain w2 where 2: "Register_with B rt et wait_start ch wk w1 = (Ret (err, wk'), w2)"
      "w' = Close_channel B ch w2"
      using p c 1 Inr by (auto simp: Register_def split: prod.splits outcome.splits)
    obtain evs where "hist w2 = hist w1 @ evs" "registered_as et evs err"
      using Register_with_calls [OF laws q 2(1)] by blast
    then show ?thesis
      using h1 2(2) history_close [OF laws]
      by (auto simp: registered_as_def registration_calls_def errorText_def)
  qed
qed

definition noting_runtime :: "(unit, event list) runtime" where
  "noting_runtime =
     \<lparr>Now = \<lambda>w. ((), w), Since = \<lambda>_ w. (0, w), UnixNano = \<lambda>_. 0, Sleep = \<lambda>_ w. w,
      Rand_Int63n = \<lambda>_ w. (0, w), Start_span = \<lambda>_ w. (True, w), Finish_span = \<lambda>w. w\<rparr>"

definition noting_conf :: "(unit, event list) WorkerConfig" where
  "noting_conf =
     \<lparr>Url = [], Bucket = [], OperationType = ''write'', BrokerURL = [], OperationPeriod = 1,
      OperationsPerStream = 1, NumWorkers = 1, OperationConfig = (),
      WriteOp = \<lambda>c w. (Ret None, c, w), ReadOp = \<lambda>c w. (Ret None, c, w),
      InitFunc = \<lambda>_ c w. (Ret (''u'', None), c, w), ShutdownFunc = None, DataSizeBytes = 0\<rparr>"

definition noting_worker :: "(unit, unit, unit, unit, event list) Worker" where
  "noting_worker = \<lparr>influxClient = None, writeAPI = None, w_conn = Some (), correlationID = ''s'',
     username = [], w_config = noting_conf\<rparr>"

definition start_now :: "unit \<Rightarrow> go_int \<Rightarrow> event list \<Rightarrow> start_event \<times> event list" where
  "start_now d t w = (StartDelivered, w)"

theorem Register_calls_witness:
  "\<exists>wk' w' q rq. Register noting_broker noting_runtime (\<lambda>_. ''error'') start_now noting_worker [] =
      (Ret (None, wk'), w') \<and> w' = registration_calls q rq [] @ [ChannelClosed]"
proof -
  obtain wk' w' where r: "Register noting_broker noting_runtime (\<lambda>_. ''error'') start_now noting_worker [] =
      (Ret (None, wk'), w')"
    by (simp add: Register_def Register_with_def publish_registration_def noting_broker_def
        noting_runtime_def noting_worker_def noting_conf_def start_now_def Let_def)
  have "quiet noting_runtime start_now (w_config noting_worker) (\<lambda>w. w)"
    by (simp add: quiet_def noting_runtime_def start_now_def noting_worker_def noting_conf_def)
  from Register_calls [OF noting_broker_laws this r]
  obtain q rq where "w' = registration_calls q rq [] @ [ChannelClosed]"
    by (auto simp: registration_calls_def)
  with r show ?thesis by (auto simp: registration_calls_def)
qed

end
