(* ===== verification/SimiCmd.thy ===== *)
theory SimiCmd
  imports ByteSize CCWorker Worker
begin

section \<open>The simi command (cmd/simi.go)\<close>

text \<open>
  \<open>main\<close>, \<open>runSimi\<close>, \<open>setupCustomChaincodes\<close> and \<open>benchmarkOperation\<close>: they read the flags and
  the job index, load the configuration and the data size, install the operations of \<open>CCWorker\<close>
  and run a \<open>Worker\<close>. The parts of the outside world are gathered in \<open>surroundings\<close>; a nil
  function is one that panics. A run that returns gives the error, the points it wrote and the
  world.
\<close>

record ('conn, 'ch, 'd, 't, 'f, 'client, 'api, 'x, 'w) surroundings =
  s_broker :: "('conn, 'ch, 'd, 't, 'w) broker"
  s_runtime :: "('t, 'w) runtime"
  s_host :: "('f, 'w) host"
  s_influx :: "('client, 'api, 'w) influx"
  s_err_text :: "goerr \<Rightarrow> string"
  s_wait_start :: "'d \<Rightarrow> go_int \<Rightarrow> 'w \<Rightarrow> start_event \<times> 'w"
  s_lookup_env :: "string \<Rightarrow> string option"
  s_read_file :: "string \<Rightarrow> string res"
  s_yaml :: "string \<Rightarrow> ('x operation_config, 'w) WorkerConfig \<Rightarrow>
    goerr option \<times> ('x operation_config, 'w) WorkerConfig"
  s_decoder :: "'x mapstructure"
  s_nil :: 'x
  s_tracer_registered :: "'w \<Rightarrow> bool"
  s_jaeger_env :: "'w \<Rightarrow> goerr option \<times> 'w"
  s_new_tracer :: "'w \<Rightarrow> goerr option \<times> 'w"
  s_close_tracer :: "'w \<Rightarrow> 'w"

definition getenv :: "('conn, 'ch, 'd, 't, 'f, 'client, 'api, 'x, 'w) surroundings \<Rightarrow> string \<Rightarrow> string" where
  "getenv S n = (case s_lookup_env S n of None \<Rightarrow> [] | Some v \<Rightarrow> v)"

definition setupCustomChaincodes ::
  "('f, 'w) host \<Rightarrow> 'x mapstructure \<Rightarrow> go_int \<Rightarrow>
   ('x operation_config, 'w) WorkerConfig \<Rightarrow> goerr option \<times> ('x operation_config, 'w) WorkerConfig" where
  "setupCustomChaincodes h ms numWriters c =
     (case SetupSimi h ms numWriters c of
        (Some err, c) \<Rightarrow> (Some err, c)
      | (None, c) \<Rightarrow>
          (case SetupReadOp h c of
             (Some err, c) \<Rightarrow> (Some err, c)
           | (None, c) \<Rightarrow>
               (case SetupWriteOp h c of
                  (Some err, c) \<Rightarrow> (Some err, c)
                | (None, c) \<Rightarrow> (None, c))))"

text \<open>\<open>benchmarkOperation\<close>; the worker is closed on every return.\<close>

definition benchmarkOperation ::
  "('conn, 'ch, 'd, 't, 'f, 'client, 'api, 'x, 'w) surroundings \<Rightarrow>
   ('x operation_config, 'w) WorkerConfig \<Rightarrow> 'w \<Rightarrow> (goerr option \<times> 't point list \<times> 'w) outcome" where
  "benchmarkOperation S c w =
     outcome_bind (NewWorker (s_broker S) (s_runtime S) (s_influx S) (s_lookup_env S) c w) (\<lambda>(res, w).
       case res of
         Inl err \<Rightarrow> Ret (Some (Wrap ''failed to initialize benchmark worker: '' err), [], w)
       | Inr benchmarkWorker \<Rightarrow>
           (case Register (s_broker S) (s_runtime S) (s_err_text S) (s_wait_start S) benchmarkWorker w of
              (res, w) \<Rightarrow>
                outcome_bind res (\<lambda>(err, wk).
                  case err of
                    Some err \<Rightarrow>
                      Ret (Some (Wrap ''registration failed: '' err), [],
                           snd (Close_worker (s_broker S) (s_influx S) wk w))
                  | None \<Rightarrow>
                      outcome_bind (BenchOperation (s_runtime S) (s_err_text S) (w_config wk) w) (\<lambda>(err, s).
                        let wk = wk\<lparr>w_config := (w_config wk)\<lparr>OperationConfig := b_config s\<rparr>\<rparr>
                        in Ret (map_option (Wrap ''benchmark writing failed: '') err, b_points s,
                                snd (Close_worker (s_broker S) (s_influx S) wk (b_world s)))))))"

definition zero_WorkerConfig :: "'x \<Rightarrow> ('x operation_config, 'w) WorkerConfig" where
  "zero_WorkerConfig nil =
     \<lparr>Url = [], Bucket = [], OperationType = [], BrokerURL = [], OperationPeriod = 0,
      OperationsPerStream = 0, NumWorkers = 0, OperationConfig = Other nil,
      WriteOp = \<lambda>c w. (Panic nil_pointer, c, w), ReadOp = \<lambda>c w. (Panic nil_pointer, c, w),
      InitFunc = \<lambda>_ c w. (Panic nil_pointer, c, w), ShutdownFunc = None, DataSizeBytes = 0\<rparr>"

text \<open>The configuration of \<open>runSimi\<close>: the file, the operation type, the data size and the operations.\<close>

definition load_simi ::
  "('conn, 'ch, 'd, 't, 'f, 'client, 'api, 'x, 'w) surroundings \<Rightarrow> string \<Rightarrow> go_int \<Rightarrow> string \<Rightarrow>
   ('x operation_config, 'w) WorkerConfig res" where
  "load_simi S operationType numWriters dataSizeStr =
     (case LoadConfig (getenv S) (s_read_file S) (s_yaml S) (zero_WorkerConfig (s_nil S)) of
        (Some err, c) \<Rightarrow> Inl (Wrap ''error loading config: '' err)
      | (None, c) \<Rightarrow>
          let c = c\<lparr>OperationType := operationType\<rparr> in
          (case (if dataSizeStr \<noteq> [] then LoadByteSize dataSizeStr c else (None, c)) of
             (Some err, c) \<Rightarrow> Inl (Wrap ''error loading data size: '' err)
           | (None, c) \<Rightarrow>
               (case setupCustomChaincodes (s_host S) (s_decoder S) numWriters c of
                  (Some err, c) \<Rightarrow> Inl (Wrap ''error parsing custom Simi configuration: '' err)
                | (None, c) \<Rightarrow> Inr c)))"

text \<open>\<open>runSimi\<close>: a tracer made here is closed on every return.\<close>

definition runSimi ::
  "('conn, 'ch, 'd, 't, 'f, 'client, 'api, 'x, 'w) surroundings \<Rightarrow> string \<Rightarrow> go_int \<Rightarrow> string \<Rightarrow> 'w \<Rightarrow>
   (goerr option \<times> 't point list \<times> 'w) outcome" where
  "runSimi S operationType numWriters dataSizeStr w =
     (let body = (\<lambda>w. case load_simi S operationType numWriters dataSizeStr of
                        Inl err \<Rightarrow> Ret (Some err, [], w)
                      | Inr c \<Rightarrow> benchmarkOperation S c w)
      in if s_tracer_registered S w then body w
         else
           (case s_jaeger_env S w of
              (Some err, w) \<Rightarrow> Ret (Some (Wrap ''could not parse Jaeger env vars: '' err), [], w)
            | (None, w) \<Rightarrow>
                (case s_new_tracer S w of
                   (Some err, w) \<Rightarrow> Ret (Some (Wrap ''could not initialize jaeger tracer: '' err), [], w)
                 | (None, w) \<Rightarrow>
                     outcome_bind (body w) (\<lambda>(err, pts, w). Ret (err, pts, s_close_tracer S w)))))"

definition operation_type :: "go_int \<Rightarrow> go_int \<Rightarrow> string" where
  "operation_type i numWriters = (if sint numWriters \<le> sint i then ''read'' else ''write'')"

text \<open>\<open>main\<close>, with the values of the two flags.\<close>

definition simi_main ::
  "('conn, 'ch, 'd, 't, 'f, 'client, 'api, 'x, 'w) surroundings \<Rightarrow> go_int \<Rightarrow> string \<Rightarrow> 'w \<Rightarrow>
   ('t point list \<times> 'w) outcome" where
  "simi_main S numWriters dataSizeStr w =
     (case Atoi (getenv S ''JOB_COMPLETION_INDEX'') of
        Inl err \<Rightarrow> Fatal (Err ''Failed to parse ID'')
      | Inr i \<Rightarrow>
          outcome_bind (runSimi S (operation_type i numWriters) numWriters dataSizeStr w)
            (\<lambda>(err, pts, w). case err of Some e \<Rightarrow> Fatal e | None \<Rightarrow> Ret (pts, w)))"

subsection \<open>Writers and readers\<close>

lemma sint_of_nat64: "i < 2 ^ 63 \<Longrightarrow> sint (of_nat i :: go_int) = int i"
  using sint_of_int64 [of "int i"] by simp

text \<open>
  Of the \<open>n\<close> pods of an indexed job, with completion indices 0 to \<open>n - 1\<close>, exactly the first
  \<open>numWriters\<close> write and the others read.
\<close>

theorem writers_count:
  assumes "n \<le> 2 ^ 63"
  shows "card {i. i < n \<and> operation_type (of_nat i) numWriters = ''write''} = min n (nat (sint numWriters))"
proof -
  have "i < n \<Longrightarrow> operation_type (of_nat i) numWriters = ''write'' \<longleftrightarrow> i < nat (sint numWriters)" for i
    using assms sint_of_nat64 [of i] by (auto simp: operation_type_def)
  then have "{i. i < n \<and> operation_type (of_nat i) numWriters = ''write''} = {..< min n (nat (sint numWriters))}"
    by auto
  then show ?thesis by simp
qed

theorem writers_count_witness:
  "card {i. i < 5 \<and> operation_type (of_nat i) 2 = ''write''} = 2"
  using writers_count [of 5 2] by simp

subsection \<open>What the set-up installs\<close>

lemma setupCustomChaincodes_ok:
  assumes "setupCustomChaincodes h ms numWriters c = (None, c')"
  shows "\<exists>worker. Decode ms (simi_decoder (ToSnake ms)) (OperationConfig c) = Inr worker \<and>
    OperationConfig c' = CC worker \<and> WriteOp c' = write_operation h (DataSizeBytes c) \<and>
    ReadOp c' = read_operation h \<and> InitFunc c' = init_worker h (OperationType c) numWriters \<and>
    ShutdownFunc c' = Some shutdown_worker \<and> DataSizeBytes c' = DataSizeBytes c \<and>
    OperationPeriod c' = OperationPeriod c \<and> OperationsPerStream c' = OperationsPerStream c \<and>
    OperationType c' = OperationType c"
  using assms
  by (auto simp: setupCustomChaincodes_def SetupSimi_def SetupReadOp_def SetupWriteOp_def Let_def
      split: option.splits sum.splits)

text \<open>The benchmark with what the set-up installs; \<open>n\<close> is the number of iterations.\<close>

lemma installed_benchmark:
  fixes c :: "('x operation_config, 'w) WorkerConfig" and rt :: "('t, 'w) runtime"
  defines "n \<equiv> unat (OperationsPerStream c)"
  assumes "setupCustomChaincodes h ms numWriters c = (None, c')"
    and "Decode ms (simi_decoder (ToSnake ms)) (OperationConfig c) = Inr (Some a)"
    and "rand_law h" and "0 \<le> sint (DataSizeBytes c)" and "0 < sint (OperationPeriod c)"
  shows "\<exists>d w1 t w2 ss. Rand_Int63n rt (OperationPeriod c) w = (d, w1) \<and> Now rt (Sleep rt d w1) = (t, w2) \<and>
    length ss = Suc n \<and>
    ss ! 0 = \<lparr>b_result = \<lparr>res_Elapsed = 0, res_Err = [], res_Min = MaxDuration, res_Max = 0, res_AvgTotal = 0,
        res_Start = UnixNano rt t\<rparr>, b_points = [], b_config = CC (Some a), b_world = w2\<rparr> \<and>
    (\<forall>i < n. bench_iteration rt et c' t (ss ! i) = Ret (ss ! Suc i) \<and>
      (\<exists>ns. iteration_adds et (ss ! i) (ss ! Suc i) ns)) \<and>
    BenchOperation rt et c' w = Ret (None, ss ! n) \<and> summarises (b_result (ss ! n)) (b_points (ss ! n))"
proof -
  from setupCustomChaincodes_ok [OF assms(2)] assms(3)
  have c': "OperationConfig c' = CC (Some a)" "WriteOp c' = write_operation h (DataSizeBytes c)"
    "ReadOp c' = read_operation h" "OperationPeriod c' = OperationPeriod c"
    "OperationsPerStream c' = OperationsPerStream c" by auto
  then have "ready_cc h (DataSizeBytes c) (OperationConfig c')" using assms(4,5) by (auto simp: ready_cc_def)
  moreover obtain d w1 where d: "Rand_Int63n rt (OperationPeriod c') w = (d, w1)" by fastforce
  moreover obtain t w2 where t: "Now rt (Sleep rt d w1) = (t, w2)" by fastforce
  moreover have "0 < sint (OperationPeriod c')" using c'(4) assms(6) by simp
  ultimately obtain ss where ss: "length ss = Suc n"
    "ss ! 0 = \<lparr>b_result = \<lparr>res_Elapsed = 0, res_Err = [], res_Min = MaxDuration, res_Max = 0, res_AvgTotal = 0,
        res_Start = UnixNano rt t\<rparr>, b_points = [], b_config = CC (Some a), b_world = w2\<rparr>"
    "\<forall>i < n. bench_iteration rt et c' t (ss ! i) = Ret (ss ! Suc i) \<and>
      (\<exists>ns. iteration_adds et (ss ! i) (ss ! Suc i) ns)"
    "BenchOperation rt et c' w = Ret (None, ss ! n)" "bench_ok (ready_cc h (DataSizeBytes c)) (ss ! n)"
    using cc.BenchOperation_run [OF c'(2,3) _ _ d t, where et = et] unfolding c'(1,5) n_def by blast
  show ?thesis
    using d [unfolded c'(4)] t ss by (intro exI conjI) (auto simp: bench_ok_def)
qed

text \<open>
  C13: with the operations \<open>setupCustomChaincodes\<close> installs for a decoded worker, a data size
  that is not negative and a positive period, the benchmark comes back, without an error,
  whatever fails in between. Its states \<open>ss\<close> are those of the run itself: the first, after the
  random delay, has no points, a minimum of nine hours, a maximum and total of zero and the time
  the worker started; each of exactly \<open>OperationsPerStream\<close> iterations of the loop's body leads
  to the next, adds at most one write and one read measurement, in this order, and leaves an
  empty error text when it measured both and the text of an error otherwise. The last is what
  the benchmark returns, and its minimum, maximum and total are those of all measurements.
\<close>

theorem simi_benchmark:
  fixes c :: "('x operation_config, 'w) WorkerConfig" and rt :: "('t, 'w) runtime"
  assumes "setupCustomChaincodes h ms numWriters c = (None, c')"
    and "Decode ms (simi_decoder (ToSnake ms)) (OperationConfig c) = Inr (Some a)"
    and "rand_law h" and "0 \<le> sint (DataSizeBytes c)" and "0 < sint (OperationPeriod c)"
  shows "\<exists>d w1 t w2 ss. Rand_Int63n rt (OperationPeriod c) w = (d, w1) \<and> Now rt (Sleep rt d w1) = (t, w2) \<and>
    length ss = Suc (unat (OperationsPerStream c)) \<and>
    ss ! 0 = \<lparr>b_result = \<lparr>res_Elapsed = 0, res_Err = [], res_Min = 9 * 3600 * 10 ^ 9, res_Max = 0, res_AvgTotal = 0,
        res_Start = UnixNano rt t\<rparr>, b_points = [], b_config = CC (Some a), b_world = w2\<rparr> \<and>
    (\<forall>i < unat (OperationsPerStream c). bench_iteration rt et c' t (ss ! i) = Ret (ss ! Suc i) \<and>
      (\<exists>ns. iteration_adds et (ss ! i) (ss ! Suc i) ns)) \<and>
    BenchOperation rt et c' w = Ret (None, ss ! unat (OperationsPerStream c)) \<and>
    summarises (b_result (ss ! unat (OperationsPerStream c))) (b_points (ss ! unat (OperationsPerStream c)))"
  using installed_benchmark [OF assms, of rt w et] unfolding MaxDuration_def .

definition demo_runtime :: "(unit, 'w) runtime" where
  "demo_runtime =
     \<lparr>Now = \<lambda>w. ((), w), Since = \<lambda>_ w. (7, w), UnixNano = \<lambda>_. 0, Sleep = \<lambda>_ w. w,
      Rand_Int63n = \<lambda>_ w. (0, w), Start_span = \<lambda>_ w. (True, w), Finish_span = \<lambda>w. w\<rparr>"

definition demo_config :: "(unit operation_config, string list list) WorkerConfig" where
  "demo_config = (zero_WorkerConfig ())\<lparr>OperationPeriod := 5, OperationsPerStream := 2\<rparr>"

lemma demo_setup:
  "\<exists>c'. setupCustomChaincodes demo_host (demo_decoder demo_worker) k c = (None, c')"
  by (simp add: setupCustomChaincodes_def SetupSimi_def SetupReadOp_def SetupWriteOp_def demo_decoder_def)

theorem simi_benchmark_witness:
  "\<exists>c' ss. setupCustomChaincodes demo_host (demo_decoder demo_worker) 1 demo_config = (None, c') \<and>
    length ss = 3 \<and> b_points (ss ! 0) = [] \<and>
    bench_iteration demo_runtime (\<lambda>_. ''error'') c' () (ss ! 0) = Ret (ss ! 1) \<and>
    bench_iteration demo_runtime (\<lambda>_. ''error'') c' () (ss ! 1) = Ret (ss ! 2) \<and>
    BenchOperation demo_runtime (\<lambda>_. ''error'') c' [] = Ret (None, ss ! 2) \<and>
    summarises (b_result (ss ! 2)) (b_points (ss ! 2))"
proof -
  obtain c' where c': "setupCustomChaincodes demo_host (demo_decoder demo_worker) 1 demo_config = (None, c')"
    using demo_setup by blast
  have n: "unat (OperationsPerStream demo_config) = 2" by (simp add: demo_config_def)
  have "Decode (demo_decoder demo_worker) cfg (OperationConfig demo_config) = Inr (Some demo_worker)" for cfg
    by (simp add: demo_decoder_def)
  moreover have "0 \<le> sint (DataSizeBytes demo_config)" "0 < sint (OperationPeriod demo_config)"
    by (simp_all add: demo_config_def zero_WorkerConfig_def)
  ultimately obtain ss where "length ss = Suc 2" "b_points (ss ! 0) = []"
    "\<forall>i < 2. bench_iteration demo_runtime (\<lambda>_. ''error'') c' () (ss ! i) = Ret (ss ! Suc i)"
    "BenchOperation demo_runtime (\<lambda>_. ''error'') c' [] = Ret (None, ss ! 2)"
    "summarises (b_result (ss ! 2)) (b_points (ss ! 2))"
    using simi_benchmark [OF c' _ demo_host_rand, of demo_worker demo_runtime "[]" "\<lambda>_. ''error''"] unfolding n
    by fastforce
  then show ?thesis using c' by (intro exI [of _ c'] exI [of _ ss]) (simp add: numeral_2_eq_2)
qed

subsection \<open>Sizes out of range\<close>

lemma bench_panics:
  assumes "WriteOp conf = wop" and "\<And>w. \<exists>c' w'. wop (OperationConfig conf) w = (Panic t, c', w')"
    and "\<And>w. fst (Start_span rt (OperationType conf) w)"
    and "0 < sint (OperationPeriod conf)" and "0 < OperationsPerStream conf"
  shows "BenchOperation rt et conf w = Panic t"
proof -
  have span: "\<exists>c' w'. in_span rt (OperationType conf) wop (OperationConfig conf) w = (Panic t, c', w')" for w
  proof -
    obtain w1 where "Start_span rt (OperationType conf) w = (True, w1)"
      using assms(3) [of w] by (cases "Start_span rt (OperationType conf) w") auto
    with assms(2) [of w1] show ?thesis by (auto simp: in_span_def)
  qed
  have "measured rt et ws n (in_span rt (OperationType conf) wop) s = Panic t"
    if "b_config s = OperationConfig conf" for ws n s
  proof -
    obtain u w1 where "Now rt (b_world s) = (u, w1)" by fastforce
    with span [of w1] that show ?thesis by (auto simp: measured_def)
  qed
  then have "bench_iteration rt et conf ws s = Panic t" if "b_config s = OperationConfig conf" for ws s
    using that assms(1) by (simp add: bench_iteration_def)
  then have "bench_loop rt et conf ws 0 s = Panic t" if "b_config s = OperationConfig conf" for ws s
    using that assms(5) by (simp add: bench_loop.simps [of rt et conf ws 0])
  then show ?thesis
    using assms(4) by (auto simp: BenchOperation_def Int63n_def Let_def split: prod.splits)
qed

text \<open>
  C27: a pod started with \<open>-dataSizeBytes\<close> of 8EiB or more passes the loading of its
  configuration and then panics in its first write, in \<open>strings.Repeat\<close>.
\<close>

theorem oversize_panics:
  fixes c :: "('x operation_config, 'w) WorkerConfig" and rt :: "('t, 'w) runtime"
  assumes "8 \<le> v" and "v \<le> 2 ^ 53" and "NewDecoder ms (simi_decoder (ToSnake ms)) = None"
    and "Decode ms (simi_decoder (ToSnake ms)) (OperationConfig c) = Inr (Some a)"
    and "\<And>w. fst (Start_span rt (OperationType c) w)"
    and "0 < sint (OperationPeriod c)" and "0 < OperationsPerStream c"
  shows "\<exists>c1 c2. LoadByteSize (show_nat v @ ''EiB'') c = (None, c1) \<and>
    setupCustomChaincodes h ms numWriters c1 = (None, c2) \<and>
    BenchOperation rt et c2 w = Panic ''strings: negative Repeat count''"
proof -
  let ?c1 = "c\<lparr>DataSizeBytes := - (2 ^ 63)\<rparr>"
  have l: "LoadByteSize (show_nat v @ ''EiB'') c = (None, ?c1)"
    by (rule EiB_out_of_range [OF assms(1,2)])
  obtain c2 where s: "setupCustomChaincodes h ms numWriters ?c1 = (None, c2)"
    using assms(3,4) by (auto simp: setupCustomChaincodes_def SetupSimi_def SetupReadOp_def SetupWriteOp_def)
  then have c2: "OperationConfig c2 = CC (Some a)" "WriteOp c2 = write_operation h (- (2 ^ 63))"
    "OperationPeriod c2 = OperationPeriod c" "OperationsPerStream c2 = OperationsPerStream c"
    "OperationType c2 = OperationType c"
    using setupCustomChaincodes_ok [OF s] assms(4) by auto
  have "\<exists>c' w'. write_operation h (- (2 ^ 63)) (OperationConfig c2) w =
      (Panic ''strings: negative Repeat count'', c', w')" for w
    by (simp add: c2(1) write_operation_def CallWriteFunc_def writeKey_def Repeat_a_def)
  then have "BenchOperation rt et c2 w = Panic ''strings: negative Repeat count''"
    using assms(5-7) c2 by (intro bench_panics [OF c2(2)]) auto
  with l s show ?thesis by blast
qed

theorem oversize_panics_witness:
  "\<exists>c1 c2. LoadByteSize (show_nat 10 @ ''EiB'') demo_config = (None, c1) \<and>
    setupCustomChaincodes demo_host (demo_decoder demo_worker) 1 c1 = (None, c2) \<and>
    BenchOperation (demo_runtime :: (unit, string list list) runtime) (\<lambda>_. []) c2 [] =
      Panic ''strings: negative Repeat count''"
  by (rule oversize_panics) (simp_all add: demo_runtime_def demo_config_def demo_decoder_def)

end
