(* ===== verification/Pods.thy ===== *)
theory Pods
  imports SimiCmd
begin

section \<open>The pods of a job (cmd/simi.go with config and chaincodes)\<close>

text \<open>
  What a pod has after \<open>runSimi\<close> has loaded its configuration, and what follows for the pods
  that are to read.
\<close>

subsection \<open>A loaded configuration\<close>

lemma LoadByteSize_cases:
  obtains (failed) e where "LoadByteSize s c = (Some e, c)"
  | (loaded) n where "LoadByteSize s c = (None, c\<lparr>DataSizeBytes := n\<rparr>)"
  by (cases "LoadByteSize s c")
    (auto simp: LoadByteSize_def Let_def split: option.splits sum.splits)

lemma LoadConfig_None:
  "LoadConfig g r y c = (None, c') \<longleftrightarrow> (\<exists>bytes. r (config_file_name g) = Inr bytes \<and> y bytes c = (None, c'))"
  by (auto simp: LoadConfig_def Let_def split: sum.splits prod.splits option.splits)

text \<open>\<open>loaded_from S c0 c\<close>: the file was decoded to \<open>c0\<close>, and \<open>c\<close> is what \<open>runSimi\<close> makes of it.\<close>

definition loaded_from ::
  "('conn, 'ch, 'd, 't, 'f, 'client, 'api, 'x, 'w) surroundings \<Rightarrow> string \<Rightarrow> go_int \<Rightarrow>
   ('x operation_config, 'w) WorkerConfig \<Rightarrow> ('x operation_config, 'w) WorkerConfig \<Rightarrow> bool" where
  "loaded_from S operationType numWriters c0 c \<longleftrightarrow>
     (\<exists>bytes. s_read_file S (config_file_name (getenv S)) = Inr bytes \<and>
       s_yaml S bytes (zero_WorkerConfig (s_nil S)) = (None, c0)) \<and>
     (\<exists>worker n.
       Decode (s_decoder S) (simi_decoder (ToSnake (s_decoder S))) (OperationConfig c0) = Inr worker \<and>
       c = c0\<lparr>OperationType := operationType, DataSizeBytes := n, OperationConfig := CC worker,
              InitFunc := init_worker (s_host S) operationType numWriters,
              ShutdownFunc := Some shutdown_worker, ReadOp := read_operation (s_host S),
              WriteOp := write_operation (s_host S) n\<rparr>)"

lemma setupCustomChaincodes_None:
  "setupCustomChaincodes h ms k c = (None, c') \<Longrightarrow>
    \<exists>worker. Decode ms (simi_decoder (ToSnake ms)) (OperationConfig c) = Inr worker \<and>
      c' = c\<lparr>OperationConfig := CC worker, InitFunc := init_worker h (OperationType c) k,
             ShutdownFunc := Some shutdown_worker, ReadOp := read_operation h,
             WriteOp := write_operation h (DataSizeBytes c)\<rparr>"
  by (auto simp: setupCustomChaincodes_def SetupSimi_def SetupReadOp_def SetupWriteOp_def Let_def
      split: option.splits sum.splits)

lemma load_simi_Inr:
  assumes "load_simi S t k ds = Inr c"
  shows "\<exists>c0. loaded_from S t k c0 c"
proof -
  obtain c0 where c0: "LoadConfig (getenv S) (s_read_file S) (s_yaml S) (zero_WorkerConfig (s_nil S)) = (None, c0)"
    using assms by (auto simp: load_simi_def Let_def split: prod.splits option.splits)
  then obtain c1 where c1: "(if ds \<noteq> [] then LoadByteSize ds (c0\<lparr>OperationType := t\<rparr>)
      else (None, c0\<lparr>OperationType := t\<rparr>)) = (None, c1)"
    and s: "setupCustomChaincodes (s_host S) (s_decoder S) k c1 = (None, c)"
    using assms by (simp add: load_simi_def Let_def split: prod.splits option.splits)
  obtain n where n: "c1 = c0\<lparr>OperationType := t, DataSizeBytes := n\<rparr>"
  proof (cases "ds = []")
    case True
    then have "c1 = c0\<lparr>OperationType := t\<rparr>" using c1 by simp
    then have "c1 = c0\<lparr>OperationType := t, DataSizeBytes := DataSizeBytes c0\<rparr>" by (cases c0) simp
    then show ?thesis by (rule that)
  next
    case False
    then show ?thesis using c1 that by (cases rule: LoadByteSize_cases [of ds "c0\<lparr>OperationType := t\<rparr>"]) auto
  qed
  show ?thesis
    using setupCustomChaincodes_None [OF s] c0 n by (auto simp: loaded_from_def LoadConfig_None)
qed


subsection \<open>The type of the operation configuration\<close>

text \<open>
  \<open>OperationConfig\<close> is an \<open>any\<close>, and each of the functions asserts that it is a \<open>*CCWorker\<close>. A
  run of any of them, on the configuration the one before has left, stops at the first that does
  not return.
\<close>

datatype op_call = CallInit string | CallWrite | CallRead | CallShutdown

fun op_step ::
  "('c, 'w) WorkerConfig \<Rightarrow> op_call \<Rightarrow> 'c \<Rightarrow> 'w \<Rightarrow> goerr option outcome \<times> 'c \<times> 'w" where
  "op_step conf (CallInit i) cfg w =
     (case InitFunc conf i cfg w of (res, cfg, w) \<Rightarrow> (outcome_bind res (\<lambda>(_, err). Ret err), cfg, w))"
| "op_step conf CallWrite cfg w = WriteOp conf cfg w"
| "op_step conf CallRead cfg w = ReadOp conf cfg w"
| "op_step conf CallShutdown cfg w =
     (case ShutdownFunc conf of None \<Rightarrow> (Ret None, cfg, w) | Some f \<Rightarrow> (Ret None, f cfg w))"

fun run_calls ::
  "('c, 'w) WorkerConfig \<Rightarrow> op_call list \<Rightarrow> 'c \<Rightarrow> 'w \<Rightarrow> goerr option outcome list \<times> 'c \<times> 'w" where
  "run_calls conf [] cfg w = ([], cfg, w)"
| "run_calls conf (x # xs) cfg w =
     (case op_step conf x cfg w of
        (Ret e, cfg, w) \<Rightarrow> (case run_calls conf xs cfg w of (rs, cfg, w) \<Rightarrow> (Ret e # rs, cfg, w))
      | (r, cfg, w) \<Rightarrow> ([r], cfg, w))"

text \<open>What no operation changes: all but the counter and, for a pod that reads, the identifier.\<close>

definition same_worker :: "string \<Rightarrow> CCWorker \<Rightarrow> CCWorker \<Rightarrow> bool" where
  "same_worker t a b \<longleftrightarrow>
     ChaincodeID b = ChaincodeID a \<and> Username b = Username a \<and> Org b = Org a \<and>
     LogLevel b = LogLevel a \<and> (t \<noteq> ''read'' \<longrightarrow> Id b = Id a)"

lemma same_worker_refl [simp]: "same_worker t a a"
  by (simp add: same_worker_def)

lemma same_worker_trans: "same_worker t a b \<Longrightarrow> same_worker t b c \<Longrightarrow> same_worker t a c"
  by (simp add: same_worker_def)

lemma CallWriteFunc_worker:
  assumes "CallWriteFunc h n a w = (r, b, w')"
  shows "same_worker t a b"
proof -
  from assms have "b = a \<or> b = a\<lparr>Counter := Counter a + 1\<rparr>"
    by (auto simp: CallWriteFunc_def writeKey_def split: outcome.splits prod.splits option.splits)
  then show ?thesis by (auto simp: same_worker_def)
qed

lemma init_worker_worker:
  assumes "init_worker h t k i (CC (Some a)) w = (r, cfg, w')"
  shows "\<exists>b. cfg = CC (Some b) \<and> same_worker t a b"
proof (cases "t = ''read''")
  case True
  then show ?thesis
    using assms
    by (cases "reader_id k (Id a)")
      (auto simp: init_worker_def setupCCWorker_def same_worker_def split: prod.splits option.splits)
next
  case False
  then show ?thesis
    using assms by (auto simp: init_worker_def setupCCWorker_def same_worker_def split: prod.splits option.splits)
qed

text \<open>The worker after its init function has come back: a pod that reads has its own identifier.\<close>

definition prepared :: "string \<Rightarrow> go_int \<Rightarrow> CCWorker \<Rightarrow> CCWorker \<Rightarrow> bool" where
  "prepared t numWriters a b \<longleftrightarrow>
     (if t = ''read'' then \<exists>i. reader_id numWriters (Id a) = Ret i \<and> b = a\<lparr>Id := i\<rparr> else b = a)"

lemma init_worker_prepared:
  assumes "init_worker h t k i (CC (Some a)) w = (Ret x, cfg, w')"
  shows "\<exists>b. cfg = CC (Some b) \<and> prepared t k a b"
proof (cases "t = ''read''")
  case True
  then show ?thesis
    using assms
    by (cases "reader_id k (Id a)")
      (auto simp: init_worker_def setupCCWorker_def prepared_def split: prod.splits option.splits)
next
  case False
  then show ?thesis
    using assms by (auto simp: init_worker_def setupCCWorker_def prepared_def split: prod.splits option.splits)
qed

lemma prepared_same: "prepared t k a b \<Longrightarrow> same_worker t a b"
  by (auto simp: prepared_def same_worker_def split: if_splits)

lemma init_worker_error:
  assumes "init_worker h t k i (CC worker) w = (Ret (u, e), cfg, w')"
  shows "e = None"
proof -
  let ?renamed = "if t = ''read'' then (case worker of None \<Rightarrow> Panic nil_pointer
      | Some a \<Rightarrow> outcome_bind (reader_id k (Id a)) (\<lambda>newId. Ret (Some (a\<lparr>Id := newId\<rparr>)))) else Ret worker"
  show ?thesis
    using assms
    by (cases ?renamed) (auto simp: init_worker_def setupCCWorker_def Let_def split: prod.splits option.splits)
qed

lemma op_step_typed:
  assumes "loaded_from S t k c0 c" and "op_step c x (CC (Some a)) w = (r, cfg, w')"
  shows "r \<noteq> Ret (Some invalid_input) \<and> (\<exists>b. cfg = CC (Some b) \<and> same_worker t a b)"
proof -
  obtain n where c: "InitFunc c = init_worker (s_host S) t k" "ShutdownFunc c = Some shutdown_worker"
    "ReadOp c = read_operation (s_host S)" "WriteOp c = write_operation (s_host S) n"
    using assms(1) by (auto simp: loaded_from_def)
  show ?thesis
  proof (cases x)
    case (CallInit i)
    obtain r' cfg' w1 where i: "InitFunc c i (CC (Some a)) w = (r', cfg', w1)" by (metis surj_pair)
    then have i': "init_worker (s_host S) t k i (CC (Some a)) w = (r', cfg', w1)" by (simp add: c)
    have "outcome_bind r' (\<lambda>(_, err). Ret err) \<noteq> Ret (Some invalid_input)"
      using init_worker_error i' by (cases r') fastforce+
    with i init_worker_worker [OF i'] assms(2) CallInit show ?thesis by simp
  next
    case CallWrite
    obtain r' b w1 where wr: "CallWriteFunc (s_host S) n a w = (r', b, w1)" by (metis surj_pair)
    have "r' \<noteq> Ret (Some invalid_input)"
      using wr by (auto simp: CallWriteFunc_def invalid_input_def split: prod.splits)
    with wr CallWriteFunc_worker [OF wr, of t] assms(2) c CallWrite show ?thesis
      by (auto simp: write_operation_def)
  next
    case CallRead
    then show ?thesis
      using assms(2) c same_worker_refl [of t a]
      by (auto simp: read_operation_def CallReadFunc_def invalid_input_def split: prod.splits)
  next
    case CallShutdown
    then show ?thesis using assms(2) c same_worker_refl [of t a] by (auto simp: shutdown_worker_def)
  qed
qed

text \<open>
  C17: a configuration that \<open>runSimi\<close> has loaded for a worker that is not nil keeps its type: in
  any run of its init, write, read and shutdown functions no type assertion fails, and what they
  leave is again a worker, with the same chaincode, user, organisation and log level, and the
  same identifier unless the pod is to read.
\<close>

theorem loaded_config_typed:
  assumes "load_simi S t k ds = Inr c" and "OperationConfig c = CC (Some a)"
    and "run_calls c calls (OperationConfig c) w = (rs, cfg, w')"
  shows "Ret (Some invalid_input) \<notin> set rs \<and>
    (\<exists>b. cfg = CC (Some b) \<and> same_worker t a b)"
proof -
  obtain c0 where c0: "loaded_from S t k c0 c" using load_simi_Inr [OF assms(1)] by blast
  have "run_calls c calls (CC (Some a)) w = (rs, cfg, w') \<Longrightarrow>
      Ret (Some invalid_input) \<notin> set rs \<and> (\<exists>b. cfg = CC (Some b) \<and> same_worker t a b)" for a
  proof (induction calls arbitrary: a w rs)
    case Nil
    then show ?case using same_worker_refl by auto
  next
    case (Cons x xs)
    obtain r cfg1 w1 where 1: "op_step c x (CC (Some a)) w = (r, cfg1, w1)" by (metis surj_pair)
    from op_step_typed [OF c0 1] obtain b where b: "r \<noteq> Ret (Some invalid_input)"
      "cfg1 = CC (Some b)" "same_worker t a b" by blast
    show ?case
    proof (cases r)
      case (Ret e)
      obtain rs1 where rs1: "run_calls c xs (CC (Some b)) w1 = (rs1, cfg, w')" "rs = Ret e # rs1"
        using Cons.prems 1 b(2) Ret by (auto split: prod.splits)
      from Cons.IH [OF rs1(1)] rs1(2) b Ret same_worker_trans show ?thesis by auto
    qed (use Cons.prems 1 b in auto)
  qed
  with assms(2,3) show ?thesis by simp
qed

subsection \<open>Pods that read\<close>

lemma init_reader_no_Id:
  assumes "\<And>a. worker = Some a \<Longrightarrow> Id a = []"
  shows "\<not> returns (fst (init_worker h ''read'' k i (CC worker) w))"
proof (cases worker)
  case (Some a)
  have "Atoi [] = Inl (NumError ''Atoi'' [] ErrSyntax)" by (simp add: Atoi_def parse_int_def)
  with Some assms show ?thesis by (simp add: init_worker_def setupCCWorker_def reader_id_def)
qed (simp add: init_worker_def setupCCWorker_def)


lemma Register_with_init:
  "Register_with B rt et ws ch wk w = (Ret (None, wk'), w') \<Longrightarrow>
    \<exists>w1 x cfg w2. InitFunc (w_config wk) (correlationID wk) (OperationConfig (w_config wk)) w1 = (Ret x, cfg, w2)"
  by (auto simp: Register_with_def split: option.split_asm prod.split_asm sum.split_asm outcome.split_asm) blast

lemma Register_reader_no_Id:
  assumes "InitFunc (w_config wk) = init_worker h ''read'' k"
    and "OperationConfig (w_config wk) = CC worker" and "\<And>a. worker = Some a \<Longrightarrow> Id a = []"
  shows "fst (Register B rt et ws wk w) \<noteq> Ret (None, wk')"
proof
  assume "fst (Register B rt et ws wk w) = Ret (None, wk')"
  then obtain ch w1 w2 where "Register_with B rt et ws ch wk w1 = (Ret (None, wk'), w2)"
    by (auto simp: Register_def split: option.splits prod.splits sum.splits outcome.splits)
  from Register_with_init [OF this] obtain w3 x cfg w4
    where "InitFunc (w_config wk) (correlationID wk) (OperationConfig (w_config wk)) w3 = (Ret x, cfg, w4)"
    by blast
  then have "returns (fst (init_worker h ''read'' k (correlationID wk) (OperationConfig (w_config wk)) w3))"
    using assms(1) by simp
  moreover have "\<not> returns (fst (init_worker h ''read'' k (correlationID wk) (OperationConfig (w_config wk)) w3))"
    unfolding assms(2) by (rule init_reader_no_Id) (rule assms(3))
  ultimately show False by simp
qed

lemma NewWorker_config:
  assumes "NewWorker B rt db env c w = Ret (Inr wk, w')"
  shows "w_config wk = c"
proof -
  obtain d w1 where d: "dial_loop B rt (BrokerURL c) 1 (Inl (Err [])) w = Ret (d, w1)"
    using assms by (auto simp: NewWorker_def)
  with assms obtain conn t where "d = Inr conn" "env influxTokEnv = Some t"
    by (cases d; cases "env influxTokEnv") (auto simp: NewWorker_def)
  with assms d show ?thesis by (auto simp: NewWorker_def split: prod.split_asm)
qed

lemma Register_config:
  assumes "Register B rt et ws wk w = (Ret (None, wk'), w')"
  shows "\<exists>cfg. w_config wk' = (w_config wk)\<lparr>OperationConfig := cfg\<rparr>"
proof -
  obtain ch w1 w2 where "Register_with B rt et ws ch wk w1 = (Ret (None, wk'), w2)"
    using assms by (auto simp: Register_def split: option.splits prod.splits sum.splits outcome.splits)
  then show ?thesis
    by (auto simp: Register_with_def Let_def split: option.split_asm prod.split_asm sum.split_asm outcome.split_asm)
qed

lemma benchmarkOperation_None:
  assumes "benchmarkOperation S c w = Ret (None, pts, w')"
  obtains wk w1 wk' w2 s where
    "NewWorker (s_broker S) (s_runtime S) (s_influx S) (s_lookup_env S) c w = Ret (Inr wk, w1)"
    "Register (s_broker S) (s_runtime S) (s_err_text S) (s_wait_start S) wk w1 = (Ret (None, wk'), w2)"
    "BenchOperation (s_runtime S) (s_err_text S) (w_config wk') w2 = Ret (None, s)" "b_points s = pts"
    "w' = snd (Close_worker (s_broker S) (s_influx S)
      (wk'\<lparr>w_config := (w_config wk')\<lparr>OperationConfig := b_config s\<rparr>\<rparr>) (b_world s))"
proof -
  obtain d w1 where d: "NewWorker (s_broker S) (s_runtime S) (s_influx S) (s_lookup_env S) c w = Ret (d, w1)"
    using assms by (auto simp: benchmarkOperation_def)
  with assms obtain wk where wk: "d = Inr wk" by (cases d) (auto simp: benchmarkOperation_def)
  obtain r w2 where r: "Register (s_broker S) (s_runtime S) (s_err_text S) (s_wait_start S) wk w1 = (r, w2)"
    by fastforce
  with assms d wk obtain e wk' where e: "r = Ret (e, wk')" by (auto simp: benchmarkOperation_def)
  with assms d wk r have "e = None" by (cases e) (auto simp: benchmarkOperation_def)
  with assms d wk r e show ?thesis
    by (auto simp: benchmarkOperation_def Let_def intro!: that)
qed

text \<open>
  The run of a pod from \<open>w\<close> to \<open>w'\<close> with the configuration \<open>c\<close>, by the program's own steps: the
  worker \<open>wk\<close> and the world \<open>w1\<close> that \<open>NewWorker\<close> gives, the worker \<open>wk'\<close> and the world \<open>w0\<close> at
  the end of \<open>Register\<close>, the state \<open>s\<close> at the end of the benchmark. Each equation determines
  what the next starts from. A tracer of its own is made first and closed last.
\<close>

definition tracer_started ::
  "('conn, 'ch, 'd, 't, 'f, 'client, 'api, 'x, 'w) surroundings \<Rightarrow> 'w \<Rightarrow> 'w" where
  "tracer_started S w =
     (if s_tracer_registered S w then w else snd (s_new_tracer S (snd (s_jaeger_env S w))))"

definition tracer_closed ::
  "('conn, 'ch, 'd, 't, 'f, 'client, 'api, 'x, 'w) surroundings \<Rightarrow> 'w \<Rightarrow> 'w \<Rightarrow> 'w" where
  "tracer_closed S w x = (if s_tracer_registered S w then x else s_close_tracer S x)"

definition pod_run ::
  "('conn, 'ch, 'd, 't, 'f, 'client, 'api, 'x, 'w) surroundings \<Rightarrow> ('x operation_config, 'w) WorkerConfig \<Rightarrow> 'w \<Rightarrow>
   ('client, 'api, 'conn, 'x operation_config, 'w) Worker \<Rightarrow> 'w \<Rightarrow>
   ('client, 'api, 'conn, 'x operation_config, 'w) Worker \<Rightarrow> 'w \<Rightarrow>
   ('x operation_config, 'w, 't) bench_state \<Rightarrow> 'w \<Rightarrow> bool" where
  "pod_run S c w wk w1 wk' w0 s w' \<longleftrightarrow>
     NewWorker (s_broker S) (s_runtime S) (s_influx S) (s_lookup_env S) c (tracer_started S w) = Ret (Inr wk, w1) \<and>
     Register (s_broker S) (s_runtime S) (s_err_text S) (s_wait_start S) wk w1 = (Ret (None, wk'), w0) \<and>
     BenchOperation (s_runtime S) (s_err_text S) (w_config wk') w0 = Ret (None, s) \<and>
     w' = tracer_closed S w (snd (Close_worker (s_broker S) (s_influx S)
       (wk'\<lparr>w_config := (w_config wk')\<lparr>OperationConfig := b_config s\<rparr>\<rparr>) (b_world s)))"

lemma runSimi_benchmark:
  assumes r: "runSimi S t k ds w = Ret (None, pts, w')"
  obtains c x where "load_simi S t k ds = Inr c" "benchmarkOperation S c (tracer_started S w) = Ret (None, pts, x)"
    "w' = tracer_closed S w x"
proof (cases "s_tracer_registered S w")
  case True
  then show ?thesis
    using r that by (auto simp: runSimi_def Let_def tracer_started_def tracer_closed_def split: sum.splits)
next
  case False
  obtain e1 w1 where 1: "s_jaeger_env S w = (e1, w1)" by fastforce
  with False r have e1: "e1 = None" by (cases e1) (auto simp: runSimi_def Let_def)
  obtain e2 w2 where 2: "s_new_tracer S w1 = (e2, w2)" by fastforce
  with False r 1 e1 have e2: "e2 = None" by (cases e2) (auto simp: runSimi_def Let_def)
  have w: "tracer_started S w = w2" "\<And>x. tracer_closed S w x = s_close_tracer S x"
    using False 1 2 by (simp_all add: tracer_started_def tracer_closed_def)
  show ?thesis
    using False r 1 2 e1 e2 that unfolding w by (auto simp: runSimi_def Let_def split: sum.splits)
qed

lemma simi_main_run:
  assumes "simi_main S k ds w = Ret (pts, w')"
  obtains x c wk w1 wk' w0 s where "Atoi (getenv S ''JOB_COMPLETION_INDEX'') = Inr x"
    "load_simi S (operation_type x k) k ds = Inr c" "pod_run S c w wk w1 wk' w0 s w'" "b_points s = pts"
proof -
  obtain x where x: "Atoi (getenv S ''JOB_COMPLETION_INDEX'') = Inr x"
    using assms by (auto simp: simi_main_def split: sum.splits)
  with assms have "runSimi S (operation_type x k) k ds w = Ret (None, pts, w')"
    by (auto simp: simi_main_def split: option.splits)
  then obtain c w3 where c: "load_simi S (operation_type x k) k ds = Inr c"
    and b: "benchmarkOperation S c (tracer_started S w) = Ret (None, pts, w3)" and w': "w' = tracer_closed S w w3"
    by (rule runSimi_benchmark)
  from b show ?thesis
  proof (rule benchmarkOperation_None)
    fix wk w1 wk' w2 s
    assume "NewWorker (s_broker S) (s_runtime S) (s_influx S) (s_lookup_env S) c (tracer_started S w) = Ret (Inr wk, w1)"
      "Register (s_broker S) (s_runtime S) (s_err_text S) (s_wait_start S) wk w1 = (Ret (None, wk'), w2)"
      "BenchOperation (s_runtime S) (s_err_text S) (w_config wk') w2 = Ret (None, s)" "b_points s = pts"
      "w3 = snd (Close_worker (s_broker S) (s_influx S)
        (wk'\<lparr>w_config := (w_config wk')\<lparr>OperationConfig := b_config s\<rparr>\<rparr>) (b_world s))"
    with x c w' show ?thesis by (intro that [of x c wk w1 wk' w2 s]) (simp_all add: pod_run_def)
  qed
qed

lemma load_simi_worker:
  assumes "load_simi S t k ds = Inr c" and "\<And>cfg raw. Decode (s_decoder S) cfg raw \<noteq> Inr None"
  obtains a where "OperationConfig c = CC (Some a)"
proof -
  obtain c0 where "loaded_from S t k c0 c" using load_simi_Inr [OF assms(1)] by blast
  then show ?thesis
    using assms(2) that unfolding loaded_from_def by (auto split: option.splits) (metis not_None_eq)
qed

lemma load_simi_installs:
  assumes "load_simi S t k ds = Inr c"
  shows "InitFunc c = init_worker (s_host S) t k" "WriteOp c = write_operation (s_host S) (DataSizeBytes c)"
    "ReadOp c = read_operation (s_host S)" "ShutdownFunc c = Some shutdown_worker"
  using load_simi_Inr [OF assms] by (auto simp: loaded_from_def)

text \<open>
  C16: as long as the configuration file has no key \<open>Id\<close> under \<open>operationConfig\<close> (the chart's
  has none, and \<open>main\<close> does not hand its job index on), no pod that is to read ever gets
  through: a pod whose index is \<open>numWriters\<close> or more does not return from \<open>main\<close>, whatever the
  broker and the network do; its process ends with a fatal error or a panic, at the latest in
  the init function.
\<close>

theorem reader_pod_fails:
  assumes "decode_law (s_decoder S) keys"
    and "\<And>bytes c c'. s_yaml S bytes c = (None, c') \<Longrightarrow> ''Id'' \<notin> keys (OperationConfig c')"
    and "Atoi (getenv S ''JOB_COMPLETION_INDEX'') = Inr i" and "sint numWriters \<le> sint i"
  shows "\<not> returns (simi_main S numWriters dataSizeStr w)"
proof
  have t: "operation_type i numWriters = ''read''" using assms(4) by (simp add: operation_type_def)
  assume "returns (simi_main S numWriters dataSizeStr w)"
  then obtain pts w' where "runSimi S ''read'' numWriters dataSizeStr w = Ret (None, pts, w')"
    using assms(3) by (auto simp: simi_main_def returns_iff t split: option.splits)
  then obtain w1 w2 c where c: "load_simi S ''read'' numWriters dataSizeStr = Inr c"
    and b: "benchmarkOperation S c w1 = Ret (None, pts, w2)"
    by (auto simp: runSimi_def Let_def split: if_splits option.splits prod.splits sum.splits)
  obtain c0 where c0: "loaded_from S ''read'' numWriters c0 c" using load_simi_Inr [OF c] by blast
  then obtain worker where worker: "OperationConfig c = CC worker"
    "InitFunc c = init_worker (s_host S) ''read'' numWriters"
    "Decode (s_decoder S) (simi_decoder (ToSnake (s_decoder S))) (OperationConfig c0) = Inr worker"
    by (auto simp: loaded_from_def)
  have "''Id'' \<notin> keys (OperationConfig c0)" using c0 assms(2) by (auto simp: loaded_from_def)
  then have noid: "Id a = []" if "worker = Some a" for a
    using decode_no_Id [OF assms(1)] worker(3) that by blast
  obtain wk w3 w4 wk' where "NewWorker (s_broker S) (s_runtime S) (s_influx S) (s_lookup_env S) c w1 = Ret (Inr wk, w3)"
    and r: "Register (s_broker S) (s_runtime S) (s_err_text S) (s_wait_start S) wk w3 = (Ret (None, wk'), w4)"
    using b by (rule benchmarkOperation_None) blast
  then have "w_config wk = c" by (blast dest: NewWorker_config)
  then show False
    using Register_reader_no_Id [of wk "s_host S" numWriters worker] worker(1,2) noid r by (metis fst_conv)
qed


text \<open>Surroundings in which everything outside works, with the host \<open>h\<close>; the job index is \<open>i\<close>.\<close>

definition surroundings_of ::
  "(unit, 'w) host \<Rightarrow> string \<Rightarrow> CCWorker \<Rightarrow> (unit, unit, unit, unit, unit, unit, unit, unit, 'w) surroundings" where
  "surroundings_of h i a =
     \<lparr>s_broker = \<lparr>Dial = \<lambda>_ w. (Inr (), w), Close_connection = \<lambda>_ w. (None, w), Open_channel = \<lambda>_ w. (Inr (), w),
        Close_channel = \<lambda>_ w. w, QueueDeclare = \<lambda>_ q _ _ _ _ w. (Inr q, w), QueueBind = \<lambda>_ _ _ _ _ w. (None, w),
        Consume = \<lambda>_ _ _ _ _ _ _ w. (Inr (), w), Publish = \<lambda>_ _ _ _ _ _ w. (None, w)\<rparr>,
      s_runtime = demo_runtime, s_host = h, s_influx = idle_influx, s_err_text = \<lambda>_. ''error'',
      s_wait_start = \<lambda>_ _ w. (StartDelivered, w),
      s_lookup_env = \<lambda>n. if n = ''JOB_COMPLETION_INDEX'' then Some i
        else if n = influxTokEnv then Some ''token'' else None,
      s_read_file = \<lambda>_. Inr [],
      s_yaml = \<lambda>_ c. (None, c\<lparr>OperationPeriod := 5, OperationsPerStream := 1, OperationConfig := Other ()\<rparr>),
      s_decoder = demo_decoder a, s_nil = (), s_tracer_registered = \<lambda>_. True,
      s_jaeger_env = \<lambda>w. (None, w), s_new_tracer = \<lambda>w. (None, w), s_close_tracer = \<lambda>w. w\<rparr>"

text \<open>There, a pod that is to write gets to its end.\<close>

lemma load_surroundings:
  "\<exists>c. load_simi (surroundings_of h i a) t k [] = Inr c \<and> OperationConfig c = CC (Some a) \<and>
    InitFunc c = init_worker h t k \<and> WriteOp c = write_operation h 0 \<and> ReadOp c = read_operation h \<and>
    OperationPeriod c = 5"
  by (simp add: load_simi_def surroundings_of_def LoadConfig_def getenv_def config_file_name_def influxTokEnv_def
      setupCustomChaincodes_def SetupSimi_def SetupReadOp_def SetupWriteOp_def demo_decoder_def zero_WorkerConfig_def)

lemma surroundings_benchmark:
  assumes "InitFunc c = init_worker h ''write'' k" and "OperationConfig c = CC (Some a)"
    and "New_uuid h w = (Some u, w1)"
    and "BenchOperation demo_runtime (\<lambda>_. ''error'') (c\<lparr>OperationConfig := CC (Some a)\<rparr>) w1 = Ret (None, s)"
  shows "\<exists>w'. benchmarkOperation (surroundings_of h i a) c w = Ret (None, b_points s, w')"
proof -
  let ?S = "surroundings_of h i a"
  obtain wk where wk: "NewWorker (s_broker ?S) (s_runtime ?S) (s_influx ?S) (s_lookup_env ?S) c w = Ret (Inr wk, w)"
    "w_config wk = c" "w_conn wk = Some ()"
    by (simp add: NewWorker_def dial_loop.simps surroundings_of_def idle_influx_def influxTokEnv_def)
  then obtain wk' where
    "Register (s_broker ?S) (s_runtime ?S) (s_err_text ?S) (s_wait_start ?S) wk w = (Ret (None, wk'), w1)"
    "w_config wk' = c\<lparr>OperationConfig := CC (Some a)\<rparr>"
    using assms(1-3)
    by (simp add: Register_def Register_with_def publish_registration_def surroundings_of_def demo_runtime_def
        init_worker_def setupCCWorker_def)
  with wk assms(4) show ?thesis
    by (simp add: benchmarkOperation_def surroundings_of_def Let_def)
qed

lemma writer_returns:
  assumes "rand_law h" and "New_uuid h w = (Some u, w1)"
  shows "returns (simi_main (surroundings_of h (Itoa 0) a) 1 [] w)"
proof -
  let ?S = "surroundings_of h (Itoa 0) a"
  obtain c where c: "load_simi ?S ''write'' 1 [] = Inr c" "OperationConfig c = CC (Some a)"
    "InitFunc c = init_worker h ''write'' 1" "WriteOp c = write_operation h 0" "ReadOp c = read_operation h"
    "OperationPeriod c = 5"
    using load_surroundings by blast
  let ?c = "c\<lparr>OperationConfig := CC (Some a)\<rparr>"
  have "ready_cc h 0 (OperationConfig ?c)" using assms(1) by (simp add: ready_cc_def)
  with c obtain s where s: "BenchOperation demo_runtime (\<lambda>_. ''error'') ?c w1 = Ret (None, s)"
    using cc.BenchOperation_ok [where conf = ?c and n = 0 and h = h and rt = demo_runtime] by fastforce
  obtain w' where "benchmarkOperation ?S c w = Ret (None, b_points s, w')"
    using surroundings_benchmark [OF c(3,2) assms(2) s] by blast
  then have "runSimi ?S ''write'' 1 [] w = Ret (None, b_points s, w')"
    using c(1) by (simp add: runSimi_def surroundings_of_def)
  then show ?thesis
    by (simp add: simi_main_def getenv_def surroundings_of_def Atoi_Itoa operation_type_def)
qed

definition nameless_worker :: CCWorker where
  "nameless_worker = demo_worker\<lparr>Id := []\<rparr>"

lemma demo_decode_law: "decode_law (demo_decoder nameless_worker) (\<lambda>_. {''chaincodeID'', ''org'', ''logLevel'', ''username''})"
  by (simp add: decode_law_def demo_decoder_def CCWorker_fields_def field_key_def nameless_worker_def)

theorem reader_pod_fails_witness:
  "\<not> returns (simi_main (surroundings_of demo_host (Itoa 1) nameless_worker) 1 [] []) \<and>
   returns (simi_main (surroundings_of demo_host (Itoa 0) nameless_worker) 1 [] [])"
proof
  let ?S = "surroundings_of demo_host (Itoa 1) nameless_worker"
  have "getenv ?S ''JOB_COMPLETION_INDEX'' = Itoa 1" by (simp add: getenv_def surroundings_of_def)
  then have i: "Atoi (getenv ?S ''JOB_COMPLETION_INDEX'') = Inr 1" by (simp add: Atoi_Itoa)
  have d: "decode_law (s_decoder ?S) (\<lambda>_. {''chaincodeID'', ''org'', ''logLevel'', ''username''})"
    using demo_decode_law by (simp add: surroundings_of_def)
  show "\<not> returns (simi_main ?S 1 [] [])"
    by (rule reader_pod_fails [OF d _ i]) (simp_all add: surroundings_of_def)
  show "returns (simi_main (surroundings_of demo_host (Itoa 0) nameless_worker) 1 [] [])"
    by (rule writer_returns [OF demo_host_rand]) (simp add: demo_host_def)
qed

theorem loaded_config_typed_witness:
  "\<exists>c rs cfg w'. load_simi (surroundings_of demo_host [] demo_worker) ''write'' 1 [] = Inr c \<and>
    run_calls c [CallInit [], CallWrite, CallRead, CallShutdown] (OperationConfig c) [] = (rs, cfg, w') \<and>
    Ret (Some invalid_input) \<notin> set rs \<and> (\<exists>b. cfg = CC (Some b) \<and> same_worker ''write'' demo_worker b)"
proof -
  obtain c where c: "load_simi (surroundings_of demo_host [] demo_worker) ''write'' 1 [] = Inr c"
    "OperationConfig c = CC (Some demo_worker)"
    using load_surroundings by blast
  obtain rs cfg w' where r: "run_calls c [CallInit [], CallWrite, CallRead, CallShutdown] (OperationConfig c) [] = (rs, cfg, w')"
    by (metis surj_pair)
  from loaded_config_typed [OF c r] c(1) r show ?thesis by blast
qed

end
