(* ===== verification/Environment.thy ===== *)
theory Environment
  imports Pods
begin

section \<open>A process among others\<close>

text \<open>
  A call of the outside takes time, in which other processes act. What a process sees of that is
  an observation \<open>obs\<close> of its world (the ledger, or the state of the start protocol) and a
  relation \<open>E\<close> between observations, the steps of the others: any number of them. The predicates
  say that the calls of a part of the surroundings make no steps but those; the locale
  \<open>environment\<close> collects what the operations of the program then lead to. With \<open>E\<close> the equality,
  nobody else acts and the calls leave the observation alone.
\<close>

subsection \<open>Calls that are not the process's own steps\<close>

definition runtime_among :: "('o \<Rightarrow> 'o \<Rightarrow> bool) \<Rightarrow> ('w \<Rightarrow> 'o) \<Rightarrow> ('t, 'w) runtime \<Rightarrow> bool" where
  "runtime_among E obs rt \<longleftrightarrow>
     (\<forall>w. E (obs w) (obs (snd (Now rt w)))) \<and> (\<forall>t w. E (obs w) (obs (snd (Since rt t w)))) \<and>
     (\<forall>d w. E (obs w) (obs (snd (Rand_Int63n rt d w)))) \<and> (\<forall>d w. E (obs w) (obs (Sleep rt d w))) \<and>
     (\<forall>n w. E (obs w) (obs (snd (Start_span rt n w)))) \<and> (\<forall>w. E (obs w) (obs (Finish_span rt w)))"

definition dial_among :: "('o \<Rightarrow> 'o \<Rightarrow> bool) \<Rightarrow> ('w \<Rightarrow> 'o) \<Rightarrow> ('conn, 'ch, 'd, 't, 'w) broker \<Rightarrow> bool" where
  "dial_among E obs B \<longleftrightarrow> (\<forall>u w. E (obs w) (obs (snd (Dial B u w))))"

definition broker_among :: "('o \<Rightarrow> 'o \<Rightarrow> bool) \<Rightarrow> ('w \<Rightarrow> 'o) \<Rightarrow> ('conn, 'ch, 'd, 't, 'w) broker \<Rightarrow> bool" where
  "broker_among E obs B \<longleftrightarrow>
     dial_among E obs B \<and> (\<forall>c w. E (obs w) (obs (snd (Close_connection B c w)))) \<and>
     (\<forall>c w. E (obs w) (obs (snd (Open_channel B c w)))) \<and> (\<forall>ch w. E (obs w) (obs (Close_channel B ch w))) \<and>
     (\<forall>ch q b1 b2 b3 b4 w. E (obs w) (obs (snd (QueueDeclare B ch q b1 b2 b3 b4 w)))) \<and>
     (\<forall>ch q k x b w. E (obs w) (obs (snd (QueueBind B ch q k x b w)))) \<and>
     (\<forall>ch q t b1 b2 b3 b4 w. E (obs w) (obs (snd (Consume B ch q t b1 b2 b3 b4 w)))) \<and>
     (\<forall>ch x k b1 b2 m w. E (obs w) (obs (snd (Publish B ch x k b1 b2 m w))))"

definition influx_among :: "('o \<Rightarrow> 'o \<Rightarrow> bool) \<Rightarrow> ('w \<Rightarrow> 'o) \<Rightarrow> ('client, 'api, 'w) influx \<Rightarrow> bool" where
  "influx_among E obs db \<longleftrightarrow>
     (\<forall>u t w. E (obs w) (obs (snd (NewClient db u t w)))) \<and>
     (\<forall>c org b w. E (obs w) (obs (snd (WriteAPI db c org b w)))) \<and>
     (\<forall>a w. E (obs w) (obs (Flush db a w))) \<and> (\<forall>c w. E (obs w) (obs (Close_client db c w)))"

definition host_among :: "('o \<Rightarrow> 'o \<Rightarrow> bool) \<Rightarrow> ('w \<Rightarrow> 'o) \<Rightarrow> ('f, 'w) host \<Rightarrow> bool" where
  "host_among E obs h \<longleftrightarrow>
     (\<forall>p w. E (obs w) (obs (snd (Open_file h p w)))) \<and> (\<forall>f w. E (obs w) (obs (snd (ReadAll h f w)))) \<and>
     (\<forall>d w. E (obs w) (obs (snd (Unmarshal_peers h d w)))) \<and> (\<forall>n w. E (obs w) (obs (snd (Rand_Int h n w)))) \<and>
     (\<forall>n args w. E (obs w) (obs (snd (RunCommand h n args w)))) \<and> (\<forall>l w. E (obs w) (obs (SetLevel h l w)))"

definition tracer_among ::
  "('o \<Rightarrow> 'o \<Rightarrow> bool) \<Rightarrow> ('w \<Rightarrow> 'o) \<Rightarrow>
   ('conn, 'ch, 'd, 't, 'f, 'client, 'api, 'x, 'w) surroundings \<Rightarrow> bool" where
  "tracer_among E obs S \<longleftrightarrow>
     (\<forall>w. E (obs w) (obs (snd (s_jaeger_env S w)))) \<and> (\<forall>w. E (obs w) (obs (snd (s_new_tracer S w)))) \<and>
     (\<forall>w. E (obs w) (obs (s_close_tracer S w)))"

definition surroundings_among ::
  "('o \<Rightarrow> 'o \<Rightarrow> bool) \<Rightarrow> ('w \<Rightarrow> 'o) \<Rightarrow>
   ('conn, 'ch, 'd, 't, 'f, 'client, 'api, 'x, 'w) surroundings \<Rightarrow> bool" where
  "surroundings_among E obs S \<longleftrightarrow>
     runtime_among E obs (s_runtime S) \<and> broker_among E obs (s_broker S) \<and> influx_among E obs (s_influx S) \<and>
     tracer_among E obs S \<and> (\<forall>w. E (obs w) (obs (snd (New_uuid (s_host S) w)))) \<and>
     (\<forall>d t w. E (obs w) (obs (snd (s_wait_start S d t w))))"

lemma broker_among_calls:
  assumes "broker_among E obs B"
  shows "Dial B u w = (r1, w1) \<Longrightarrow> E (obs w) (obs w1)"
    and "Open_channel B c w = (r2, w2) \<Longrightarrow> E (obs w) (obs w2)"
    and "QueueDeclare B ch q b1 b2 b3 b4 w = (r3, w3) \<Longrightarrow> E (obs w) (obs w3)"
    and "QueueBind B ch q k x b w = (r4, w4) \<Longrightarrow> E (obs w) (obs w4)"
    and "Consume B ch q tg b1 b2 b3 b4 w = (r5, w5) \<Longrightarrow> E (obs w) (obs w5)"
    and "Publish B ch x k b1 b2 m w = (r6, w6) \<Longrightarrow> E (obs w) (obs w6)"
  using assms unfolding broker_among_def dial_among_def by (metis snd_conv)+

lemma broker_among_close:
  "broker_among E obs B \<Longrightarrow> E (obs w) (obs (Close_channel B ch w))"
  "broker_among E obs B \<Longrightarrow> E (obs w) (obs (snd (Close_connection B c w)))"
  by (simp_all add: broker_among_def)

lemma runtime_among_calls:
  assumes "runtime_among E obs rt"
  shows "Now rt w = (t, w1) \<Longrightarrow> E (obs w) (obs w1)" and "Rand_Int63n rt d w = (k, w2) \<Longrightarrow> E (obs w) (obs w2)"
    and "E (obs w) (obs (Sleep rt d w))"
  using assms unfolding runtime_among_def by (metis snd_conv)+

lemma influx_among_calls:
  assumes "influx_among E obs db"
  shows "NewClient db u t w = (r1, w1) \<Longrightarrow> E (obs w) (obs w1)"
    and "WriteAPI db c org b w = (r2, w2) \<Longrightarrow> E (obs w) (obs w2)"
    and "E (obs w) (obs (Flush db a w))" and "E (obs w) (obs (Close_client db c w))"
  using assms unfolding influx_among_def by (metis snd_conv)+

lemma host_among_calls:
  assumes "host_among E obs h"
  shows "Open_file h p w = (r1, w1) \<Longrightarrow> E (obs w) (obs w1)" and "ReadAll h f w = (r2, w2) \<Longrightarrow> E (obs w) (obs w2)"
    and "Unmarshal_peers h d w = (r3, w3) \<Longrightarrow> E (obs w) (obs w3)"
    and "Rand_Int h n w = (r4, w4) \<Longrightarrow> E (obs w) (obs w4)"
    and "RunCommand h c args w = (r5, w5) \<Longrightarrow> E (obs w) (obs w5)" and "E (obs w) (obs (SetLevel h l w))"
  using assms unfolding host_among_def by (metis snd_conv)+

subsection \<open>The operations of the program\<close>

locale environment =
  fixes E :: "'o \<Rightarrow> 'o \<Rightarrow> bool"
  assumes E_refl [simp]: "E x x" and E_trans: "E x y \<Longrightarrow> E y z \<Longrightarrow> E x z"
begin

lemma dial_loop_among:
  assumes B: "dial_among E obs B" and rt: "runtime_among E obs rt"
  shows "dial_loop B rt url i r w = Ret (r', w') \<Longrightarrow> E (obs w) (obs w')"
proof (induction "10 - i" arbitrary: i r w)
  case 0
  then show ?case by (simp add: dial_loop.simps [of B rt url i])
next
  case (Suc k)
  obtain d w1 where d: "Dial B url w = (d, w1)" by fastforce
  have c1: "E (obs w) (obs w1)" using B d unfolding dial_among_def by (metis snd_conv)
  have i: "i < 10" using Suc.hyps(2) by simp
  show ?case
  proof (cases d)
    case (Inr conn)
    then show ?thesis using Suc.prems i d c1 by (simp add: dial_loop.simps [of B rt url i])
  next
    case (Inl err)
    let ?h = "go_half (backoff i)"
    obtain j w2 where j: "Rand_Int63n rt ?h w1 = (j, w2)" by fastforce
    have "dial_loop B rt url (i + 1) (Inl err) (Sleep rt (?h + j) w2) = Ret (r', w')"
      using Suc.prems i d Inl j
      by (auto simp: dial_loop.simps [of B rt url i] Int63n_def Let_def split: if_splits)
    moreover have "k = 10 - (i + 1)" using Suc.hyps(2) by simp
    ultimately have "E (obs (Sleep rt (?h + j) w2)) (obs w')" by (intro Suc.hyps(1))
    with c1 show ?thesis
      using runtime_among_calls(2) [OF rt j] runtime_among_calls(3) [OF rt, of w2 "?h + j"] E_trans by blast
  qed
qed

lemma NewWorker_among:
  assumes B: "dial_among E obs B" and rt: "runtime_among E obs rt" and db: "influx_among E obs db"
    and n: "NewWorker B rt db env c w = Ret (r, w')"
  shows "E (obs w) (obs w')"
proof -
  obtain d w1 where d: "dial_loop B rt (BrokerURL c) 1 (Inl (Err [])) w = Ret (d, w1)"
    using n by (auto simp: NewWorker_def)
  note e1 = dial_loop_among [OF B rt d]
  obtain res w2 where 2: "NewWorker B rt db env c w = Ret (res, w2)"
    "w2 = w1 \<or> (\<exists>c org b u t. w2 = snd (WriteAPI db c org b (snd (NewClient db u t w1))))"
    using NewWorker_after [OF d, of db env] by blast
  have "E (obs w1) (obs w2)"
  proof (rule disjE [OF 2(2)])
    assume "\<exists>c org b u t. w2 = snd (WriteAPI db c org b (snd (NewClient db u t w1)))"
    then obtain c org b u t where w2: "w2 = snd (WriteAPI db c org b (snd (NewClient db u t w1)))" by blast
    have "E (obs w1) (obs (snd (NewClient db u t w1)))" "E (obs w) (obs (snd (WriteAPI db c org b w)))" for w
      using db by (simp_all add: influx_among_def)
    with E_trans show ?thesis unfolding w2 by blast
  qed simp
  with n e1 2(1) show ?thesis using E_trans by auto
qed

lemma publish_registration_among:
  assumes B: "broker_among E obs B" and rt: "runtime_among E obs rt"
    and ws: "\<forall>d t w. E (obs w) (obs (snd (ws d t w)))"
    and p: "publish_registration B rt et ws ch d corr e w = (r, w')"
  shows "E (obs w) (obs w')"
proof -
  obtain r1 w1 where 1: "QueueDeclare B ch ''registrations'' False False False False w = (r1, w1)" by fastforce
  note e1 = broker_among_calls(3) [OF B 1]
  show ?thesis
  proof (cases r1)
    case (Inl x)
    then show ?thesis using p 1 e1 by (simp add: publish_registration_def)
  next
    case (Inr rq)
    obtain t w2 where 2: "Now rt w1 = (t, w2)" by fastforce
    note e2 = E_trans [OF e1 runtime_among_calls(1) [OF rt 2]]
    obtain r3 w3 where 3: "Publish B ch [] rq True False
        \<lparr>ContentType = ''text/plain'', Body = errorText et e, CorrelationId = corr, Timestamp = Some t\<rparr> w2
        = (r3, w3)" by fastforce
    note e3 = E_trans [OF e2 broker_among_calls(6) [OF B 3]]
    obtain ev w4 where 4: "ws d startTimeout w3 = (ev, w4)" by fastforce
    have "E (obs w3) (obs w4)" using ws 4 by (metis snd_conv)
    then have e4: "E (obs w) (obs w4)" by (rule E_trans [OF e3])
    show ?thesis
      using p 1 2 3 4 Inr e3 e4 by (auto simp: publish_registration_def split: option.splits)
  qed
qed

lemma init_worker_among:
  assumes "\<forall>w. E (obs w) (obs (snd (New_uuid h w)))"
  shows "\<forall>i c w. E (obs w) (obs (snd (snd (init_worker h t k i c w))))"
  using assms
  by (auto simp: init_worker_def Let_def split: operation_config.splits option.splits outcome.splits prod.splits)
    (metis snd_conv)+

text \<open>A registration without an error has run the init function, whose configuration it leaves.\<close>

lemma Register_with_among:
  assumes B: "broker_among E obs B" and rt: "runtime_among E obs rt"
    and ws: "\<forall>d t w. E (obs w) (obs (snd (ws d t w)))"
    and init: "\<forall>i c w. E (obs w) (obs (snd (snd (InitFunc (w_config wk) i c w))))"
    and p: "Register_with B rt et ws ch wk w = (Ret (None, wk'), w')"
  shows "E (obs w) (obs w') \<and>
    (\<exists>w1 x cfg w2. InitFunc (w_config wk) (correlationID wk) (OperationConfig (w_config wk)) w1 = (Ret x, cfg, w2) \<and>
      w_config wk' = (w_config wk)\<lparr>OperationConfig := cfg\<rparr>)"
proof -
  obtain r1 w1 where 1: "QueueDeclare B ch [] False True False False w = (r1, w1)" by fastforce
  with p obtain q where q: "r1 = Inr q" by (cases r1) (auto simp: Register_with_def)
  obtain r2 w2 where 2: "QueueBind B ch q ''start'' ''amq.topic'' False w1 = (r2, w2)" by fastforce
  with p 1 q have r2: "r2 = None" by (cases r2) (auto simp: Register_with_def)
  obtain r3 w3 where 3: "Consume B ch q [] True True False False w2 = (r3, w3)" by fastforce
  with p 1 2 q r2 obtain d where d: "r3 = Inr d" by (cases r3) (auto simp: Register_with_def)
  obtain res cfg w4 where 4: "InitFunc (w_config wk) (correlationID wk) (OperationConfig (w_config wk)) w3 = (res, cfg, w4)"
    by (metis surj_pair)
  with p 1 2 3 q r2 d obtain n e where res: "res = Ret (n, e)" by (cases res) (auto simp: Register_with_def)
  have pub: "publish_registration B rt et ws ch d (n @ correlationID wk) e w4 = (None, w')"
    and wk': "wk' = wk\<lparr>username := n, w_config := (w_config wk)\<lparr>OperationConfig := cfg\<rparr>\<rparr>"
    using p 1 2 3 4 q r2 d res by (auto simp: Register_with_def Let_def split: prod.splits)
  have "E (obs w3) (obs w4)" using init 4 by (metis snd_conv)
  moreover have "E (obs w) (obs w3)"
    by (rule E_trans [OF E_trans [OF broker_among_calls(3) [OF B 1] broker_among_calls(4) [OF B 2]]
        broker_among_calls(5) [OF B 3]])
  ultimately have "E (obs w) (obs w')"
    using publish_registration_among [OF B rt ws pub] E_trans by blast
  with 4 res wk' show ?thesis
    by (intro conjI exI [of _ w3] exI [of _ "(n, e)"] exI [of _ cfg] exI [of _ w4]) simp_all
qed

lemma Register_among:
  assumes "broker_among E obs B" and "runtime_among E obs rt" and "\<forall>d t w. E (obs w) (obs (snd (ws d t w)))"
    and "\<forall>i c w. E (obs w) (obs (snd (snd (InitFunc (w_config wk) i c w))))"
    and p: "Register B rt et ws wk w = (Ret (None, wk'), w')"
  shows "E (obs w) (obs w') \<and>
    (\<exists>w1 x cfg w2. InitFunc (w_config wk) (correlationID wk) (OperationConfig (w_config wk)) w1 = (Ret x, cfg, w2) \<and>
      w_config wk' = (w_config wk)\<lparr>OperationConfig := cfg\<rparr>)"
proof -
  from p obtain conn where c: "w_conn wk = Some conn" by (auto simp: Register_def split: option.splits)
  obtain r w1 where 1: "Open_channel B conn w = (r, w1)" by fastforce
  with p c obtain ch where ch: "r = Inr ch" by (cases r) (auto simp: Register_def)
  obtain w2 where 2: "Register_with B rt et ws ch wk w1 = (Ret (None, wk'), w2)" "w' = Close_channel B ch w2"
    using p c 1 ch by (auto simp: Register_def split: prod.splits outcome.splits)
  note r = Register_with_among [OF assms(1-4) 2(1)]
  have "E (obs w) (obs w')"
    using E_trans [OF E_trans [OF broker_among_calls(2) [OF assms(1) 1] conjunct1 [OF r]]
        broker_among_close(1) [OF assms(1), of w2 ch]] 2(2) by simp
  with r show ?thesis by blast
qed

lemma Close_worker_among:
  assumes B: "\<And>c w. E (obs w) (obs (snd (Close_connection B c w)))" and db: "influx_among E obs db"
    and "ShutdownFunc (w_config wk) = Some shutdown_worker"
  shows "E (obs w) (obs (snd (Close_worker B db wk w)))"
proof -
  define w1 where "w1 = (case w_conn wk of None \<Rightarrow> w | Some c \<Rightarrow> snd (Close_connection B c w))"
  define w2 where "w2 = (case writeAPI wk of None \<Rightarrow> w1 | Some a \<Rightarrow> Flush db a w1)"
  define w3 where "w3 = (case influxClient wk of None \<Rightarrow> w2 | Some cl \<Rightarrow> Close_client db cl w2)"
  have "E (obs w) (obs w1)" using B by (simp add: w1_def split: option.split)
  moreover have "E (obs w1) (obs w2)" using influx_among_calls(3) [OF db] by (simp add: w2_def split: option.split)
  moreover have "E (obs w2) (obs w3)" using influx_among_calls(4) [OF db] by (simp add: w3_def split: option.split)
  moreover have "snd (Close_worker B db wk w) = w3"
    using assms(3)
    by (auto simp: Close_worker_def shutdown_worker_def Close_CCWorker_def w1_def w2_def w3_def Let_def
        split: operation_config.splits option.splits)
  ultimately show ?thesis using E_trans by metis
qed

lemma tracer_started_among:
  assumes tracer: "tracer_among E obs S"
  shows "E (obs w) (obs (tracer_started S w))" and "E (obs x) (obs (tracer_closed S w x))"
proof -
  have "E (obs w) (obs (snd (s_jaeger_env S w)))" "E (obs w) (obs (snd (s_new_tracer S w)))"
    "E (obs x) (obs (s_close_tracer S x))" for w x
    using tracer by (simp_all add: tracer_among_def)
  with E_trans show "E (obs w) (obs (tracer_started S w))" "E (obs x) (obs (tracer_closed S w x))"
    by (auto simp: tracer_started_def tracer_closed_def) blast
qed

text \<open>From the start of a pod to its registration.\<close>

lemma pod_run_until_Register:
  assumes r: "pod_run S c w wk w1 wk' w0 s w'"
    and among: "tracer_among E obs S" "runtime_among E obs (s_runtime S)" "dial_among E obs (s_broker S)"
      "influx_among E obs (s_influx S)"
  shows "E (obs w) (obs w1) \<and> w_config wk = c"
proof -
  have 1: "NewWorker (s_broker S) (s_runtime S) (s_influx S) (s_lookup_env S) c (tracer_started S w) = Ret (Inr wk, w1)"
    using r by (simp add: pod_run_def)
  show ?thesis
    using E_trans [OF tracer_started_among(1) [OF among(1)] NewWorker_among [OF among(3,2,4) 1]] NewWorker_config [OF 1]
    by blast
qed

text \<open>The end of a pod, after its benchmark.\<close>

lemma pod_run_after_benchmark:
  assumes r: "pod_run S c w wk w1 wk' w0 s w'" and "ShutdownFunc (w_config wk') = Some shutdown_worker"
    and among: "tracer_among E obs S" "influx_among E obs (s_influx S)"
      "\<And>cn w. E (obs w) (obs (snd (Close_connection (s_broker S) cn w)))"
  shows "E (obs (b_world s)) (obs w')"
proof -
  let ?x = "snd (Close_worker (s_broker S) (s_influx S)
    (wk'\<lparr>w_config := (w_config wk')\<lparr>OperationConfig := b_config s\<rparr>\<rparr>) (b_world s))"
  have "E (obs (b_world s)) (obs ?x)"
    by (rule Close_worker_among [where obs = obs, OF among(3) among(2)]) (simp add: assms(2))
  moreover have "E (obs ?x) (obs w')" using r tracer_started_among(2) [OF among(1), of ?x] by (simp add: pod_run_def)
  ultimately show ?thesis by (rule E_trans)
qed

subsection \<open>A chaincode operation among others\<close>

lemma host_randomPeer:
  assumes h: "host_among E obs h" and r: "randomPeer h w = (r, w')"
  shows "E (obs w) (obs w')"
proof -
  obtain f w1 where 1: "Open_file h sdkConfigPath w = (f, w1)" by fastforce
  note e1 = host_among_calls(1) [OF h 1]
  show ?thesis
  proof (cases f)
    case (Inr f1)
    obtain d w2 where 2: "ReadAll h f1 w1 = (d, w2)" by fastforce
    note e2 = E_trans [OF e1 host_among_calls(2) [OF h 2]]
    show ?thesis
    proof (cases d)
      case d: (Inr d1)
      obtain p w3 where 3: "Unmarshal_peers h d1 w2 = (p, w3)" by fastforce
      note e3 = E_trans [OF e2 host_among_calls(3) [OF h 3]]
      show ?thesis
      proof (cases "\<exists>q. p = Inr q \<and> q \<noteq> []")
        case True
        then obtain q where q: "p = Inr q" "q \<noteq> []" by blast
        obtain n w4 where 4: "Rand_Int h (length q) w3 = (n, w4)" by fastforce
        have "w' = w4"
          using r 1 2 3 4 Inr d q by (auto simp: randomPeer_def Let_def split: sum.splits if_splits)
        then show ?thesis using E_trans [OF e3 host_among_calls(4) [OF h 4]] by simp
      qed (use r 1 2 3 Inr d e3 in \<open>auto simp: randomPeer_def split: sum.splits\<close>)
    qed (use r 1 2 Inr e2 in \<open>auto simp: randomPeer_def\<close>)
  qed (use r 1 e1 in \<open>auto simp: randomPeer_def\<close>)
qed

lemma host_invoke:
  assumes h: "host_among E obs h" and r: "invokeChaincodeCli h a verb fcn args w = (r, w')"
  shows "E (obs w) (obs w')"
proof -
  obtain p w1 where 1: "randomPeer h w = (p, w1)" by fastforce
  note e1 = host_randomPeer [OF h 1]
  show ?thesis
  proof (cases "\<exists>q. p = Ret (Inr q)")
    case True
    then obtain q where q: "p = Ret (Inr q)" by blast
    obtain o2 w2 where 2: "RunCommand h ''kubectl'' (cli_arguments a verb fcn q args) w1 = (o2, w2)" by fastforce
    have "w' = w2" using r 1 2 q by (auto simp: invokeChaincodeCli_def Let_def split: prod.splits option.splits)
    then show ?thesis using E_trans [OF e1 host_among_calls(5) [OF h 2]] by simp
  qed (use r 1 e1 in \<open>auto simp: invokeChaincodeCli_def split: outcome.splits sum.splits\<close>)
qed

lemma host_read:
  assumes h: "host_among E obs h" and r: "CallReadFunc h a w = (r, w')"
  shows "E (obs w) (obs w')"
proof -
  obtain q where "invokeChaincodeCli h a ''query'' ''experimentRead'' [Id a] (apply_log_level h a w) = (q, w')"
    using r by (auto simp: CallReadFunc_def readKey_def split: prod.splits)
  from E_trans [OF _ host_invoke [OF h this]] show ?thesis
    using host_among_calls(6) [OF h] by (simp add: apply_log_level_def)
qed

lemma host_write:
  assumes h: "host_among E obs h" and r: "CallWriteFunc h n a w = (r, b, w')"
  shows "E (obs w) (obs w')"
proof (cases "Repeat_a n")
  case (Ret data)
  obtain q where "invokeChaincodeCli h a ''invoke'' ''experimentWrite'' [Id a, Itoa (Counter a), data]
      (apply_log_level h a w) = (q, w')"
    using r Ret by (auto simp: CallWriteFunc_def writeKey_def split: prod.splits outcome.splits option.splits)
  from E_trans [OF _ host_invoke [OF h this]] show ?thesis
    using host_among_calls(6) [OF h] by (simp add: apply_log_level_def)
qed (use r host_among_calls(6) [OF h] in \<open>auto simp: CallWriteFunc_def writeKey_def apply_log_level_def\<close>)

lemma host_read_operation:
  assumes h: "host_among E obs h" and r: "read_operation h c w = (r, c', w')"
  shows "E (obs w) (obs w')"
proof (cases "\<exists>a. c = CC (Some a)")
  case True
  then obtain a where "c = CC (Some a)" by blast
  then have "\<exists>q. CallReadFunc h a w = (q, w')" using r by (auto simp: read_operation_def split: prod.splits)
  then show ?thesis using host_read [OF h] by blast
next
  case False
  then have "w' = w" using r by (auto simp: read_operation_def split: operation_config.splits option.splits)
  then show ?thesis by simp
qed

lemma host_write_operation:
  assumes h: "host_among E obs h" and r: "write_operation h n c w = (r, c', w')"
  shows "E (obs w) (obs w')"
proof (cases "\<exists>a. c = CC (Some a)")
  case True
  then obtain a where "c = CC (Some a)" by blast
  then have "\<exists>q b. CallWriteFunc h n a w = (q, b, w')" using r by (auto simp: write_operation_def split: prod.splits)
  then show ?thesis using host_write [OF h] by blast
next
  case False
  then have "w' = w" using r by (auto simp: write_operation_def split: operation_config.splits option.splits)
  then show ?thesis by simp
qed

end

subsection \<open>A benchmark among others\<close>

definition bench_among ::
  "('o \<Rightarrow> 'o \<Rightarrow> bool) \<Rightarrow> ('w \<Rightarrow> 'o) \<Rightarrow> ('f, 'w) host \<Rightarrow> go_int \<Rightarrow> ('t, 'w) runtime \<Rightarrow>
   ('x operation_config, 'w) WorkerConfig \<Rightarrow> 'w \<Rightarrow> 'x operation_config \<Rightarrow> 'w \<Rightarrow> string list \<Rightarrow> bool" where
  "bench_among E obs h n rt conf w0 c w ns \<longleftrightarrow>
     environment E \<and> runtime_among E obs rt \<and> host_among E obs h \<and>
     WriteOp conf = write_operation h n \<and> ReadOp conf = read_operation h \<and> E (obs w0) (obs w)"

lemma bench_among_more:
  "bench_among E obs h n rt conf w0 c w ns \<Longrightarrow> E (obs w) (obs w') \<Longrightarrow> bench_among E obs h n rt conf w0 c' w' ns'"
  by (simp add: bench_among_def) (blast intro: environment.E_trans)

lemma bench_among_calls:
  assumes "bench_among E obs h n rt conf w0 c w ns"
  shows "runtime_among E obs rt" and "WriteOp conf c w = (r1, c1, w1) \<Longrightarrow> E (obs w) (obs w1)"
    and "ReadOp conf c w = (r2, c2, w2) \<Longrightarrow> E (obs w) (obs w2)"
proof -
  have E: "environment E" and h: "host_among E obs h"
    and ops: "WriteOp conf = write_operation h n" "ReadOp conf = read_operation h"
    using assms by (simp_all add: bench_among_def)
  show "runtime_among E obs rt" using assms by (simp add: bench_among_def)
  show "WriteOp conf c w = (r1, c1, w1) \<Longrightarrow> E (obs w) (obs w1)"
    unfolding ops by (rule environment.host_write_operation [OF E h])
  show "ReadOp conf c w = (r2, c2, w2) \<Longrightarrow> E (obs w) (obs w2)"
    unfolding ops by (rule environment.host_read_operation [OF E h])
qed

interpretation among_bench: bench_invariant rt conf "bench_among E obs h n rt conf w0"
  for rt conf E obs h n w0
proof unfold_locales
  fix c w ns t d nm
  assume i: "bench_among E obs h n rt conf w0 c w ns"
  note q = bench_among_calls(1) [OF i, unfolded runtime_among_def] and others = bench_among_more [OF i]
  show "bench_among E obs h n rt conf w0 c (snd (Now rt w)) ns" using q by (intro others) blast
  show "bench_among E obs h n rt conf w0 c (snd (Since rt t w)) ns" using q by (intro others) blast
  show "bench_among E obs h n rt conf w0 c (snd (Rand_Int63n rt d w)) ns" using q by (intro others) blast
  show "bench_among E obs h n rt conf w0 c (Sleep rt d w) ns" using q by (intro others) blast
  show "bench_among E obs h n rt conf w0 c (snd (Start_span rt nm w)) ns" using q by (intro others) blast
  show "bench_among E obs h n rt conf w0 c (Finish_span rt w) ns" using q by (intro others) blast
next
  fix c w ns e c' w'
  assume i: "bench_among E obs h n rt conf w0 c w ns"
  { assume "WriteOp conf c w = (Ret e, c', w')"
    from bench_among_more [OF i bench_among_calls(2) [OF i this]]
    show "bench_among E obs h n rt conf w0 c' w' (if e = None then ns @ [''write''] else ns)" . }
  { assume "ReadOp conf c w = (Ret e, c', w')"
    from bench_among_more [OF i bench_among_calls(3) [OF i this]]
    show "bench_among E obs h n rt conf w0 c' w' (if e = None then ns @ [''read''] else ns)" . }
qed

context environment begin

lemma BenchOperation_among:
  assumes "runtime_among E obs rt" and "host_among E obs h"
    and "WriteOp conf = write_operation h n" and "ReadOp conf = read_operation h"
    and "BenchOperation rt et conf w = Ret (e, s)"
  shows "E (obs w) (obs (b_world s))"
proof -
  have "bench_among E obs h n rt conf w (OperationConfig conf) w []"
    using assms(1-4) environment_axioms by (simp add: bench_among_def)
  from among_bench.BenchOperation_inv [OF this assms(5)] show ?thesis by (simp add: bench_among_def)
qed

end

text \<open>When nobody else acts, the observation stays.\<close>

interpretation nobody: environment "(=)"
  by unfold_locales simp_all

end
