(* ===== verification/EndToEnd.thy ===== *)
theory EndToEnd
  imports Chaincode Environment
begin

section \<open>From the worker to the ledger\<close>

text \<open>
  A write of the benchmark worker reaches the chaincode through the command line of \<open>kubectl
  hlf\<close> and the peer. Both are outside this repository: \<open>cli_law_among\<close> states what they are
  documented to do. With it, the properties join \<open>write.go\<close> and \<open>common.go\<close> to \<open>experiment.go\<close>:
  what the worker passes as arguments is what the chaincode parses and stores.
\<close>

subsection \<open>Reading the command line\<close>

fun flag_value :: "string \<Rightarrow> string list \<Rightarrow> string option" where
  "flag_value p [] = None"
| "flag_value p (x # xs) = (if take (length p) x = p then Some (drop (length p) x) else flag_value p xs)"

fun dash_a_values :: "string list \<Rightarrow> string list" where
  "dash_a_values (x # y # xs) = (if x = ''-a'' then y # dash_a_values xs else dash_a_values (y # xs))"
| "dash_a_values _ = []"

lemma dash_a_values_concat:
  "dash_a_values (concat (map (\<lambda>v. [''-a'', v]) vs)) = vs"
  by (induction vs) simp_all

lemma dash_a_values_skip: "x \<noteq> ''-a'' \<Longrightarrow> dash_a_values (x # xs) = dash_a_values xs"
  by (cases xs) simp_all

lemma cli_arguments_values:
  "verb \<noteq> ''-a'' \<Longrightarrow> dash_a_values (cli_arguments a verb fcn peer args) = args"
  by (simp add: cli_arguments_def dash_a_values_skip dash_a_values_concat)

lemma flag_value_skip: "length x < length p \<Longrightarrow> flag_value p (x # xs) = flag_value p xs"
  by auto

lemma cli_arguments_fcn:
  "length verb < 6 \<or> verb = ''invoke'' \<Longrightarrow>
    flag_value ''--fcn='' (cli_arguments a verb fcn peer args) = Some fcn"
  by (auto simp: cli_arguments_def simp flip: length_greater_0_conv)

lemma cli_arguments_verb: "cli_arguments a verb fcn peer args ! 2 = verb"
  "take 2 (cli_arguments a verb fcn peer args) = [''hlf'', ''chaincode'']"
  by (simp_all add: cli_arguments_def)

subsection \<open>The law of the command line\<close>

text \<open>
  A chain is a chaincode with its metrics and a ledger. A command for a function and arguments
  may fail without reaching the peer, which leaves the chain alone, or it has the chaincode
  answer: an \<open>invoke\<close> then commits a transaction whose response is no error, a \<open>query\<close> does not.
  The command reports success only if the response is no error; it may report a failure for a
  transaction that was committed. What else happens to the chain while a worker's call lasts is
  an environment \<open>E\<close>, as in \<open>Environment\<close>: the peer takes the worker's command at one moment of
  the call, before and after which the others act. In \<open>cli_law\<close> nobody else does.
\<close>

type_synonym 'l chain = "metricsContainer Chaincode \<times> 'l"

definition chain_call ::
  "'l ChaincodeStub \<Rightarrow> ('l \<Rightarrow> 'l) \<Rightarrow> goerr \<Rightarrow> string \<Rightarrow> string \<Rightarrow> string list \<Rightarrow> bool \<Rightarrow>
   'l chain \<Rightarrow> 'l chain \<Rightarrow> bool" where
  "chain_call stub commit notFound verb f args reported c c' \<longleftrightarrow>
     (\<not> reported \<and> c' = c) \<or>
     (\<exists>elapsed.
        case submit RecordChaincodeActionInvocation notFound commit stub (f, args, elapsed) (fst c) (snd c) of
          Ret (r, cc, l) \<Rightarrow>
            c' = (cc, if verb = ''invoke'' then l else snd c) \<and> (reported \<longrightarrow> status_ok r)
        | _ \<Rightarrow> \<not> reported)"

text \<open>A call among what the others do.\<close>

definition one_call ::
  "('l chain \<Rightarrow> 'l chain \<Rightarrow> bool) \<Rightarrow> 'l ChaincodeStub \<Rightarrow> ('l \<Rightarrow> 'l) \<Rightarrow> goerr \<Rightarrow>
   string \<Rightarrow> string \<Rightarrow> string list \<Rightarrow> bool \<Rightarrow> 'l chain \<Rightarrow> 'l chain \<Rightarrow> bool" where
  "one_call E stub commit notFound verb f args reported c c' \<longleftrightarrow>
     (\<exists>c1 c2. E c c1 \<and> chain_call stub commit notFound verb f args reported c1 c2 \<and> E c2 c')"

lemma one_call_alone:
  "one_call (=) stub commit nf verb f args reported c c' \<longleftrightarrow> chain_call stub commit nf verb f args reported c c'"
  unfolding one_call_def by blast

definition cli_law_among ::
  "('l chain \<Rightarrow> 'l chain \<Rightarrow> bool) \<Rightarrow> ('f, 'w) host \<Rightarrow> 'l ChaincodeStub \<Rightarrow> ('l \<Rightarrow> 'l) \<Rightarrow> goerr \<Rightarrow>
   ('w \<Rightarrow> 'l chain) \<Rightarrow> bool" where
  "cli_law_among E h stub commit notFound chain \<longleftrightarrow>
     (\<forall>p w. E (chain w) (chain (snd (Open_file h p w)))) \<and>
     (\<forall>f w. E (chain w) (chain (snd (ReadAll h f w)))) \<and>
     (\<forall>t w. E (chain w) (chain (snd (Unmarshal_peers h t w)))) \<and>
     (\<forall>n w. E (chain w) (chain (snd (Rand_Int h n w)))) \<and>
     (\<forall>l w. E (chain w) (chain (SetLevel h l w))) \<and>
     (\<forall>args verb f w out e w'.
        take 2 args = [''hlf'', ''chaincode''] \<longrightarrow> args ! 2 = verb \<longrightarrow> verb \<in> {''invoke'', ''query''} \<longrightarrow>
        flag_value ''--fcn='' args = Some f \<longrightarrow> RunCommand h ''kubectl'' args w = ((out, e), w') \<longrightarrow>
        one_call E stub commit notFound verb f (dash_a_values args) (e = None) (chain w) (chain w'))"

definition cli_law ::
  "('f, 'w) host \<Rightarrow> 'l ChaincodeStub \<Rightarrow> ('l \<Rightarrow> 'l) \<Rightarrow> goerr \<Rightarrow> ('w \<Rightarrow> 'l chain) \<Rightarrow> bool" where
  "cli_law h stub commit notFound chain \<longleftrightarrow> cli_law_among (=) h stub commit notFound chain"

lemma cli_among_calls:
  assumes "cli_law_among E h stub commit nf chain"
  shows "Open_file h p w = (r1, w1) \<Longrightarrow> E (chain w) (chain w1)"
    and "ReadAll h f w = (r2, w2) \<Longrightarrow> E (chain w) (chain w2)"
    and "Unmarshal_peers h t w = (r3, w3) \<Longrightarrow> E (chain w) (chain w3)"
    and "Rand_Int h n w = (r4, w4) \<Longrightarrow> E (chain w) (chain w4)"
  using assms unfolding cli_law_among_def by (metis snd_conv)+

lemma cli_run:
  assumes "cli_law_among E h stub commit nf chain" and "verb \<in> {''invoke'', ''query''}"
    and "RunCommand h ''kubectl'' (cli_arguments a verb f peer args) w = ((out, e), w')"
  shows "one_call E stub commit nf verb f args (e = None) (chain w) (chain w')"
proof -
  have "dash_a_values (cli_arguments a verb f peer args) = args"
    using assms(2) by (intro cli_arguments_values) auto
  moreover have "flag_value ''--fcn='' (cli_arguments a verb f peer args) = Some f"
    using assms(2) by (intro cli_arguments_fcn) auto
  ultimately show ?thesis
    using assms unfolding cli_law_among_def by (metis cli_arguments_verb)
qed

text \<open>An environment of a chain.\<close>

locale chain_environment = environment E
  for E :: "'l chain \<Rightarrow> 'l chain \<Rightarrow> bool"
begin

lemma one_call_after:
  "E c c1 \<Longrightarrow> one_call E stub commit nf verb f args reported c1 c' \<Longrightarrow> one_call E stub commit nf verb f args reported c c'"
  unfolding one_call_def using E_trans by blast

lemma not_called: "E c c' \<Longrightarrow> one_call E stub commit nf verb f args False c c'"
  unfolding one_call_def chain_call_def using E_refl by blast

lemma cli_level: "cli_law_among E h stub commit nf chain \<Longrightarrow> E (chain w) (chain (apply_log_level h a w))"
  by (simp add: cli_law_among_def apply_log_level_def)

lemma randomPeer_among:
  assumes law: "cli_law_among E h stub commit nf chain" and p: "randomPeer h w = (r, w')"
  shows "E (chain w) (chain w')"
proof -
  obtain r1 w1 where 1: "Open_file h sdkConfigPath w = (r1, w1)" by fastforce
  note e1 = cli_among_calls(1) [OF law 1]
  show ?thesis
  proof (cases r1)
    case (Inl x)
    then show ?thesis using p 1 e1 by (simp add: randomPeer_def)
  next
    case f: (Inr f)
    obtain r2 w2 where 2: "ReadAll h f w1 = (r2, w2)" by fastforce
    note e2 = E_trans [OF e1 cli_among_calls(2) [OF law 2]]
    show ?thesis
    proof (cases r2)
      case (Inl x)
      then show ?thesis using p 1 2 f e2 by (simp add: randomPeer_def)
    next
      case d: (Inr d)
      obtain r3 w3 where 3: "Unmarshal_peers h d w2 = (r3, w3)" by fastforce
      note e3 = E_trans [OF e2 cli_among_calls(3) [OF law 3]]
      obtain r4 w4 where 4: "Rand_Int h (length (map fst (case r3 of Inr ps \<Rightarrow> ps | Inl _ \<Rightarrow> []))) w3 = (r4, w4)"
        by fastforce
      note e4 = E_trans [OF e3 cli_among_calls(4) [OF law 4]]
      show ?thesis
        using p 1 2 3 4 f d e3 e4
        by (auto simp: randomPeer_def Let_def split: sum.splits if_splits)
    qed
  qed
qed

lemma invoke_among:
  assumes law: "cli_law_among E h stub commit nf chain" and v: "verb \<in> {''invoke'', ''query''}"
    and p: "invokeChaincodeCli h a verb fcn args w = (Ret (peer, e), w')"
  shows "one_call E stub commit nf verb fcn args (e = None) (chain w) (chain w')"
proof -
  obtain r w1 where r: "randomPeer h w = (r, w1)" by fastforce
  note e1 = randomPeer_among [OF law r]
  consider (failed) x where "r = Ret (Inl x)" "e = Some x" "w' = w1"
    | (run) out x where "RunCommand h ''kubectl'' (cli_arguments a verb fcn peer args) w1 = ((out, x), w')"
        "x = None \<longleftrightarrow> e = None"
    using p r
    by (auto simp: invokeChaincodeCli_def Let_def split: prod.splits outcome.splits sum.splits option.splits)
  then show ?thesis
  proof cases
    case failed
    then show ?thesis using not_called [OF e1] by simp
  next
    case run
    from one_call_after [OF e1 cli_run [OF law v run(1)]] show ?thesis by (simp add: run(2))
  qed
qed

end

subsection \<open>What a call does to the experiments and the metrics\<close>

definition chain_ok :: "('l \<Rightarrow> 'l) \<Rightarrow> ('l \<Rightarrow> string \<Rightarrow> string) \<Rightarrow> 'l chain \<Rightarrow> bool" where
  "chain_ok commit state c \<longleftrightarrow> wf_metrics (Metrics (fst c)) \<and> committed commit state (snd c)"

definition ledger_of :: "('l \<Rightarrow> string \<Rightarrow> string) \<Rightarrow> 'l chain \<Rightarrow> string \<Rightarrow> ExperimentData option" where
  "ledger_of state c = experiments (state (snd c))"

definition actions_of :: "'l chain \<Rightarrow> (string \<times> bool) list" where
  "actions_of c = recorded_actions (Metrics (fst c))"

text \<open>
  The abstract effect of a command; \<open>reported\<close> is whether it reports success and \<open>ok\<close> whether
  the chaincode accepted the call.
\<close>

definition spec_call ::
  "('l \<Rightarrow> string \<Rightarrow> string) \<Rightarrow> string \<Rightarrow> string \<Rightarrow> string list \<Rightarrow> bool \<Rightarrow> 'l chain \<Rightarrow> 'l chain \<Rightarrow> bool" where
  "spec_call state verb f args reported c c' \<longleftrightarrow>
     (\<not> reported \<and> ledger_of state c' = ledger_of state c \<and> actions_of c' = actions_of c) \<or>
     (\<exists>ok. (reported \<longrightarrow> ok) \<and> (ok \<longrightarrow> allowed f args (ledger_of state c)) \<and>
        actions_of c' = actions_of c @ [(f, ok)] \<and>
        ledger_of state c' =
          (if ok \<and> verb = ''invoke'' then spec_transaction f args (ledger_of state c) else ledger_of state c))"

lemma chain_call_refines:
  assumes laws: "ledger_laws (PutState stub) (GetState stub) commit state" and ok: "chain_ok commit state c"
    and f: "f \<in> known_functions" and call: "chain_call stub commit nf verb f args reported c c'"
  shows "chain_ok commit state c' \<and> spec_call state verb f args reported c c'"
proof (cases "\<not> reported \<and> c' = c")
  case True
  then show ?thesis using ok by (simp add: spec_call_def)
next
  case False
  then obtain elapsed where call:
    "case submit RecordChaincodeActionInvocation nf commit stub (f, args, elapsed) (fst c) (snd c) of
       Ret (r, cc, l) \<Rightarrow> c' = (cc, if verb = ''invoke'' then l else snd c) \<and> (reported \<longrightarrow> status_ok r)
     | _ \<Rightarrow> \<not> reported"
    using call unfolding chain_call_def by blast
  have "wf_metrics (Metrics (fst c))" "committed commit state (snd c)" using ok by (simp_all add: chain_ok_def)
  from prometheus.submit_step [OF laws this, of nf f args elapsed] obtain r cc l where
    "submit RecordChaincodeActionInvocation nf commit stub (f, args, elapsed) (fst c) (snd c) = Ret (r, cc, l)"
    "wf_metrics (Metrics cc)" "committed commit state l"
    "status_ok r \<longrightarrow> allowed f args (ledger_of state c)"
    "experiments (state l) = (if status_ok r then spec_transaction f args (ledger_of state c) else ledger_of state c)"
    "recorded_actions (Metrics cc) = actions_of c @ [(f, status_ok r)]"
    using f by (auto simp: ledger_of_def actions_of_def recorded_of_def)
  then show ?thesis
    using call ok by (auto simp: chain_ok_def spec_call_def ledger_of_def actions_of_def intro!: exI [of _ "status_ok r"])
qed

subsection \<open>The calls of other workers\<close>

text \<open>
  A worker's command under the key \<open>k\<close>: a write or a read of that experiment, as any worker of
  any pod makes it. What others do with the keys of \<open>K\<close> is any number of such commands.
\<close>

definition key_call ::
  "'l ChaincodeStub \<Rightarrow> ('l \<Rightarrow> 'l) \<Rightarrow> goerr \<Rightarrow> string \<Rightarrow> 'l chain \<Rightarrow> 'l chain \<Rightarrow> bool" where
  "key_call stub commit notFound k c c' \<longleftrightarrow>
     (\<exists>verb f args reported. verb \<in> {''invoke'', ''query''} \<and> f \<in> {''experimentWrite'', ''experimentRead''} \<and>
        args \<noteq> [] \<and> hd args = k \<and> chain_call stub commit notFound verb f args reported c c')"

definition calls_under ::
  "'l ChaincodeStub \<Rightarrow> ('l \<Rightarrow> 'l) \<Rightarrow> goerr \<Rightarrow> string set \<Rightarrow> 'l chain \<Rightarrow> 'l chain \<Rightarrow> bool" where
  "calls_under stub commit notFound K = (\<lambda>c c'. \<exists>k \<in> K. key_call stub commit notFound k c c')\<^sup>*\<^sup>*"

lemma calls_under_none: "calls_under stub commit nf {} = (=)"
proof (intro ext iffI)
  fix c c' assume "calls_under stub commit nf {} c c'"
  then show "c = c'" unfolding calls_under_def by (induction rule: rtranclp_induct) simp_all
qed (simp add: calls_under_def)

lemma calls_under_more: "calls_under stub commit nf K c c' \<Longrightarrow> K \<subseteq> L \<Longrightarrow> calls_under stub commit nf L c c'"
  unfolding calls_under_def by (erule rtranclp_mono [THEN predicate2D, rotated]) blast

lemma calls_under_one: "key_call stub commit nf k c c' \<Longrightarrow> k \<in> K \<Longrightarrow> calls_under stub commit nf K c c'"
  unfolding calls_under_def by (rule r_into_rtranclp) blast

text \<open>The others, whoever they are, are an environment.\<close>

interpretation among: chain_environment "calls_under stub commit nf K" for stub commit nf K
  by unfold_locales (auto simp: calls_under_def)

interpretation alone: chain_environment "(=)"
  by unfold_locales

text \<open>
  What one can rely on: the experiments under other keys stay, and the metrics count further
  writes and reads.
\<close>

definition more_calls :: "(string \<times> bool) list \<Rightarrow> (string \<times> bool) list \<Rightarrow> bool" where
  "more_calls A A' \<longleftrightarrow> (\<exists>acts. A' = A @ acts \<and> fst ` set acts \<subseteq> {''experimentWrite'', ''experimentRead''})"

lemma more_calls_refl [simp]: "more_calls A A"
  by (simp add: more_calls_def)

lemma more_calls_trans: "more_calls A B \<Longrightarrow> more_calls B C \<Longrightarrow> more_calls A C"
  by (fastforce simp: more_calls_def image_Un)

definition relied ::
  "('l \<Rightarrow> 'l) \<Rightarrow> ('l \<Rightarrow> string \<Rightarrow> string) \<Rightarrow> string set \<Rightarrow> 'l chain \<Rightarrow> 'l chain \<Rightarrow> bool" where
  "relied commit state K c c' \<longleftrightarrow>
     chain_ok commit state c' \<and> (\<forall>k. k \<notin> K \<longrightarrow> ledger_of state c' k = ledger_of state c k) \<and>
     more_calls (actions_of c) (actions_of c')"

lemma spec_transaction_frame:
  "args \<noteq> [] \<Longrightarrow> hd args \<noteq> k \<Longrightarrow> spec_transaction f args L k = L k"
  by (auto simp: spec_transaction_def parseExperimentWriteArgs_Inr_iff split: sum.splits)

lemma key_call_relied:
  assumes laws: "ledger_laws (PutState stub) (GetState stub) commit state" and ok: "chain_ok commit state c"
    and call: "key_call stub commit nf k c c'"
  shows "relied commit state {k} c c'"
proof -
  obtain verb f args reported where k: "f \<in> {''experimentWrite'', ''experimentRead''}" "args \<noteq> []" "hd args = k"
    and c: "chain_call stub commit nf verb f args reported c c'" using call unfolding key_call_def by blast
  have "f \<in> known_functions" using k(1) by (auto simp: known_functions_def)
  from chain_call_refines [OF laws ok this c] k spec_transaction_frame show ?thesis
    by (auto simp: relied_def spec_call_def more_calls_def)
qed

lemma calls_under_relied:
  assumes laws: "ledger_laws (PutState stub) (GetState stub) commit state" and ok: "chain_ok commit state c"
    and calls: "calls_under stub commit nf K c c'"
  shows "relied commit state K c c'"
  using calls unfolding calls_under_def
proof (induction rule: rtranclp_induct)
  case base
  then show ?case using ok by (simp add: relied_def)
next
  case (step x y)
  then obtain k where "k \<in> K" "key_call stub commit nf k x y" by blast
  have "chain_ok commit state x" using step.IH by (simp add: relied_def)
  from key_call_relied [OF laws this \<open>key_call stub commit nf k x y\<close>] step.IH \<open>k \<in> K\<close> show ?case
    by (auto simp: relied_def intro: more_calls_trans)
qed

subsection \<open>The worker's operations\<close>

lemma CallWriteFunc_call:
  assumes "CallWriteFunc h n a w = (Ret e, a', w')"
  shows "0 \<le> sint n \<and> a' = (if e = None then a\<lparr>CCWorker.Counter := CCWorker.Counter a + 1\<rparr> else a) \<and>
    (\<exists>peer e'. (e' = None \<longleftrightarrow> e = None) \<and>
      invokeChaincodeCli h a ''invoke'' ''experimentWrite''
        [Id a, Itoa (CCWorker.Counter a), replicate (nat (sint n)) CHR ''a''] (apply_log_level h a w) =
      (Ret (peer, e'), w'))"
  using assms
  by (auto simp: CallWriteFunc_def writeKey_def Repeat_a_def
      split: prod.splits outcome.splits option.splits if_splits)

lemma CallReadFunc_call:
  assumes "CallReadFunc h a w = (Ret e, w')"
  shows "\<exists>peer e'. (e' = None \<longleftrightarrow> e = None) \<and>
    invokeChaincodeCli h a ''query'' ''experimentRead'' [Id a] (apply_log_level h a w) = (Ret (peer, e'), w')"
  using assms by (auto simp: CallReadFunc_def readKey_def split: prod.splits option.splits)

text \<open>The experiment a worker writes.\<close>

definition written :: "go_int \<Rightarrow> go_int \<Rightarrow> ExperimentData" where
  "written n k = \<lparr>Data = Some (replicate (nat (sint n)) CHR ''a''), Counter = k\<rparr>"

lemma spec_transaction_written:
  "spec_transaction ''experimentWrite'' [i, Itoa k, replicate (nat (sint n)) CHR ''a''] L = L(i \<mapsto> written n k)"
proof -
  have "parseExperimentWriteArgs [i, Itoa k, replicate (nat (sint n)) CHR ''a''] =
      Inr (i, k, replicate (nat (sint n)) CHR ''a'')"
    by (simp add: parseExperimentWriteArgs_Inr_iff Atoi_Itoa)
  then show ?thesis by (simp add: spec_transaction_def written_def)
qed

abbreviation write_args :: "go_int \<Rightarrow> CCWorker \<Rightarrow> string list" where
  "write_args n a \<equiv> [Id a, Itoa (CCWorker.Counter a), replicate (nat (sint n)) CHR ''a'']"

context chain_environment begin

lemma write_among:
  assumes law: "cli_law_among E h stub commit nf chain" and p: "CallWriteFunc h n a w = (Ret e, a', w')"
  shows "one_call E stub commit nf ''invoke'' ''experimentWrite'' (write_args n a) (e = None) (chain w) (chain w')"
proof -
  obtain peer e' where e': "e' = None \<longleftrightarrow> e = None"
    and call: "invokeChaincodeCli h a ''invoke'' ''experimentWrite'' (write_args n a) (apply_log_level h a w)
      = (Ret (peer, e'), w')"
    using CallWriteFunc_call [OF p] by blast
  from one_call_after [OF cli_level [OF law] invoke_among [OF law _ call]] e' show ?thesis by simp
qed

lemma read_among:
  assumes law: "cli_law_among E h stub commit nf chain" and p: "CallReadFunc h a w = (Ret e, w')"
  shows "one_call E stub commit nf ''query'' ''experimentRead'' [Id a] (e = None) (chain w) (chain w')"
proof -
  obtain peer e' where e': "e' = None \<longleftrightarrow> e = None"
    and call: "invokeChaincodeCli h a ''query'' ''experimentRead'' [Id a] (apply_log_level h a w) = (Ret (peer, e'), w')"
    using CallReadFunc_call [OF p] by blast
  from one_call_after [OF cli_level [OF law] invoke_among [OF law _ call]] e' show ?thesis by simp
qed

end

text \<open>The effect on the ledger when nobody else acts.\<close>

lemma write_effect:
  assumes law: "cli_law h stub commit nf chain"
    and ledger: "ledger_laws (PutState stub) (GetState stub) commit state" and ok: "chain_ok commit state (chain w)"
    and p: "CallWriteFunc h n a w = (Ret e, a', w')"
  shows "chain_ok commit state (chain w') \<and>
    a' = (if e = None then a\<lparr>CCWorker.Counter := CCWorker.Counter a + 1\<rparr> else a) \<and>
    spec_call state ''invoke'' ''experimentWrite'' (write_args n a) (e = None) (chain w) (chain w')"
  using chain_call_refines [OF ledger ok _ alone.write_among [OF law [unfolded cli_law_def] p, unfolded one_call_alone]]
    CallWriteFunc_call [OF p]
  by (simp add: known_functions_def)

lemma read_effect:
  assumes law: "cli_law h stub commit nf chain"
    and ledger: "ledger_laws (PutState stub) (GetState stub) commit state" and ok: "chain_ok commit state (chain w)"
    and p: "CallReadFunc h a w = (Ret e, w')"
  shows "chain_ok commit state (chain w') \<and>
    spec_call state ''query'' ''experimentRead'' [Id a] (e = None) (chain w) (chain w')"
  using chain_call_refines [OF ledger ok _ alone.read_among [OF law [unfolded cli_law_def] p, unfolded one_call_alone]]
  by (simp add: known_functions_def)

subsection \<open>Properties\<close>

text \<open>
  C1: when a worker's write reports success, the ledger holds, under the worker's identifier, an
  experiment with the counter the worker had and as many letters \<open>a\<close> as the data size asks for;
  no other experiment has changed, the metrics have one more successful \<open>experimentWrite\<close>, and
  the worker's counter is one higher.
\<close>

theorem write_end_to_end:
  assumes law: "cli_law h stub commit nf chain"
    and ledger: "ledger_laws (PutState stub) (GetState stub) commit state"
    and m: "wf_metrics (Metrics (fst (chain w)))" and c: "committed commit state (snd (chain w))"
    and p: "CallWriteFunc h n a w = (Ret None, a', w')"
  shows "experiments (state (snd (chain w'))) =
      (experiments (state (snd (chain w))))
        (Id a \<mapsto> \<lparr>Data = Some (replicate (nat (sint n)) CHR ''a''), Counter = CCWorker.Counter a\<rparr>) \<and>
    recorded_actions (Metrics (fst (chain w'))) =
      recorded_actions (Metrics (fst (chain w))) @ [(''experimentWrite'', True)] \<and>
    a' = a\<lparr>CCWorker.Counter := CCWorker.Counter a + 1\<rparr>"
proof -
  have "chain_ok commit state (chain w)" using m c by (simp add: chain_ok_def)
  from write_effect [OF law ledger this p] show ?thesis
    by (auto simp: spec_call_def spec_transaction_written written_def ledger_of_def actions_of_def)
qed

text \<open>
  C14: when a worker's read reports success, the ledger holds an experiment under the worker's
  identifier; the read has changed no experiment, and the metrics have one more successful
  \<open>experimentRead\<close>. Whatever it reports, a read never changes an experiment.
\<close>

theorem read_end_to_end:
  assumes law: "cli_law h stub commit nf chain"
    and ledger: "ledger_laws (PutState stub) (GetState stub) commit state"
    and m: "wf_metrics (Metrics (fst (chain w)))" and c: "committed commit state (snd (chain w))"
    and p: "CallReadFunc h a w = (Ret e, w')"
  shows "experiments (state (snd (chain w'))) = experiments (state (snd (chain w))) \<and>
    (e = None \<longrightarrow> experiments (state (snd (chain w))) (Id a) \<noteq> None \<and>
      recorded_actions (Metrics (fst (chain w'))) =
        recorded_actions (Metrics (fst (chain w))) @ [(''experimentRead'', True)])"
proof -
  have "chain_ok commit state (chain w)" using m c by (simp add: chain_ok_def)
  from read_effect [OF law ledger this p] show ?thesis
    by (auto simp: spec_call_def ledger_of_def actions_of_def allowed_def)
qed

text \<open>A host whose command runs the chaincode on the ledger of the witnesses.\<close>

type_synonym demo_chain = "metricsContainer Chaincode \<times> demo_ledger"

definition chain_host :: "(unit, demo_chain) host" where
  "chain_host =
     \<lparr>Open_file = \<lambda>_ w. (Inr (), w), ReadAll = \<lambda>_ w. (Inr [], w),
      Unmarshal_peers = \<lambda>_ w. (Inr [(''peer0'', [])], w), Rand_Int = \<lambda>n w. (if n = 0 then Inl (Err []) else Inr 0, w),
      New_uuid = \<lambda>w. (Some ''1b4e28ba'', w),
      RunCommand = \<lambda>_ args w.
        (case submit RecordChaincodeActionInvocation (Err []) demo_commit (demo_stub [] [])
            (the (flag_value ''--fcn='' args), dash_a_values args, 1) (fst w) (snd w) of
           Ret (r, cc, l) \<Rightarrow> (([], if status_ok r then None else Some (Err ''exit status 1'')),
             (cc, if args ! 2 = ''invoke'' then l else snd w))
         | _ \<Rightarrow> (([], Some (Err ''exit status 2'')), w)),
      ParseLevel = \<lambda>_. Inr InfoLevel, SetLevel = \<lambda>_ w. w\<rparr>"

lemma chain_host_rand: "rand_law chain_host"
  by (auto simp: rand_law_def chain_host_def split: if_splits)

lemma chain_host_law: "cli_law chain_host (demo_stub [] []) demo_commit (Err []) (\<lambda>w. w)"
  unfolding cli_law_def cli_law_among_def one_call_alone
  by (auto simp: chain_host_def chain_call_def intro!: exI [of _ "1 :: nat"] split: outcome.splits)

definition chain_start :: demo_chain where
  "chain_start = (NewChaincode demo_manager, (\<lambda>_. [], \<lambda>_. []))"

lemma chain_start_ok:
  "wf_metrics (Metrics (fst chain_start))" "committed demo_commit fst (snd chain_start)"
  by (simp_all add: chain_start_def NewChaincode_def demo_manager_wf committed_def demo_commit_def)

lemma demo_submit_write:
  "\<exists>cc l. submit RecordChaincodeActionInvocation (Err []) demo_commit (demo_stub [] [])
    (''experimentWrite'', [k, Itoa n, d], 1) (fst chain_start) (snd chain_start) = Ret (shim_Success None, cc, l)"
proof -
  let ?stub = "(demo_stub [] [])\<lparr>GetFunctionAndParameters := (''experimentWrite'', [k, Itoa n, d])\<rparr>"
  obtain w' where put: "PutState ?stub (experimentKeyPrefix @ k) (marshal \<lparr>Data = Some d, Counter = n\<rparr>)
      (snd chain_start) = (None, w')"
    by (simp add: demo_stub_def demo_put_def)
  obtain cc where "Invoke RecordChaincodeActionInvocation (Err []) 1 ?stub (fst chain_start) (snd chain_start) =
      (Ret (shim_Success None, cc), w')"
    using Invoke_write [OF chain_start_ok(1) _ Atoi_Itoa put, of "Err []" 1] by auto
  then show ?thesis by (simp add: submit_def)
qed

lemma chain_host_write: "\<exists>a' w'. CallWriteFunc chain_host 3 demo_worker chain_start = (Ret None, a', w')"
proof -
  let ?vals = "[Id demo_worker, Itoa (CCWorker.Counter demo_worker), replicate (nat (sint (3 :: go_int))) CHR ''a'']"
  let ?args = "cli_arguments demo_worker ''invoke'' ''experimentWrite'' ''peer0'' ?vals"
  obtain cc l where "submit RecordChaincodeActionInvocation (Err []) demo_commit (demo_stub [] [])
      (''experimentWrite'', ?vals, 1) (fst chain_start) (snd chain_start) = Ret (shim_Success None, cc, l)"
    using demo_submit_write by blast
  then have run: "RunCommand chain_host ''kubectl'' ?args chain_start = (([], None), (cc, l))"
    by (simp add: chain_host_def cli_arguments_fcn cli_arguments_values cli_arguments_verb)
  have peer: "randomPeer chain_host chain_start = (Ret (Inr ''peer0''), chain_start)"
    by (simp add: randomPeer_def chain_host_def)
  have "invokeChaincodeCli chain_host demo_worker ''invoke'' ''experimentWrite'' ?vals chain_start =
      (Ret (''peer0'', None), (cc, l))"
    using run peer by (simp add: invokeChaincodeCli_def Let_def)
  moreover have "apply_log_level chain_host demo_worker chain_start = chain_start"
    by (simp add: apply_log_level_def chain_host_def)
  ultimately show ?thesis
    by (simp add: CallWriteFunc_def writeKey_def Repeat_a_def)
qed

theorem write_end_to_end_witness:
  "\<exists>a' w'. CallWriteFunc chain_host 3 demo_worker chain_start = (Ret None, a', w') \<and>
    experiments (fst (snd w')) ''7'' = Some \<lparr>Data = Some ''aaa'', Counter = 0\<rparr>"
proof -
  obtain a' w' where p: "CallWriteFunc chain_host 3 demo_worker chain_start = (Ret None, a', w')"
    using chain_host_write by blast
  show ?thesis
    using write_end_to_end [OF chain_host_law demo_laws chain_start_ok p] p
    by (simp add: demo_worker_def numeral_3_eq_3)
qed

lemma chain_host_read:
  assumes "chain_ok demo_commit fst w" and "experiments (fst (snd w)) (Id a) = Some d"
  shows "\<exists>w'. CallReadFunc chain_host a w = (Ret None, w')"
proof -
  let ?stub = "(demo_stub [] [])\<lparr>GetFunctionAndParameters := (''experimentRead'', [Id a])\<rparr>"
  let ?args = "cli_arguments a ''query'' ''experimentRead'' ''peer0'' [Id a]"
  have get: "GetState ?stub (experimentKeyPrefix @ Id a) (snd w) = (Inr (fst (snd w) (experimentKeyPrefix @ Id a)), snd w)"
    by (simp add: demo_stub_def demo_get_def)
  have u: "unmarshal (fst (snd w) (experimentKeyPrefix @ Id a)) = Inr d"
    using assms(2) by (simp add: experiments_def split: sum.splits)
  have m: "wf_metrics (Metrics (fst w))" using assms(1) by (simp add: chain_ok_def)
  obtain cc where "Invoke RecordChaincodeActionInvocation (Err []) 1 ?stub (fst w) (snd w) =
      (Ret (shim_Success None, cc), snd w)"
    using Invoke_read [OF m _ get u, of "Err []" 1] by auto
  then have "submit RecordChaincodeActionInvocation (Err []) demo_commit (demo_stub [] [])
      (''experimentRead'', [Id a], 1) (fst w) (snd w) = Ret (shim_Success None, cc, demo_commit (snd w))"
    by (simp add: submit_def)
  then have "RunCommand chain_host ''kubectl'' ?args w = (([], None), (cc, snd w))"
    by (simp add: chain_host_def cli_arguments_fcn cli_arguments_values cli_arguments_verb)
  moreover have "randomPeer chain_host w = (Ret (Inr ''peer0''), w)"
    by (simp add: randomPeer_def chain_host_def)
  ultimately have "invokeChaincodeCli chain_host a ''query'' ''experimentRead'' [Id a] w = (Ret (''peer0'', None), (cc, snd w))"
    by (simp add: invokeChaincodeCli_def Let_def)
  moreover have "apply_log_level chain_host a w = w"
    by (simp add: apply_log_level_def chain_host_def)
  ultimately show ?thesis by (simp add: CallReadFunc_def readKey_def)
qed

theorem read_end_to_end_witness:
  "\<exists>a' w' w''. CallWriteFunc chain_host 3 demo_worker chain_start = (Ret None, a', w') \<and>
    CallReadFunc chain_host demo_worker w' = (Ret None, w'') \<and>
    recorded_actions (Metrics (fst w'')) = recorded_actions (Metrics (fst w')) @ [(''experimentRead'', True)]"
proof -
  obtain a' w' where p: "CallWriteFunc chain_host 3 demo_worker chain_start = (Ret None, a', w')"
    using chain_host_write by blast
  have "chain_ok demo_commit fst chain_start" using chain_start_ok by (simp add: chain_ok_def)
  from write_effect [OF chain_host_law demo_laws this p] have w': "chain_ok demo_commit fst w'"
    and "experiments (fst (snd w')) (Id demo_worker) = Some (written 3 (CCWorker.Counter demo_worker))"
    by (auto simp: spec_call_def ledger_of_def spec_transaction_written [of _ _ 3, simplified])
  with chain_host_read obtain w'' where r: "CallReadFunc chain_host demo_worker w' = (Ret None, w'')"
    by blast
  have "wf_metrics (Metrics (fst w'))" "committed demo_commit fst (snd w')"
    using w' by (simp_all add: chain_ok_def)
  from read_end_to_end [OF chain_host_law demo_laws this r] p r show ?thesis by blast
qed

end
