(* ===== verification/BenchLedger.thy ===== *)
theory BenchLedger
  imports EndToEnd Pods
begin

section \<open>A benchmark and the ledger\<close>

text \<open>
  What a whole benchmark does to the ledger and to the metrics of the chaincode, compared with
  what it has measured: the loop of \<open>worker.go\<close> over the operations of \<open>read.go\<close> and \<open>write.go\<close>,
  through the command line, to \<open>experiment.go\<close> and \<open>metrics.go\<close>. The hypotheses about the
  outside are those of \<open>EndToEnd\<close>. Other workers may send commands under the keys \<open>K\<close> while any
  call lasts; with \<open>K\<close> empty nobody else acts, and the clock, the random numbers and the tracing
  of the benchmark do not touch the chain (\<open>quiet_runtime\<close>).
\<close>

subsection \<open>The invariant\<close>

definition quiet_runtime :: "('t, 'w) runtime \<Rightarrow> ('w \<Rightarrow> 'l chain) \<Rightarrow> bool" where
  "quiet_runtime rt chain \<longleftrightarrow> runtime_among (=) chain rt"

text \<open>
  The experiment under a worker's key after \<open>k\<close> writes that the worker, starting from the
  counter of \<open>a\<close>, has measured: the last of these writes. A write that was reported as a failure
  may have been committed all the same; it has the counter of the next one. With \<open>ledger_after\<close>
  no other experiment has changed.
\<close>

definition own_value ::
  "go_int \<Rightarrow> CCWorker \<Rightarrow> nat \<Rightarrow> ExperimentData option \<Rightarrow> ExperimentData option \<Rightarrow> bool" where
  "own_value n a k old v \<longleftrightarrow>
     v \<in> {Some (written n (CCWorker.Counter a + of_nat k)),
          if k = 0 then old else Some (written n (CCWorker.Counter a + of_nat k - 1))}"

definition ledger_after ::
  "go_int \<Rightarrow> CCWorker \<Rightarrow> nat \<Rightarrow> (string \<Rightarrow> ExperimentData option) \<Rightarrow> (string \<Rightarrow> ExperimentData option) \<Rightarrow> bool" where
  "ledger_after n a k L L' \<longleftrightarrow>
     (\<forall>i. i \<noteq> Id a \<longrightarrow> L' i = L i) \<and> own_value n a k (L (Id a)) (L' (Id a))"

lemma own_value_start: "own_value n a 0 old old"
  by (simp add: own_value_def)

lemma own_value_write:
  "own_value n a (Suc k) old (Some (written n (CCWorker.Counter a + of_nat k)))"
  "own_value n a k old (Some (written n (CCWorker.Counter a + of_nat k)))"
  by (simp_all add: own_value_def)

text \<open>The calls the metrics have counted cover the operations that were measured.\<close>

definition actions_cover :: "string list \<Rightarrow> (string \<times> bool) list \<Rightarrow> (string \<times> bool) list \<Rightarrow> bool" where
  "actions_cover ns A A' \<longleftrightarrow>
     (\<exists>acts. A' = A @ acts \<and> fst ` set acts \<subseteq> {''experimentWrite'', ''experimentRead''} \<and>
        count_list ns ''write'' \<le> count_list acts (''experimentWrite'', True) \<and>
        count_list ns ''read'' \<le> count_list acts (''experimentRead'', True))"

lemma actions_cover_start: "actions_cover [] A A"
  by (simp add: actions_cover_def)

lemma count_list_snoc: "count_list (xs @ [y]) x = count_list xs x + (if x = y then 1 else 0)"
  by simp

lemma actions_cover_more:
  assumes "actions_cover ns A A'"
  shows "f \<in> {''experimentWrite'', ''experimentRead''} \<Longrightarrow> actions_cover ns A (A' @ [(f, ok)])"
    and "actions_cover (ns @ [''write'']) A (A' @ [(''experimentWrite'', True)])"
    and "actions_cover (ns @ [''read'']) A (A' @ [(''experimentRead'', True)])"
proof -
  obtain acts where acts: "A' = A @ acts" "fst ` set acts \<subseteq> {''experimentWrite'', ''experimentRead''}"
    "count_list ns ''write'' \<le> count_list acts (''experimentWrite'', True)"
    "count_list ns ''read'' \<le> count_list acts (''experimentRead'', True)"
    using assms unfolding actions_cover_def by blast
  show "f \<in> {''experimentWrite'', ''experimentRead''} \<Longrightarrow> actions_cover ns A (A' @ [(f, ok)])"
    using acts unfolding actions_cover_def by (intro exI [of _ "acts @ [(f, ok)]"]) auto
  show "actions_cover (ns @ [''write'']) A (A' @ [(''experimentWrite'', True)])"
    using acts unfolding actions_cover_def by (intro exI [of _ "acts @ [(''experimentWrite'', True)]"]) auto
  show "actions_cover (ns @ [''read'']) A (A' @ [(''experimentRead'', True)])"
    using acts unfolding actions_cover_def by (intro exI [of _ "acts @ [(''experimentRead'', True)]"]) auto
qed

lemma actions_cover_others: "actions_cover ns A B \<Longrightarrow> more_calls B C \<Longrightarrow> actions_cover ns A C"
  by (fastforce simp: actions_cover_def more_calls_def image_Un)

lemma actions_cover_earlier: "more_calls A B \<Longrightarrow> actions_cover ns B C \<Longrightarrow> actions_cover ns A C"
  by (fastforce simp: actions_cover_def more_calls_def image_Un)

text \<open>
  The chain after the operations \<open>ns\<close> of a worker \<open>a\<close>: its own commands and those under the keys
  \<open>K\<close> have led there, and unless others use its key, the key holds the worker's own value.
\<close>

definition chain_after ::
  "string set \<Rightarrow> go_int \<Rightarrow> 'l ChaincodeStub \<Rightarrow> ('l \<Rightarrow> 'l) \<Rightarrow> goerr \<Rightarrow> ('l \<Rightarrow> string \<Rightarrow> string) \<Rightarrow> CCWorker \<Rightarrow>
   'l chain \<Rightarrow> string list \<Rightarrow> 'l chain \<Rightarrow> bool" where
  "chain_after K n stub commit nf state a c0 ns x \<longleftrightarrow>
     chain_ok commit state x \<and> calls_under stub commit nf (insert (Id a) K) c0 x \<and>
     (Id a \<notin> K \<longrightarrow>
        own_value n a (count_list ns ''write'') (ledger_of state c0 (Id a)) (ledger_of state x (Id a))) \<and>
     actions_cover ns (actions_of c0) (actions_of x)"

lemma chain_after_others:
  assumes laws: "ledger_laws (PutState stub) (GetState stub) commit state"
    and i: "chain_after K n stub commit nf state a c0 ns x" and calls: "calls_under stub commit nf K x y"
  shows "chain_after K n stub commit nf state a c0 ns y"
proof -
  have "chain_ok commit state x" using i by (simp add: chain_after_def)
  from calls_under_relied [OF laws this calls] have "relied commit state K x y" .
  moreover have "calls_under stub commit nf (insert (Id a) K) x y" by (rule calls_under_more [OF calls]) blast
  ultimately show ?thesis
    using i by (auto simp: chain_after_def relied_def intro: among.E_trans actions_cover_others)
qed

lemma chain_after_call:
  assumes laws: "ledger_laws (PutState stub) (GetState stub) commit state"
    and i: "chain_after K n stub commit nf state a c0 ns x"
    and f: "verb \<in> {''invoke'', ''query''}" "f \<in> {''experimentWrite'', ''experimentRead''}" "args \<noteq> []" "hd args = Id a"
    and call: "chain_call stub commit nf verb f args reported x y"
  shows "chain_ok commit state y \<and> calls_under stub commit nf (insert (Id a) K) c0 y \<and>
    spec_call state verb f args reported x y"
proof -
  have "key_call stub commit nf (Id a) x y" unfolding key_call_def using f call by blast
  then have "calls_under stub commit nf (insert (Id a) K) x y" by (rule calls_under_one) blast
  moreover have "chain_ok commit state x" "f \<in> known_functions" using i f(2) by (auto simp: chain_after_def known_functions_def)
  note chain_call_refines [OF laws this call]
  ultimately show ?thesis using i by (auto simp: chain_after_def intro: among.E_trans)
qed

lemma chain_after_write:
  fixes a :: CCWorker
  defines "b ns \<equiv> a\<lparr>CCWorker.Counter := CCWorker.Counter a + of_nat (count_list ns ''write'')\<rparr>"
  assumes laws: "ledger_laws (PutState stub) (GetState stub) commit state"
    and i: "chain_after K n stub commit nf state a c0 ns x"
    and call: "chain_call stub commit nf ''invoke'' ''experimentWrite'' (write_args n (b ns)) reported x y"
  shows "chain_after K n stub commit nf state a c0 (if reported then ns @ [''write''] else ns) y"
proof -
  note after = chain_after_call [OF laws i _ _ _ _ call]
  have "spec_call state ''invoke'' ''experimentWrite'' (write_args n (b ns)) reported x y"
    "chain_ok commit state y" "calls_under stub commit nf (insert (Id a) K) c0 y"
    using after by (simp_all add: b_def)
  then show ?thesis
    using i
    by (cases reported)
      (auto simp: chain_after_def spec_call_def spec_transaction_written b_def own_value_write
        intro: actions_cover_more)
qed

lemma chain_after_read:
  assumes laws: "ledger_laws (PutState stub) (GetState stub) commit state"
    and i: "chain_after K n stub commit nf state a c0 ns x"
    and call: "chain_call stub commit nf ''query'' ''experimentRead'' [Id a] reported x y"
  shows "chain_after K n stub commit nf state a c0 (if reported then ns @ [''read''] else ns) y"
  using chain_after_call [OF laws i _ _ _ _ call] i
  by (auto simp: chain_after_def spec_call_def intro: actions_cover_more)

lemma chain_after_one_call:
  assumes laws: "ledger_laws (PutState stub) (GetState stub) commit state"
    and i: "chain_after K n stub commit nf state a c0 ns x"
    and one: "one_call (calls_under stub commit nf K) stub commit nf verb f args reported x y"
    and step: "\<And>x y. chain_after K n stub commit nf state a c0 ns x \<Longrightarrow>
      chain_call stub commit nf verb f args reported x y \<Longrightarrow> chain_after K n stub commit nf state a c0 ns' y"
  shows "chain_after K n stub commit nf state a c0 ns' y"
proof -
  obtain c1 c2 where "calls_under stub commit nf K x c1" "chain_call stub commit nf verb f args reported c1 c2"
    "calls_under stub commit nf K c2 y" using one unfolding one_call_def by blast
  then show ?thesis using chain_after_others [OF laws] i step by blast
qed

text \<open>What the outside does as documented, for a benchmark with the operations of \<open>chaincodes\<close>.\<close>

definition bench_laws ::
  "string set \<Rightarrow> ('f, 'w) host \<Rightarrow> go_int \<Rightarrow> 'l ChaincodeStub \<Rightarrow> ('l \<Rightarrow> 'l) \<Rightarrow> goerr \<Rightarrow>
   ('l \<Rightarrow> string \<Rightarrow> string) \<Rightarrow> ('w \<Rightarrow> 'l chain) \<Rightarrow> ('t, 'w) runtime \<Rightarrow>
   ('x operation_config, 'w) WorkerConfig \<Rightarrow> bool" where
  "bench_laws K h n stub commit nf state chain rt conf \<longleftrightarrow>
     cli_law_among (calls_under stub commit nf K) h stub commit nf chain \<and>
     ledger_laws (PutState stub) (GetState stub) commit state \<and>
     runtime_among (calls_under stub commit nf K) chain rt \<and>
     WriteOp conf = write_operation h n \<and> ReadOp conf = read_operation h"

definition bench_ledger ::
  "string set \<Rightarrow> ('f, 'w) host \<Rightarrow> go_int \<Rightarrow> 'l ChaincodeStub \<Rightarrow> ('l \<Rightarrow> 'l) \<Rightarrow> goerr \<Rightarrow>
   ('l \<Rightarrow> string \<Rightarrow> string) \<Rightarrow> ('w \<Rightarrow> 'l chain) \<Rightarrow> ('t, 'w) runtime \<Rightarrow>
   ('x operation_config, 'w) WorkerConfig \<Rightarrow> CCWorker \<Rightarrow> 'l chain \<Rightarrow>
   'x operation_config \<Rightarrow> 'w \<Rightarrow> string list \<Rightarrow> bool" where
  "bench_ledger K h n stub commit nf state chain rt conf a c0 c w ns \<longleftrightarrow>
     bench_laws K h n stub commit nf state chain rt conf \<and>
     c = CC (Some (a\<lparr>CCWorker.Counter := CCWorker.Counter a + of_nat (count_list ns ''write'')\<rparr>)) \<and>
     chain_after K n stub commit nf state a c0 ns (chain w)"

lemma bench_ledger_others:
  "bench_ledger K h n stub commit nf state chain rt conf a c0 c w ns \<Longrightarrow>
    calls_under stub commit nf K (chain w) (chain w') \<Longrightarrow>
    bench_ledger K h n stub commit nf state chain rt conf a c0 c w' ns"
  by (auto simp: bench_ledger_def bench_laws_def intro: chain_after_others)

lemma bench_ledger_runtime:
  "bench_ledger K h n stub commit nf state chain rt conf a c0 c w ns \<Longrightarrow>
    runtime_among (calls_under stub commit nf K) chain rt"
  by (simp add: bench_ledger_def bench_laws_def)

lemma bench_ledger_write:
  assumes i: "bench_ledger K h n stub commit nf state chain rt conf a c0 c w ns"
    and p: "WriteOp conf c w = (Ret e, c', w')"
  shows "bench_ledger K h n stub commit nf state chain rt conf a c0 c' w' (if e = None then ns @ [''write''] else ns)"
proof -
  let ?b = "a\<lparr>CCWorker.Counter := CCWorker.Counter a + of_nat (count_list ns ''write'')\<rparr>"
  from i have laws: "bench_laws K h n stub commit nf state chain rt conf"
    and after: "chain_after K n stub commit nf state a c0 ns (chain w)" by (simp_all add: bench_ledger_def)
  then have law: "cli_law_among (calls_under stub commit nf K) h stub commit nf chain"
    "ledger_laws (PutState stub) (GetState stub) commit state" by (simp_all add: bench_laws_def)
  obtain b' where b': "CallWriteFunc h n ?b w = (Ret e, b', w')" "c' = CC (Some b')"
    using i p laws by (auto simp: bench_ledger_def bench_laws_def write_operation_def split: prod.splits)
  have "chain_after K n stub commit nf state a c0 (if e = None then ns @ [''write''] else ns) (chain w')"
    by (rule chain_after_one_call [OF law(2) after among.write_among [OF law(1) b'(1)] chain_after_write [OF law(2)]])
  moreover have "b' = (if e = None then ?b\<lparr>CCWorker.Counter := CCWorker.Counter ?b + 1\<rparr> else ?b)"
    using CallWriteFunc_call [OF b'(1)] by blast
  ultimately show ?thesis using laws b'(2) by (simp add: bench_ledger_def add.commute [of 1] add.assoc)
qed

lemma bench_ledger_read:
  assumes i: "bench_ledger K h n stub commit nf state chain rt conf a c0 c w ns"
    and p: "ReadOp conf c w = (Ret e, c', w')"
  shows "bench_ledger K h n stub commit nf state chain rt conf a c0 c' w' (if e = None then ns @ [''read''] else ns)"
proof -
  let ?b = "a\<lparr>CCWorker.Counter := CCWorker.Counter a + of_nat (count_list ns ''write'')\<rparr>"
  from i have laws: "bench_laws K h n stub commit nf state chain rt conf"
    and after: "chain_after K n stub commit nf state a c0 ns (chain w)" by (simp_all add: bench_ledger_def)
  then have law: "cli_law_among (calls_under stub commit nf K) h stub commit nf chain"
    "ledger_laws (PutState stub) (GetState stub) commit state" by (simp_all add: bench_laws_def)
  have r: "CallReadFunc h ?b w = (Ret e, w')" "c' = CC (Some ?b)"
    using i p laws by (auto simp: bench_ledger_def bench_laws_def read_operation_def split: prod.splits)
  have "one_call (calls_under stub commit nf K) stub commit nf ''query'' ''experimentRead'' [Id a] (e = None) (chain w) (chain w')"
    using among.read_among [OF law(1) r(1)] by simp
  from chain_after_one_call [OF law(2) after this chain_after_read [OF law(2)]]
  show ?thesis using laws r(2) by (simp add: bench_ledger_def)
qed

interpretation ledger_bench:
  bench_invariant rt conf "bench_ledger K h n stub commit nf state chain rt conf a c0"
  for rt conf K h n stub commit nf state chain a c0
proof unfold_locales
  fix c w ns t d nm
  assume i: "bench_ledger K h n stub commit nf state chain rt conf a c0 c w ns"
  note q = bench_ledger_runtime [OF i, unfolded runtime_among_def] and others = bench_ledger_others [OF i]
  show "bench_ledger K h n stub commit nf state chain rt conf a c0 c (snd (Now rt w)) ns" using q by (intro others) blast
  show "bench_ledger K h n stub commit nf state chain rt conf a c0 c (snd (Since rt t w)) ns" using q by (intro others) blast
  show "bench_ledger K h n stub commit nf state chain rt conf a c0 c (snd (Rand_Int63n rt d w)) ns" using q by (intro others) blast
  show "bench_ledger K h n stub commit nf state chain rt conf a c0 c (Sleep rt d w) ns" using q by (intro others) blast
  show "bench_ledger K h n stub commit nf state chain rt conf a c0 c (snd (Start_span rt nm w)) ns" using q by (intro others) blast
  show "bench_ledger K h n stub commit nf state chain rt conf a c0 c (Finish_span rt w) ns" using q by (intro others) blast
qed (fact bench_ledger_write bench_ledger_read)+

subsection \<open>A benchmark\<close>

lemma iteration_count:
  "iteration_adds et s s' ns \<Longrightarrow>
    count_list (point_names (b_points s')) x \<le> Suc (count_list (point_names (b_points s)) x)"
  by (auto simp: iteration_adds_def iteration_names_def)

lemma iterations_count:
  assumes "\<forall>i < k. \<exists>ns. iteration_adds et (ss ! i) (ss ! Suc i) ns" and "b_points (ss ! 0) = []"
  shows "j \<le> k \<Longrightarrow> count_list (point_names (b_points (ss ! j))) x \<le> j"
proof (induction j)
  case 0
  then show ?case using assms(2) by (simp add: point_names_def)
next
  case (Suc j)
  then have "j < k" by simp
  with assms(1) obtain ns where "iteration_adds et (ss ! j) (ss ! Suc j) ns" by blast
  from iteration_count [OF this, of x] Suc show ?case by simp
qed

text \<open>A benchmark whose set-up succeeded comes back, whatever others do in the meantime under the keys \<open>K\<close>.\<close>

lemma chain_after_start:
  "chain_ok commit state c0 \<Longrightarrow> chain_after K n stub commit nf state a c0 [] c0"
  by (simp add: chain_after_def own_value_start actions_cover_start)

lemma benchmark_among:
  fixes c :: "('x operation_config, 'w) WorkerConfig" and rt :: "('t, 'w) runtime"
  assumes installed: "setupCustomChaincodes h ms numWriters c = (None, c')"
    and dec: "Decode ms (simi_decoder (ToSnake ms)) (OperationConfig c) = Inr (Some a)"
    and run: "rand_law h" "0 \<le> sint (DataSizeBytes c)" "0 < sint (OperationPeriod c)"
    and law: "cli_law_among (calls_under stub commit nf K) h stub commit nf chain"
      "runtime_among (calls_under stub commit nf K) chain rt"
    and ledger: "ledger_laws (PutState stub) (GetState stub) commit state" and ok: "chain_ok commit state (chain w)"
  shows "\<exists>s k. BenchOperation rt et c' w = Ret (None, s) \<and>
    k = count_list (point_names (b_points s)) ''write'' \<and> k \<le> unat (OperationsPerStream c) \<and>
    b_config s = CC (Some (a\<lparr>CCWorker.Counter := CCWorker.Counter a + of_nat k\<rparr>)) \<and>
    chain_after K (DataSizeBytes c) stub commit nf state a (chain w) (point_names (b_points s)) (chain (b_world s))"
proof -
  let ?n = "unat (OperationsPerStream c)"
  obtain ss :: "('x operation_config, 'w, 't) bench_state list" where ss: "b_points (ss ! 0) = []"
    "\<forall>i < ?n. \<exists>ns. iteration_adds et (ss ! i) (ss ! Suc i) ns" "BenchOperation rt et c' w = Ret (None, ss ! ?n)"
    using installed_benchmark [OF installed dec run, of rt w et] by force
  obtain s where s: "BenchOperation rt et c' w = Ret (None, s)" "s = ss ! ?n" using ss(3) by blast
  have k: "count_list (point_names (b_points s)) ''write'' \<le> ?n"
    unfolding s(2) by (rule iterations_count [OF ss(2,1) order_refl])
  have "bench_laws K h (DataSizeBytes c) stub commit nf state chain rt c'" "OperationConfig c' = CC (Some a)"
    using setupCustomChaincodes_ok [OF installed] dec law ledger by (auto simp: bench_laws_def)
  then have "bench_ledger K h (DataSizeBytes c) stub commit nf state chain rt c' a (chain w) (OperationConfig c') w []"
    using chain_after_start [OF ok] by (simp add: bench_ledger_def)
  from ledger_bench.BenchOperation_inv [OF this s(1)] s(1) k show ?thesis
    by (auto simp: bench_ledger_def)
qed

lemma chain_after_alone:
  assumes laws: "ledger_laws (PutState stub) (GetState stub) commit state" and ok: "chain_ok commit state c0"
    and after: "chain_after {} n stub commit nf state a c0 ns x"
  shows "ledger_after n a (count_list ns ''write'') (ledger_of state c0) (ledger_of state x) \<and>
    actions_cover ns (actions_of c0) (actions_of x)"
proof -
  have "calls_under stub commit nf {Id a} c0 x" using after by (simp add: chain_after_def)
  from calls_under_relied [OF laws ok this] after show ?thesis
    by (simp add: chain_after_def relied_def ledger_after_def)
qed

text \<open>
  C4: a benchmark whose set-up succeeded comes back, and what it has measured agrees with the
  ledger and the metrics: with \<open>k\<close> measured writes (at most one for each iteration) the worker's
  counter has gone up by \<open>k\<close>, the ledger has changed at most under the worker's identifier,
  where it holds the last of these writes or a later one that was reported as a failure, and the
  metrics have counted every measured write and read as a successful call.
\<close>

theorem benchmark_ledger:
  fixes c :: "('x operation_config, 'w) WorkerConfig" and rt :: "('t, 'w) runtime"
  assumes installed: "setupCustomChaincodes h ms numWriters c = (None, c')"
    and dec: "Decode ms (simi_decoder (ToSnake ms)) (OperationConfig c) = Inr (Some a)"
    and run: "rand_law h" "0 \<le> sint (DataSizeBytes c)" "0 < sint (OperationPeriod c)"
    and law: "cli_law h stub commit nf chain" "quiet_runtime rt chain"
    and ledger: "ledger_laws (PutState stub) (GetState stub) commit state" and ok: "chain_ok commit state (chain w)"
  shows "\<exists>s k. BenchOperation rt et c' w = Ret (None, s) \<and>
    k = count_list (point_names (b_points s)) ''write'' \<and> k \<le> unat (OperationsPerStream c) \<and>
    b_config s = CC (Some (a\<lparr>CCWorker.Counter := CCWorker.Counter a + of_nat k\<rparr>)) \<and>
    ledger_after (DataSizeBytes c) a k (ledger_of state (chain w)) (ledger_of state (chain (b_world s))) \<and>
    actions_cover (point_names (b_points s)) (actions_of (chain w)) (actions_of (chain (b_world s)))"
proof -
  have "cli_law_among (calls_under stub commit nf {}) h stub commit nf chain"
    "runtime_among (calls_under stub commit nf {}) chain rt"
    using law by (simp_all add: calls_under_none cli_law_def quiet_runtime_def)
  from benchmark_among [OF installed dec run this ledger ok, of et] show ?thesis
    using chain_after_alone [OF ledger ok] by blast
qed

definition chain_config :: "(unit operation_config, demo_chain) WorkerConfig" where
  "chain_config = (zero_WorkerConfig ())\<lparr>OperationPeriod := 5, OperationsPerStream := 2, DataSizeBytes := 3\<rparr>"

lemma chain_setup:
  "\<exists>c'. setupCustomChaincodes h (demo_decoder a) k c = (None, c')"
  by (simp add: setupCustomChaincodes_def SetupSimi_def SetupReadOp_def SetupWriteOp_def demo_decoder_def)

theorem benchmark_ledger_witness:
  "\<exists>c' s k. setupCustomChaincodes chain_host (demo_decoder demo_worker) 1 chain_config = (None, c') \<and>
    BenchOperation demo_runtime (\<lambda>_. ''error'') c' chain_start = Ret (None, s) \<and> k \<le> 2 \<and>
    ledger_after 3 demo_worker k (ledger_of fst chain_start) (ledger_of fst (b_world s))"
proof -
  obtain c' where c': "setupCustomChaincodes chain_host (demo_decoder demo_worker) 1 chain_config = (None, c')"
    using chain_setup by blast
  have "quiet_runtime demo_runtime (\<lambda>w. w :: demo_chain)"
    by (simp add: quiet_runtime_def runtime_among_def demo_runtime_def)
  moreover have "rand_law chain_host" by (rule chain_host_rand)
  moreover have "chain_ok demo_commit fst chain_start" using chain_start_ok by (simp add: chain_ok_def)
  ultimately show ?thesis
    using benchmark_ledger [OF c', of demo_worker "demo_stub [] []" demo_commit "Err []" "\<lambda>w. w" demo_runtime fst
        chain_start "\<lambda>_. ''error''"] c' chain_host_law demo_laws
    by (fastforce simp: chain_config_def zero_WorkerConfig_def demo_decoder_def)
qed

subsection \<open>A pod\<close>

lemma chain_after_earlier:
  assumes laws: "ledger_laws (PutState stub) (GetState stub) commit state" and ok: "chain_ok commit state c0"
    and calls: "calls_under stub commit nf K c0 c1" and after: "chain_after K n stub commit nf state a c1 ns x"
  shows "chain_after K n stub commit nf state a c0 ns x"
proof -
  have "relied commit state K c0 c1" by (rule calls_under_relied [OF laws ok calls])
  moreover have "calls_under stub commit nf (insert (Id a) K) c0 c1" by (rule calls_under_more [OF calls]) blast
  ultimately show ?thesis
    using after by (auto simp: chain_after_def relied_def intro: among.E_trans actions_cover_earlier)
qed

text \<open>The chain while a pod registers, runs its benchmark and closes the worker.\<close>

lemma pod_run_after:
  assumes r: "pod_run S c w wk w1 wk' w0 s w'" and load: "load_simi S t k ds = Inr c"
    and c: "OperationConfig c = CC (Some a)"
    and among: "surroundings_among (calls_under stub commit nf K) chain S"
    and law: "cli_law_among (calls_under stub commit nf K) (s_host S) stub commit nf chain"
    and ledger: "ledger_laws (PutState stub) (GetState stub) commit state" and ok: "chain_ok commit state (chain w)"
  shows "\<exists>b. OperationConfig (w_config wk') = CC (Some b) \<and> prepared t k a b \<and>
    b_config s = CC (Some (b\<lparr>CCWorker.Counter :=
      CCWorker.Counter b + of_nat (count_list (point_names (b_points s)) ''write'')\<rparr>)) \<and>
    calls_under stub commit nf K (chain w) (chain w0) \<and>
    chain_after K (DataSizeBytes c) stub commit nf state b (chain w0) (point_names (b_points s)) (chain w')"
proof -
  let ?E = "calls_under stub commit nf K"
  have q: "runtime_among ?E chain (s_runtime S)" "broker_among ?E chain (s_broker S)" "influx_among ?E chain (s_influx S)"
    "\<forall>w. ?E (chain w) (chain (snd (New_uuid (s_host S) w)))" "\<forall>d t w. ?E (chain w) (chain (snd (s_wait_start S d t w)))"
    "tracer_among ?E chain S" "dial_among ?E chain (s_broker S)"
    using among by (simp_all add: surroundings_among_def broker_among_def)
  note i = load_simi_installs [OF load]
  have e1: "?E (chain w) (chain w1)" and wk: "w_config wk = c"
    using among.pod_run_until_Register [OF r q(6,1,7,3)] by blast+
  have 2: "Register (s_broker S) (s_runtime S) (s_err_text S) (s_wait_start S) wk w1 = (Ret (None, wk'), w0)"
    and 3: "BenchOperation (s_runtime S) (s_err_text S) (w_config wk') w0 = Ret (None, s)"
    using r by (simp_all add: pod_run_def)
  have "\<forall>i c w. ?E (chain w) (chain (snd (snd (InitFunc (w_config wk) i c w))))"
    unfolding wk i(1) by (rule among.init_worker_among [OF q(4)])
  from among.Register_among [OF q(2,1,5) this 2] obtain w5 x cfg w6 where e2: "?E (chain w1) (chain w0)"
    and init: "InitFunc c (correlationID wk) (OperationConfig c) w5 = (Ret x, cfg, w6)"
    and wk': "w_config wk' = c\<lparr>OperationConfig := cfg\<rparr>"
    unfolding wk by blast
  from init_worker_prepared [OF init [unfolded i(1) c]] obtain b where b: "cfg = CC (Some b)" "prepared t k a b" by blast
  have e: "?E (chain w) (chain w0)" by (rule among.E_trans [OF e1 e2])
  then have "chain_ok commit state (chain w0)" using calls_under_relied [OF ledger ok] by (simp add: relied_def)
  then have "bench_ledger K (s_host S) (DataSizeBytes c) stub commit nf state chain (s_runtime S) (w_config wk') b (chain w0)
      (OperationConfig (w_config wk')) w0 []"
    using i wk' b(1) law ledger q(1) chain_after_start by (simp add: bench_ledger_def bench_laws_def)
  note end_inv = ledger_bench.BenchOperation_inv [OF this 3, unfolded bench_ledger_def]
  have "?E (chain (b_world s)) (chain w')"
    by (rule among.pod_run_after_benchmark [where obs = chain, OF r _ q(6,3) broker_among_close(2) [OF q(2)]])
      (simp add: wk' i(4))
  then have "chain_after K (DataSizeBytes c) stub commit nf state b (chain w0) (point_names (b_points s)) (chain w')"
    using end_inv chain_after_others [OF ledger] by blast
  then show ?thesis using b wk' e end_inv by (intro exI [of _ b]) simp
qed

text \<open>
  C2: a pod that ends normally, with the points \<open>pts\<close>, while other pods send commands under the
  keys \<open>K\<close> during any of its calls. Its configuration is the one loaded for its operation type,
  its worker \<open>b\<close> is the decoded one, with the counter decoded for it (and, in a pod that reads,
  with the identifier of a writer), and at the end the worker's counter has gone up by the
  number of writes the pod has measured. From start to end the chain has seen only the others'
  commands and commands under the key of this worker, and no experiment under any further key
  has changed. At the end, and however others go on after it, the metrics have counted every
  operation the pod has measured and, unless others use its key, the key holds the last of the
  writes it has measured, with its counter and of the configured size, or a later one reported
  as a failure.
\<close>

theorem pod_among_others:
  assumes run: "simi_main S numWriters dataSizeStr w = Ret (pts, w')"
    and worker: "\<And>cfg raw. Decode (s_decoder S) cfg raw \<noteq> Inr None"
    and among: "surroundings_among (calls_under stub commit nf K) chain S"
    and law: "cli_law_among (calls_under stub commit nf K) (s_host S) stub commit nf chain"
    and ledger: "ledger_laws (PutState stub) (GetState stub) commit state" and ok: "chain_ok commit state (chain w)"
  shows "\<exists>x t c a b wk w1 wk' w0 s.
    Atoi (getenv S ''JOB_COMPLETION_INDEX'') = Inr x \<and> t = operation_type x numWriters \<and>
    load_simi S t numWriters dataSizeStr = Inr c \<and> OperationConfig c = CC (Some a) \<and>
    pod_run S c w wk w1 wk' w0 s w' \<and> b_points s = pts \<and>
    OperationConfig (w_config wk') = CC (Some b) \<and>
    (if t = ''read'' then \<exists>i. reader_id numWriters (Id a) = Ret i \<and> b = a\<lparr>Id := i\<rparr> else b = a) \<and>
    b_config s = CC (Some (b\<lparr>CCWorker.Counter :=
      CCWorker.Counter b + of_nat (count_list (point_names pts) ''write'')\<rparr>)) \<and>
    calls_under stub commit nf (insert (Id b) K) (chain w) (chain w') \<and>
    (\<forall>k. k \<notin> insert (Id b) K \<longrightarrow> ledger_of state (chain w') k = ledger_of state (chain w) k) \<and>
    (\<forall>x. calls_under stub commit nf K (chain w') x \<longrightarrow>
      (Id b \<notin> K \<longrightarrow>
        own_value (DataSizeBytes c) b (count_list (point_names pts) ''write'')
          (ledger_of state (chain w) (Id b)) (ledger_of state x (Id b))) \<and>
      actions_cover (point_names pts) (actions_of (chain w)) (actions_of x))"
proof -
  obtain x c wk w1 wk' w0 s where x: "Atoi (getenv S ''JOB_COMPLETION_INDEX'') = Inr x"
    and load: "load_simi S (operation_type x numWriters) numWriters dataSizeStr = Inr c"
    and r: "pod_run S c w wk w1 wk' w0 s w'" and pts: "b_points s = pts"
    using run by (rule simi_main_run)
  obtain a where a: "OperationConfig c = CC (Some a)" using load worker by (rule load_simi_worker)
  from pod_run_after [OF r load a among law ledger ok] obtain b where
    b: "OperationConfig (w_config wk') = CC (Some b)" "prepared (operation_type x numWriters) numWriters a b"
      "b_config s = CC (Some (b\<lparr>CCWorker.Counter :=
        CCWorker.Counter b + of_nat (count_list (point_names pts) ''write'')\<rparr>))"
    and calls: "calls_under stub commit nf K (chain w) (chain w0)"
    and "chain_after K (DataSizeBytes c) stub commit nf state b (chain w0) (point_names pts) (chain w')"
    unfolding pts by blast
  then have after: "chain_after K (DataSizeBytes c) stub commit nf state b (chain w) (point_names pts) (chain w')"
    using chain_after_earlier [OF ledger ok] by blast
  have later: "(Id b \<notin> K \<longrightarrow>
        own_value (DataSizeBytes c) b (count_list (point_names pts) ''write'')
          (ledger_of state (chain w) (Id b)) (ledger_of state y (Id b))) \<and>
      actions_cover (point_names pts) (actions_of (chain w)) (actions_of y)"
    if "calls_under stub commit nf K (chain w') y" for y
    using chain_after_others [OF ledger after that] by (simp add: chain_after_def)
  have own: "calls_under stub commit nf (insert (Id b) K) (chain w) (chain w')" using after by (simp add: chain_after_def)
  then have frame: "\<forall>k. k \<notin> insert (Id b) K \<longrightarrow> ledger_of state (chain w') k = ledger_of state (chain w) k"
    using calls_under_relied [OF ledger ok] by (simp add: relied_def)
  show ?thesis
    by (rule exI [of _ x], rule exI [of _ "operation_type x numWriters"], rule exI [of _ c], rule exI [of _ a],
        rule exI [of _ b], rule exI [of _ wk], rule exI [of _ w1], rule exI [of _ wk'], rule exI [of _ w0], rule exI [of _ s])
      (use x load a r pts b [unfolded prepared_def] own frame later in blast)
qed

text \<open>A host where another pod writes the experiment \<open>9\<close> while the worker gets its user name.\<close>

definition other_write :: "demo_chain \<Rightarrow> demo_chain" where
  "other_write w =
     (case submit RecordChaincodeActionInvocation (Err []) demo_commit (demo_stub [] [])
         (''experimentWrite'', [''9'', Itoa 5, ''zz''], 1) (fst w) (snd w) of
        Ret (r, cc, l) \<Rightarrow> (cc, l)
      | _ \<Rightarrow> w)"

definition busy_host :: "(unit, demo_chain) host" where
  "busy_host = chain_host\<lparr>New_uuid := \<lambda>w. (Some ''1b4e28ba'', other_write w)\<rparr>"

lemma other_write_call: "key_call (demo_stub [] []) demo_commit (Err []) ''9'' w (other_write w)"
  unfolding key_call_def
proof (intro exI conjI)
  show "chain_call (demo_stub [] []) demo_commit (Err []) ''invoke'' ''experimentWrite'' [''9'', Itoa 5, ''zz''] False
      w (other_write w)"
    by (auto simp: chain_call_def other_write_def intro!: exI [of _ "1 :: nat"] split: outcome.splits)
qed simp_all

lemma busy_host_rand: "rand_law busy_host"
  using chain_host_rand by (simp add: rand_law_def busy_host_def)

abbreviation busy_calls :: "demo_chain \<Rightarrow> demo_chain \<Rightarrow> bool" where
  "busy_calls \<equiv> calls_under (demo_stub [] []) demo_commit (Err []) {''9''}"

lemma busy_surroundings: "surroundings_among busy_calls (\<lambda>w. w) (surroundings_of busy_host i a)"
  using calls_under_one [OF other_write_call, of "{''9''}"]
  by (simp add: surroundings_among_def surroundings_of_def broker_among_def dial_among_def influx_among_def tracer_among_def
      runtime_among_def demo_runtime_def idle_influx_def busy_host_def)

lemma busy_host_law: "cli_law_among busy_calls busy_host (demo_stub [] []) demo_commit (Err []) (\<lambda>w. w)"
proof -
  have "one_call busy_calls stub commit nf v f args r c c'" if "one_call (=) stub commit nf v f args r c c'"
    for stub commit nf v f args r and c c' :: demo_chain
    using that unfolding one_call_def by (metis among.E_refl)
  then show ?thesis
    using chain_host_law by (fastforce simp: cli_law_def cli_law_among_def busy_host_def)
qed

lemma busy_ok: "chain_ok demo_commit fst chain_start"
  using chain_start_ok by (simp add: chain_ok_def)

theorem pod_among_others_witness:
  "\<exists>pts w' n. simi_main (surroundings_of busy_host (Itoa 0) demo_worker) 1 [] chain_start = Ret (pts, w') \<and>
    calls_under (demo_stub [] []) demo_commit (Err []) {''7'', ''9''} chain_start w' \<and>
    own_value n demo_worker (count_list (point_names pts) ''write'')
      (ledger_of fst chain_start ''7'') (ledger_of fst w' ''7'')"
proof -
  let ?S = "surroundings_of busy_host (Itoa 0) demo_worker"
  obtain pts w' where run: "simi_main ?S 1 [] chain_start = Ret (pts, w')"
    using writer_returns [of busy_host chain_start "''1b4e28ba''" "other_write chain_start" demo_worker] busy_host_rand
    by (auto simp: returns_iff busy_host_def)
  have dec: "Decode (s_decoder ?S) cfg raw = Inr (Some demo_worker)" for cfg raw
    by (simp add: surroundings_of_def demo_decoder_def)
  then have worker: "Decode (s_decoder ?S) cfg raw \<noteq> Inr None" for cfg raw by simp
  have "cli_law_among busy_calls (s_host ?S) (demo_stub [] []) demo_commit (Err []) (\<lambda>w. w)"
    using busy_host_law by (simp add: surroundings_of_def)
  from pod_among_others [OF run worker busy_surroundings this demo_laws busy_ok] obtain x t c a b where
    p: "Atoi (getenv ?S ''JOB_COMPLETION_INDEX'') = Inr x" "t = operation_type x 1" "load_simi ?S t 1 [] = Inr c"
      "OperationConfig c = CC (Some a)" "if t = ''read'' then \<exists>i. reader_id 1 (Id a) = Ret i \<and> b = a\<lparr>Id := i\<rparr> else b = a"
    and calls: "calls_under (demo_stub [] []) demo_commit (Err []) (insert (Id b) {''9''}) chain_start w'"
    and "\<forall>x. busy_calls w' x \<longrightarrow> (Id b \<notin> {''9''} \<longrightarrow> own_value (DataSizeBytes c) b (count_list (point_names pts) ''write'')
        (ledger_of fst chain_start (Id b)) (ledger_of fst x (Id b))) \<and>
        actions_cover (point_names pts) (actions_of chain_start) (actions_of x)"
    by blast
  then have own: "Id b \<notin> {''9''} \<longrightarrow> own_value (DataSizeBytes c) b (count_list (point_names pts) ''write'')
        (ledger_of fst chain_start (Id b)) (ledger_of fst w' (Id b))"
    using among.E_refl by blast
  have "getenv ?S ''JOB_COMPLETION_INDEX'' = Itoa 0" by (simp add: getenv_def surroundings_of_def)
  then have "t \<noteq> ''read''" using p(1,2) by (simp add: Atoi_Itoa operation_type_def)
  moreover obtain c0 where "loaded_from ?S t 1 c0 c" using load_simi_Inr [OF p(3)] by blast
  then have "a = demo_worker" using p(4) dec by (auto simp: loaded_from_def)
  ultimately have "b = demo_worker" using p(5) by simp
  with run calls own show ?thesis by (auto simp: demo_worker_def)
qed

end
