(* ===== verification/Consumer.thy ===== *)
theory Consumer
  imports Broker Config
begin

section \<open>The consumer (benchmark/consumer/network.go, benchmark/cmd/consumer.go)\<close>

text \<open>
  The consumer waits for the registrations of the workers and then broadcasts the start command.
  A Go channel of deliveries is the list of what arrives on it while the loop reads, and whether
  it is closed after that; a loop that is still waiting for more is \<open>None\<close>. \<open>deliveries\<close> gives
  both for the channel \<open>Consume\<close> returned.
\<close>

subsection \<open>Waiting for registrations\<close>

definition regQueueName :: string where
  "regQueueName = ''registrations''"

definition regContentType :: string where
  "regContentType = ''text/plain''"

text \<open>The loop of \<open>waitForRegistrations\<close>: how many registrations and how many of them failed.\<close>

fun wait_loop ::
  "uint32 \<Rightarrow> uint32 \<Rightarrow> uint32 \<Rightarrow> delivery list \<Rightarrow> bool \<Rightarrow> (uint32 \<times> uint32) option" where
  "wait_loop expected regCount errCount [] closed =
     (if closed then Some (regCount, errCount) else None)"
| "wait_loop expected regCount errCount (d # ds) closed =
     (if d_ContentType d \<noteq> regContentType then wait_loop expected regCount errCount ds closed
      else
        let regCount = regCount + 1;
            errCount = (if d_Body d \<noteq> [] then errCount + 1 else errCount)
        in if regCount = expected then Some (regCount, errCount)
           else wait_loop expected regCount errCount ds closed)"

definition waitForRegistrations :: "delivery list \<Rightarrow> bool \<Rightarrow> uint32 \<Rightarrow> uint32 outcome option" where
  "waitForRegistrations ds closed expected =
     (case wait_loop expected 0 0 ds closed of
        None \<Rightarrow> None
      | Some (regCount, errCount) \<Rightarrow>
          if errCount = expected then Some (Fatal (Err ''All registrations failed, exiting''))
          else Some (Ret (regCount - errCount)))"

subsection \<open>Synchronising\<close>

definition sync_on ::
  "('conn, 'ch, 'd, 't, 'w) broker \<Rightarrow> ('d \<Rightarrow> 'w \<Rightarrow> (delivery list \<times> bool) \<times> 'w) \<Rightarrow> 'ch \<Rightarrow> uint32 \<Rightarrow> 'w \<Rightarrow>
   ((uint32 \<times> goerr option) outcome \<times> 'w) option" where
  "sync_on B deliveries ch expected w =
     (case QueueDeclare B ch regQueueName False False False False w of
        (Inl err, w) \<Rightarrow> Some (Ret (0, Some err), w)
      | (Inr _, w) \<Rightarrow>
          (case Consume B ch regQueueName [] True True False False w of
             (Inl err, w) \<Rightarrow> Some (Ret (0, Some err), w)
           | (Inr regDelivery, w) \<Rightarrow>
               (case deliveries regDelivery w of
                  ((ds, closed), w) \<Rightarrow>
                    (case waitForRegistrations ds closed expected of
                       None \<Rightarrow> None
                     | Some (Fatal e) \<Rightarrow> Some (Fatal e, w)
                     | Some (Panic t) \<Rightarrow> Some (Panic t, w)
                     | Some (Ret numRegistered) \<Rightarrow>
                         (case Publish B ch ''amq.topic'' ''start'' True False
                             \<lparr>ContentType = ''text/plain'', Body = ''start'', CorrelationId = [], Timestamp = None\<rparr> w of
                            (Some err, w) \<Rightarrow>
                              Some (Ret (0, Some (Wrap ''failed to send start command to workers: '' err)), w)
                          | (None, w) \<Rightarrow> Some (Ret (numRegistered, None), w))))))"

text \<open>The channel is closed on every return; \<open>log.Fatalln\<close> ends the process without it.\<close>

definition SyncRegistrations ::
  "('conn, 'ch, 'd, 't, 'w) broker \<Rightarrow> ('d \<Rightarrow> 'w \<Rightarrow> (delivery list \<times> bool) \<times> 'w) \<Rightarrow> 'conn \<Rightarrow> uint32 \<Rightarrow> 'w \<Rightarrow>
   ((uint32 \<times> goerr option) outcome \<times> 'w) option" where
  "SyncRegistrations B deliveries conn expected w =
     (case Open_channel B conn w of
        (Inl err, w) \<Rightarrow> Some (Ret (0, Some (Wrap ''failed to create AMQP channel: '' err)), w)
      | (Inr ch, w) \<Rightarrow>
          (case sync_on B deliveries ch expected w of
             None \<Rightarrow> None
           | Some (Fatal e, w) \<Rightarrow> Some (Fatal e, w)
           | Some (res, w) \<Rightarrow> Some (res, Close_channel B ch w)))"

subsection \<open>The command\<close>

definition zero_BenchConfig :: BenchConfig where
  "zero_BenchConfig =
     \<lparr>Url = [], Bucket = [], OperationType = [], BrokerURL = [], OperationPeriod = 0,
      OperationsPerStream = 0, NumWorkers = 0\<rparr>"

definition configure ::
  "(string \<Rightarrow> string res) \<Rightarrow> (string \<Rightarrow> BenchConfig \<Rightarrow> goerr option \<times> BenchConfig) \<Rightarrow> BenchConfig res" where
  "configure read_file yaml_unmarshal =
     (case read_file ''bench-consumer.yaml'' of
        Inl err \<Rightarrow> Inl (WrapQuoted ''error reading config file '' ''bench-consumer.yaml'' '': '' err)
      | Inr yamlFile \<Rightarrow>
          (case yaml_unmarshal yamlFile zero_BenchConfig of
             (Some err, _) \<Rightarrow> Inl (Wrap ''error unmarshaling bench-consumer.yaml: '' err)
           | (None, conf) \<Rightarrow>
               if NumWorkers conf = 0 then Inl (Err ''number of workers was zero, nothing to test'')
               else if OperationsPerStream conf = 0
                 then Inl (Err ''number of operations per stream was zero, nothing to test'')
               else Inr conf))"

text \<open>
  \<open>main\<close>: \<open>Fatal\<close> is the \<open>log.Fatalln(err)\<close> of the function deferred first, which runs last. The
  function deferred after the dial assigns the result of closing the connection to \<open>err\<close>.
\<close>

definition consumer_main ::
  "('conn, 'ch, 'd, 't, 'w) broker \<Rightarrow> ('d \<Rightarrow> 'w \<Rightarrow> (delivery list \<times> bool) \<times> 'w) \<Rightarrow>
   (string \<Rightarrow> string res) \<Rightarrow> (string \<Rightarrow> BenchConfig \<Rightarrow> goerr option \<times> BenchConfig) \<Rightarrow> 'w \<Rightarrow>
   (unit outcome \<times> 'w) option" where
  "consumer_main B deliveries read_file yaml_unmarshal w =
     (let finish = (\<lambda>err. case err of None \<Rightarrow> Ret () | Some e \<Rightarrow> Fatal e) in
      case configure read_file yaml_unmarshal of
        Inl err \<Rightarrow> Some (finish (Some (Wrap ''failed to load consumer config: '' err)), w)
      | Inr conf \<Rightarrow>
          (case Dial B (BrokerURL conf) w of
             (Inl err, w) \<Rightarrow>
               Some (finish (Some (WrapQuoted ''failed to dial AMQP broker at '' (BrokerURL conf) '': '' err)), w)
           | (Inr conn, w) \<Rightarrow>
               (case SyncRegistrations B deliveries conn (NumWorkers conf) w of
                  None \<Rightarrow> None
                | Some (Fatal e, w) \<Rightarrow> Some (Fatal e, w)
                | Some (Panic t, w) \<Rightarrow> Some (Panic t, snd (Close_connection B conn w))
                | Some (Ret (numRegistered, err), w) \<Rightarrow>
                    (let err = map_option (Wrap ''failed while starting workers: '') err;
                         (err, w) = Close_connection B conn w
                     in Some (finish err, w)))))"

subsection \<open>What the wait computes\<close>

definition registrations :: "delivery list \<Rightarrow> delivery list" where
  "registrations ds = filter (\<lambda>d. d_ContentType d = regContentType) ds"

definition failures :: "delivery list \<Rightarrow> nat" where
  "failures ds = length (filter (\<lambda>d. d_Body d \<noteq> []) ds)"

lemma failures_le: "failures ds \<le> length ds"
  by (simp add: failures_def)

lemma registrations_Cons:
  "registrations (d # ds) = (if d_ContentType d = regContentType then d # registrations ds else registrations ds)"
  by (simp add: registrations_def)

lemma failures_Cons: "failures (d # ds) = (if d_Body d \<noteq> [] then Suc (failures ds) else failures ds)"
  by (simp add: failures_def)

lemma of_nat_Suc_eq_iff: "r < unat e \<Longrightarrow> (of_nat r :: uint32) + 1 = e \<longleftrightarrow> Suc r = unat e"
proof -
  assume r: "r < unat e"
  then have "unat (of_nat (Suc r) :: uint32) = Suc r"
    using unat_uint32_less [of e] by (intro unat_of_nat_uint32) simp
  moreover have "(of_nat r :: uint32) + 1 = of_nat (Suc r)" by simp
  ultimately show ?thesis by (metis unsigned_word_eqI)
qed

lemma wait_loop_spec:
  "r < unat e \<Longrightarrow>
    wait_loop e (of_nat r) (of_nat f) ds closed =
      (let regs = take (unat e - r) (registrations ds) in
       if length regs = unat e - r then Some (e, of_nat (f + failures regs))
       else if closed then Some (of_nat (r + length regs), of_nat (f + failures regs))
       else None)"
proof (induction ds arbitrary: r f)
  case Nil
  then show ?case by (simp add: registrations_def failures_def)
next
  case (Cons d ds)
  show ?case
  proof (cases "d_ContentType d = regContentType")
    case False
    then show ?thesis using Cons.IH [OF Cons.prems] by (simp add: registrations_Cons)
  next
    case True
    define f' where "f' = (if d_Body d \<noteq> [] then Suc f else f)"
    have f': "(if d_Body d \<noteq> [] then of_nat f + 1 else of_nat f) = (of_nat f' :: uint32)"
      by (simp add: f'_def)
    have k: "unat e - r = Suc (unat e - Suc r)" using Cons.prems by simp
    have fail: "f + failures (d # xs) = f' + failures xs" for xs by (simp add: failures_Cons f'_def)
    have step: "wait_loop e (of_nat r) (of_nat f) (d # ds) closed =
      (if Suc r = unat e then Some (e, of_nat f') else wait_loop e (of_nat (Suc r)) (of_nat f') ds closed)"
      using True of_nat_Suc_eq_iff [OF Cons.prems] f' by (simp add: Let_def add.commute)
    show ?thesis
    proof (cases "Suc r = unat e")
      case True
      with \<open>d_ContentType d = _\<close> step k fail [of "[]"] show ?thesis
        by (simp add: registrations_Cons failures_def)
    next
      case False
      with Cons.prems have "Suc r < unat e" by simp
      from Cons.IH [OF this, of f'] step False \<open>d_ContentType d = _\<close> show ?thesis
        by (simp add: registrations_Cons k fail Let_def)
    qed
  qed
qed

text \<open>The registrations the wait looks at, and what it makes of them.\<close>

definition counted :: "uint32 \<Rightarrow> delivery list \<Rightarrow> delivery list" where
  "counted expected ds = take (unat expected) (registrations ds)"

lemma counted_length: "length (counted expected ds) \<le> unat expected"
  by (simp add: counted_def)

lemma of_nat_eq_uint32_iff: "n \<le> unat e \<Longrightarrow> (of_nat n :: uint32) = e \<longleftrightarrow> n = unat e"
  using unat_uint32_less [of e] by (metis le_less_trans unat_of_nat_uint32 unsigned_word_eqI)

lemma waitForRegistrations_eq:
  assumes "0 < expected"
  shows "waitForRegistrations ds closed expected =
    (let regs = counted expected ds in
     if length regs < unat expected \<and> \<not> closed then None
     else if failures regs = unat expected then Some (Fatal (Err ''All registrations failed, exiting''))
     else Some (Ret (of_nat (length regs - failures regs))))"
proof -
  have e: "0 < unat expected" using assms by (simp add: word_less_nat_alt)
  define regs where "regs = counted expected ds"
  have f: "failures regs \<le> unat expected"
    using failures_le [of regs] counted_length [of expected ds] by (simp add: regs_def)
  have loop: "wait_loop expected 0 0 ds closed =
      (if length regs = unat expected then Some (expected, of_nat (failures regs))
       else if closed then Some (of_nat (length regs), of_nat (failures regs)) else None)"
    using wait_loop_spec [OF e, of 0 ds closed] by (simp add: regs_def counted_def Let_def)
  have full: "expected = of_nat (unat expected)" by simp
  have "length regs \<le> unat expected" by (simp add: regs_def counted_length)
  then show ?thesis
    using loop f of_nat_eq_uint32_iff [OF f] failures_le [of regs]
    by (auto simp: waitForRegistrations_def Let_def of_nat_diff simp flip: regs_def)
qed

text \<open>
  C20: with at least one registration expected, the wait goes on exactly while fewer than that
  many text registrations have arrived and the deliveries are not closed. It then ends the
  process if all the expected registrations failed, and otherwise gives the number of those that
  succeeded among the first \<open>expected\<close> ones; messages of another content type count for nothing.
\<close>

theorem wait_result:
  assumes "0 < expected"
  shows "waitForRegistrations ds closed expected =
    (let regs = take (unat expected) (filter (\<lambda>d. d_ContentType d = ''text/plain'') ds);
         ok = filter (\<lambda>d. d_Body d = []) regs
     in if length regs < unat expected \<and> \<not> closed then None
        else if length regs = unat expected \<and> ok = [] then Some (Fatal (Err ''All registrations failed, exiting''))
        else Some (Ret (of_nat (length ok))))"
proof -
  define regs where "regs = counted expected ds"
  have split: "length (filter (\<lambda>d. d_Body d = []) regs) = length regs - failures regs"
    using sum_length_filter_compl [of "\<lambda>d. d_Body d = []" regs] by (simp add: failures_def)
  have "length regs \<le> unat expected" "failures regs \<le> length regs"
    by (simp_all add: regs_def counted_length failures_le)
  then have "failures regs = unat expected \<longleftrightarrow>
      length regs = unat expected \<and> length (filter (\<lambda>d. d_Body d = []) regs) = 0"
    unfolding split by linarith
  then have iff: "failures regs = unat expected \<longleftrightarrow>
      length regs = unat expected \<and> filter (\<lambda>d. d_Body d = []) regs = []"
    by (simp only: length_0_conv)
  have r: "take (unat expected) (filter (\<lambda>d. d_ContentType d = ''text/plain'') ds) = regs"
    by (simp add: regs_def counted_def registrations_def regContentType_def)
  have w: "waitForRegistrations ds closed expected =
      (if length regs < unat expected \<and> \<not> closed then None
       else if failures regs = unat expected then Some (Fatal (Err ''All registrations failed, exiting''))
       else Some (Ret (of_nat (length regs - failures regs))))"
    by (simp only: waitForRegistrations_eq [OF assms] Let_def regs_def)
  show ?thesis unfolding r Let_def by (simp only: w iff split)
qed

definition demo_delivery :: "string \<Rightarrow> string \<Rightarrow> delivery" where
  "demo_delivery ct b = \<lparr>d_ContentType = ct, d_Body = b, d_CorrelationId = []\<rparr>"

theorem wait_result_witness:
  "waitForRegistrations
     [demo_delivery ''text/plain'' [], demo_delivery ''application/json'' [],
      demo_delivery ''text/plain'' ''failed'', demo_delivery ''text/plain'' []] False 2 = Some (Ret 1)"
  using wait_result [of 2 "[demo_delivery ''text/plain'' [], demo_delivery ''application/json'' [],
      demo_delivery ''text/plain'' ''failed'', demo_delivery ''text/plain'' []]" False]
  by (simp add: demo_delivery_def)

subsection \<open>When the start command is sent\<close>

text \<open>
  Reading the deliveries is noted, with what has arrived and whether they end, and is the only
  way to learn of a registration.
\<close>

definition reading_laws ::
  "('d \<Rightarrow> 'w \<Rightarrow> (delivery list \<times> bool) \<times> 'w) \<Rightarrow> ('w \<Rightarrow> event list) \<Rightarrow> bool" where
  "reading_laws deliveries hist \<longleftrightarrow>
     (\<forall>d w. hist (snd (deliveries d w)) = hist w @ [Received (fst (fst (deliveries d w))) (snd (fst (deliveries d w)))])"

lemma reading_noted:
  "reading_laws deliveries hist \<Longrightarrow> deliveries d w = ((ds, closed), w') \<Longrightarrow> hist w' = hist w @ [Received ds closed]"
  unfolding reading_laws_def by (metis fst_conv snd_conv)

text \<open>What is noted by the end of the function, before the channel is closed.\<close>

definition synced_as :: "uint32 \<Rightarrow> event list \<Rightarrow> (uint32 \<times> goerr option) outcome \<Rightarrow> bool" where
  "synced_as expected evs r \<longleftrightarrow>
     (\<exists>q ds closed. let calls = [Declared q, Consuming ''registrations'', Received ds closed] in
        case r of
          Ret (n, None) \<Rightarrow> evs = calls @ [Published ''amq.topic'' ''start'' ''start''] \<and>
            waitForRegistrations ds closed expected = Some (Ret n)
        | Ret (n, Some err) \<Rightarrow> n = 0 \<and> (\<exists>k. evs = take k calls)
        | Fatal e \<Rightarrow> evs = calls \<and> waitForRegistrations ds closed expected = Some (Fatal e)
        | Panic t \<Rightarrow> False)"

lemma synced_asI:
  "n = 0 \<Longrightarrow> evs = take k [Declared q, Consuming ''registrations'', Received ds closed] \<Longrightarrow>
    synced_as expected evs (Ret (n, Some err))"
  by (auto simp: synced_as_def Let_def)

lemma waitForRegistrations_no_panic: "waitForRegistrations ds closed expected \<noteq> Some (Panic t)"
  by (simp add: waitForRegistrations_def split: option.splits)

lemma sync_on_calls:
  assumes laws: "history_laws B hist" and reading: "reading_laws deliveries hist"
    and p: "sync_on B deliveries ch expected w = Some (r, w')"
  shows "\<exists>evs. hist w' = hist w @ evs \<and> synced_as expected evs r"
proof -
  obtain r1 w1 where 1: "QueueDeclare B ch regQueueName False False False False w = (r1, w1)" by fastforce
  note h1 = history_declare [OF laws 1]
  show ?thesis
  proof (cases r1)
    case (Inl x)
    then show ?thesis
      using p 1 h1 by (intro exI [of _ "[]"]) (auto simp: sync_on_def intro: synced_asI [of _ _ 0])
  next
    case q: (Inr q)
    obtain r2 w2 where 2: "Consume B ch regQueueName [] True True False False w1 = (r2, w2)" by fastforce
    note h2 = history_consume [OF laws 2]
    show ?thesis
    proof (cases r2)
      case (Inl x)
      then show ?thesis
        using p 1 2 q h1 h2
        by (intro exI [of _ "[Declared q]"]) (auto simp: sync_on_def intro: synced_asI [of _ _ 1 q])
    next
      case d: (Inr d)
      obtain ds closed w3 where 3: "deliveries d w2 = ((ds, closed), w3)" by (metis surj_pair)
      note h3 = reading_noted [OF reading 3]
      let ?calls = "[Declared q, Consuming ''registrations'', Received ds closed]"
      have h: "hist w3 = hist w @ ?calls" using h1 h2 h3 q d by (simp add: regQueueName_def)
      obtain o1 where o1: "waitForRegistrations ds closed expected = Some o1"
        using p 1 2 3 q d by (auto simp: sync_on_def split: option.splits)
      obtain r4 w4 where 4: "Publish B ch ''amq.topic'' ''start'' True False
          \<lparr>ContentType = ''text/plain'', Body = ''start'', CorrelationId = [], Timestamp = None\<rparr> w3 = (r4, w4)"
        by fastforce
      note h4 = history_publish [OF laws 4]
      show ?thesis
      proof (cases o1)
        case (Ret n)
        then show ?thesis
          using p 1 2 3 4 q d o1 h h4
          by (cases r4)
            (auto simp: sync_on_def synced_as_def Let_def
              intro!: exI [of _ q] exI [of _ ds] exI [of _ closed] exI [of _ "3 :: nat"])
      next
        case (Fatal e)
        then show ?thesis
          using p 1 2 3 q d o1 h
          by (intro exI [of _ ?calls]) (auto simp: sync_on_def synced_as_def Let_def)
      qed (use o1 waitForRegistrations_no_panic in blast)
    qed
  qed
qed

text \<open>
  C21: a \<open>SyncRegistrations\<close> that succeeds has declared and consumed the queue of registrations,
  has read it until the wait ended, has then broadcast the start command, once, and has then
  closed the channel; it gives the number the wait found in what was read. One that gives an
  error has sent no start command, and the calls it made are the first of the same list, before
  the channel was closed (if there was one). The process ends only if the wait over what was
  read ends it, before any start command.
\<close>

theorem sync_starts_once:
  assumes laws: "history_laws B hist" and reading: "reading_laws deliveries hist"
    and p: "SyncRegistrations B deliveries conn expected w = Some (r, w')"
  shows "case r of
      Ret (n, None) \<Rightarrow> \<exists>q ds closed.
        hist w' = hist w @ [Declared q, Consuming ''registrations'', Received ds closed,
          Published ''amq.topic'' ''start'' ''start'', ChannelClosed] \<and>
        waitForRegistrations ds closed expected = Some (Ret n)
    | Ret (n, Some err) \<Rightarrow> n = 0 \<and> (hist w' = hist w \<or> (\<exists>q ds closed k.
        hist w' = hist w @ take k [Declared q, Consuming ''registrations'', Received ds closed] @ [ChannelClosed]))
    | Fatal e \<Rightarrow> \<exists>q ds closed.
        hist w' = hist w @ [Declared q, Consuming ''registrations'', Received ds closed] \<and>
        waitForRegistrations ds closed expected = Some (Fatal e)
    | Panic t \<Rightarrow> False"
proof -
  obtain rc w1 where 1: "Open_channel B conn w = (rc, w1)" by fastforce
  note h1 = history_open [OF laws 1]
  show ?thesis
  proof (cases rc)
    case (Inl x)
    then show ?thesis using p 1 h1 by (auto simp: SyncRegistrations_def)
  next
    case (Inr ch)
    obtain w2 where 2: "sync_on B deliveries ch expected w1 = Some (r, w2)"
      "w' = (case r of Fatal e \<Rightarrow> w2 | _ \<Rightarrow> Close_channel B ch w2)"
      using p 1 Inr by (auto simp: SyncRegistrations_def split: option.splits prod.splits outcome.splits)
    obtain evs where evs: "hist w2 = hist w1 @ evs" "synced_as expected evs r"
      using sync_on_calls [OF laws reading 2(1)] by blast
    note facts = this h1 2(2) history_close [OF laws, of ch w2]
    show ?thesis
    proof (cases r)
      case (Ret x)
      obtain n err where "x = (n, err)" by fastforce
      with Ret facts show ?thesis by (cases err) (auto simp: synced_as_def Let_def)
    qed (use facts in \<open>auto simp: synced_as_def Let_def\<close>)
  qed
qed

definition demo_deliveries :: "unit \<Rightarrow> event list \<Rightarrow> (delivery list \<times> bool) \<times> event list" where
  "demo_deliveries d w =
     (let ds = [demo_delivery ''text/plain'' [], demo_delivery ''text/plain'' []]
      in ((ds, False), w @ [Received ds False]))"

theorem sync_starts_once_witness:
  "\<exists>w' q ds closed. SyncRegistrations (noting_broker :: (_, _, _, unit, _) broker) demo_deliveries () 2 [] =
      Some (Ret (2, None), w') \<and>
    w' = [Declared q, Consuming ''registrations'', Received ds closed,
      Published ''amq.topic'' ''start'' ''start'', ChannelClosed] \<and>
    waitForRegistrations ds closed 2 = Some (Ret 2)"
proof -
  have wait: "waitForRegistrations (fst (fst (demo_deliveries () w))) False 2 = Some (Ret 2)" for w
    by (simp add: waitForRegistrations_def demo_deliveries_def demo_delivery_def regContentType_def Let_def)
  then obtain w' where p: "SyncRegistrations (noting_broker :: (_, _, _, unit, _) broker) demo_deliveries () 2 [] =
      Some (Ret (2, None), w')"
    by (simp add: SyncRegistrations_def sync_on_def noting_broker_def demo_deliveries_def Let_def)
  have "reading_laws demo_deliveries (\<lambda>w. w)" by (simp add: reading_laws_def demo_deliveries_def Let_def)
  from sync_starts_once [OF noting_broker_laws this p] p show ?thesis by auto
qed

subsection \<open>The command\<close>

lemma configure_Inr:
  "configure read_file yaml_unmarshal = Inr conf \<Longrightarrow> 0 < NumWorkers conf \<and> 0 < OperationsPerStream conf"
  by (auto simp: configure_def word_gt_0 split: sum.splits prod.splits option.splits if_splits)

text \<open>
  C38: an error of \<open>SyncRegistrations\<close> is lost in the command: when closing the connection
  succeeds, the process ends normally, whatever the error was (a function deferred before the
  end assigns the result of the close to \<open>err\<close>).
\<close>

theorem consumer_main_loses_error:
  assumes "configure read_file yaml_unmarshal = Inr conf" and "Dial B (BrokerURL conf) w = (Inr conn, w1)"
    and "SyncRegistrations B deliveries conn (NumWorkers conf) w1 = Some (Ret (n, Some e), w2)"
    and "Close_connection B conn w2 = (None, w3)"
  shows "consumer_main B deliveries read_file yaml_unmarshal w = Some (Ret (), w3)"
  using assms by (simp add: consumer_main_def Let_def)

definition refusing_broker :: "(unit, unit, unit, unit, event list) broker" where
  "refusing_broker = noting_broker\<lparr>Open_channel := \<lambda>_ w. (Inl (Err ''channel error''), w)\<rparr>"

theorem consumer_main_loses_error_witness:
  "consumer_main refusing_broker demo_deliveries (\<lambda>_. Inr [])
     (\<lambda>_ c. (None, c\<lparr>NumWorkers := 2, OperationsPerStream := 1\<rparr>)) [] = Some (Ret (), [])"
  by (rule consumer_main_loses_error)
    (simp_all add: configure_def zero_BenchConfig_def refusing_broker_def noting_broker_def
      SyncRegistrations_def)

end
