(* ===== verification/SyncProtocol.thy ===== *)
theory SyncProtocol
  imports Worker Consumer
begin

section \<open>Workers and consumer together: the start barrier\<close>

text \<open>
  The interleaving of \<open>Register\<close> in \<open>unat N\<close> workers with \<open>SyncRegistrations\<close> for \<open>N\<close>
  registrations in the consumer, over the broker, with their failures. A worker's steps are the
  calls of \<open>registration_calls\<close>: \<open>subscribe\<close> is binding its own queue to the start command,
  \<open>register\<close> publishing the outcome of its init function; then it waits for a start command, the
  timer, or the end of its deliveries. With \<open>die\<close> it ends before it has published anything: a
  broker call failed, or its init function ended the process. The consumer receives
  registrations while \<open>waitForRegistrations\<close> asks for more, and then broadcasts or ends; with
  \<open>close\<close> the broker ends its deliveries early, and with \<open>lose\<close> one of its own calls fails. As
  RabbitMQ documents, a queue keeps its messages in order and a topic exchange copies a message
  to every queue bound at that time.
\<close>

subsection \<open>States and steps\<close>

datatype wphase = Idle | Subscribed | Dead | Waiting | RegFailed | Started | TimedOut | Detached

text \<open>The phases in the order in which a worker can go through them.\<close>

fun wphase_rank :: "wphase \<Rightarrow> nat" where
  "wphase_rank Idle = 0"
| "wphase_rank Subscribed = 1"
| "wphase_rank Dead = 2"
| "wphase_rank Waiting = 3"
| "wphase_rank RegFailed = 4"
| "wphase_rank Started = 5"
| "wphase_rank TimedOut = 6"
| "wphase_rank Detached = 7"

lemma wphase_rank_inj: "wphase_rank p = wphase_rank q \<Longrightarrow> p = q"
  by (cases p; cases q) simp_all

instantiation wphase :: linorder
begin

definition less_eq_wphase :: "wphase \<Rightarrow> wphase \<Rightarrow> bool" where
  "less_eq_wphase p q \<longleftrightarrow> wphase_rank p \<le> wphase_rank q"

definition less_wphase :: "wphase \<Rightarrow> wphase \<Rightarrow> bool" where
  "less_wphase p q \<longleftrightarrow> wphase_rank p < wphase_rank q"

instance
  by standard (auto simp: less_eq_wphase_def less_wphase_def intro: wphase_rank_inj)

end

text \<open>\<open>Aborted\<close> is \<open>log.Fatalln\<close> after the wait, \<open>Failed\<close> a return with an error.\<close>

datatype cphase = Collecting | Broadcast uint32 | Aborted | Failed

record sync_state =
  phase :: "nat \<Rightarrow> wphase"
  bound :: "nat set"
  inbox :: "nat \<Rightarrow> nat"
  regqueue :: "delivery list"
  received :: "delivery list"
  closed :: bool
  consumer :: cphase

definition registration :: "(goerr \<Rightarrow> string) \<Rightarrow> string \<Rightarrow> goerr option \<Rightarrow> delivery" where
  "registration et corr e =
     \<lparr>d_ContentType = ''text/plain'', d_Body = errorText et e, d_CorrelationId = corr\<rparr>"

definition sync_initial :: sync_state where
  "sync_initial =
     \<lparr>phase = \<lambda>_. Idle, bound = {}, inbox = \<lambda>_. 0, regqueue = [], received = [], closed = False,
      consumer = Collecting\<rparr>"

text \<open>What the wait makes of a state, and the states the steps lead to.\<close>

definition wait_of :: "uint32 \<Rightarrow> sync_state \<Rightarrow> uint32 outcome option" where
  "wait_of N s = waitForRegistrations (received s) (closed s) N"

definition set_phase :: "nat \<Rightarrow> wphase \<Rightarrow> sync_state \<Rightarrow> sync_state" where
  "set_phase i p s = s\<lparr>phase := (phase s)(i := p)\<rparr>"

definition subscribed :: "nat \<Rightarrow> sync_state \<Rightarrow> sync_state" where
  "subscribed i s = (set_phase i Subscribed s)\<lparr>bound := insert i (bound s)\<rparr>"

definition published :: "nat \<Rightarrow> (goerr \<Rightarrow> string) \<Rightarrow> string \<Rightarrow> goerr option \<Rightarrow> sync_state \<Rightarrow> sync_state" where
  "published i et corr e s =
     (set_phase i (if e = None then Waiting else RegFailed) s)\<lparr>regqueue := regqueue s @ [registration et corr e]\<rparr>"

definition started :: "nat \<Rightarrow> sync_state \<Rightarrow> sync_state" where
  "started i s = (set_phase i Started s)\<lparr>inbox := (inbox s)(i := inbox s i - 1)\<rparr>"

definition broadcasted :: "uint32 \<Rightarrow> sync_state \<Rightarrow> sync_state" where
  "broadcasted n s =
     s\<lparr>consumer := Broadcast n, inbox := \<lambda>i. if i \<in> bound s then Suc (inbox s i) else inbox s i\<rparr>"

inductive sync_step :: "uint32 \<Rightarrow> (goerr \<Rightarrow> string) \<Rightarrow> sync_state \<Rightarrow> sync_state \<Rightarrow> bool"
  for N :: uint32 and et :: "goerr \<Rightarrow> string" where
  subscribe: "i < unat N \<Longrightarrow> phase s i = Idle \<Longrightarrow> sync_step N et s (subscribed i s)"
| register: "i < unat N \<Longrightarrow> phase s i = Subscribed \<Longrightarrow> sync_step N et s (published i et corr e s)"
| die: "i < unat N \<Longrightarrow> phase s i \<in> {Idle, Subscribed} \<Longrightarrow> sync_step N et s (set_phase i Dead s)"
| receive:
    "consumer s = Collecting \<Longrightarrow> \<not> closed s \<Longrightarrow> wait_of N s = None \<Longrightarrow> regqueue s = d # ds \<Longrightarrow>
      sync_step N et s (s\<lparr>regqueue := ds, received := received s @ [d]\<rparr>)"
| close:
    "consumer s = Collecting \<Longrightarrow> \<not> closed s \<Longrightarrow> wait_of N s = None \<Longrightarrow>
      sync_step N et s (s\<lparr>closed := True\<rparr>)"
| broadcast:
    "consumer s = Collecting \<Longrightarrow> wait_of N s = Some (Ret n) \<Longrightarrow> sync_step N et s (broadcasted n s)"
| abort:
    "consumer s = Collecting \<Longrightarrow> wait_of N s = Some (Fatal e) \<Longrightarrow> sync_step N et s (s\<lparr>consumer := Aborted\<rparr>)"
| lose:
    "consumer s = Collecting \<Longrightarrow> received s = [] \<or> wait_of N s = Some (Ret n) \<Longrightarrow>
      sync_step N et s (s\<lparr>consumer := Failed\<rparr>)"
| start:
    "i < unat N \<Longrightarrow> phase s i = Waiting \<Longrightarrow> 0 < inbox s i \<Longrightarrow> sync_step N et s (started i s)"
| detach: "i < unat N \<Longrightarrow> phase s i = Waiting \<Longrightarrow> sync_step N et s (set_phase i Detached s)"
| timeout: "i < unat N \<Longrightarrow> phase s i = Waiting \<Longrightarrow> sync_step N et s (set_phase i TimedOut s)"

inductive_cases sync_stepE: "sync_step N et s s'"

abbreviation sync_reaches :: "uint32 \<Rightarrow> (goerr \<Rightarrow> string) \<Rightarrow> sync_state \<Rightarrow> sync_state \<Rightarrow> bool" where
  "sync_reaches N et \<equiv> (sync_step N et)\<^sup>*\<^sup>*"

lemma set_phase_sel [simp]:
  "phase (set_phase i p s) = (phase s)(i := p)" "bound (set_phase i p s) = bound s"
  "inbox (set_phase i p s) = inbox s" "regqueue (set_phase i p s) = regqueue s"
  "received (set_phase i p s) = received s" "closed (set_phase i p s) = closed s"
  "consumer (set_phase i p s) = consumer s"
  by (simp_all add: set_phase_def)

lemmas step_states = subscribed_def published_def started_def broadcasted_def

subsection \<open>The invariant\<close>

definition has_registered :: "wphase \<Rightarrow> bool" where
  "has_registered p \<longleftrightarrow> Waiting \<le> p"

definition registered :: "uint32 \<Rightarrow> sync_state \<Rightarrow> nat set" where
  "registered N s = {i. i < unat N \<and> has_registered (phase s i)}"

lemma registered_finite [simp]: "finite (registered N s)"
  by (simp add: registered_def)

lemma has_registered_simps [simp]:
  "has_registered Waiting" "has_registered RegFailed" "has_registered Started" "has_registered TimedOut"
  "has_registered Detached" "\<not> has_registered Idle" "\<not> has_registered Subscribed" "\<not> has_registered Dead"
  by (simp_all add: has_registered_def less_eq_wphase_def)

lemma has_registered_iff: "has_registered p \<longleftrightarrow> p \<notin> {Idle, Subscribed, Dead}"
  by (cases p) simp_all

text \<open>
  Every message is a registration of another worker. Before the broadcast no start command is
  about; after it, unless the deliveries were closed early, every worker has registered, and one
  that waits has the command in its queue.
\<close>

definition sync_inv :: "uint32 \<Rightarrow> sync_state \<Rightarrow> bool" where
  "sync_inv N s \<longleftrightarrow>
     (\<forall>i. phase s i \<notin> {Idle, Dead} \<longrightarrow> i \<in> bound s) \<and>
     length (received s @ regqueue s) = card (registered N s) \<and>
     (\<forall>d \<in> set (received s @ regqueue s). d_ContentType d = regContentType) \<and>
     (case consumer s of
        Broadcast n \<Rightarrow>
          \<not> closed s \<longrightarrow> (\<forall>i < unat N. has_registered (phase s i) \<and> (phase s i = Waiting \<longrightarrow> inbox s i = 1))
      | _ \<Rightarrow> (\<forall>i. inbox s i = 0 \<and> phase s i \<noteq> Started))"

lemma registrations_plain:
  "\<forall>d \<in> set ds. d_ContentType d = regContentType \<Longrightarrow> registrations ds = ds"
  by (simp add: registrations_def)

lemma wait_decided:
  assumes "0 < N" and "\<forall>d \<in> set (received s). d_ContentType d = regContentType"
    and "wait_of N s \<noteq> None" and "\<not> closed s"
  shows "unat N \<le> length (received s)"
  using assms(3,4) waitForRegistrations_eq [OF assms(1), of "received s" False] registrations_plain [OF assms(2)]
  by (auto simp: counted_def wait_of_def Let_def split: if_splits)

lemma inv_plain: "sync_inv N s \<Longrightarrow> \<forall>d \<in> set (received s). d_ContentType d = regContentType"
  by (simp add: sync_inv_def)

lemma all_registered:
  assumes "sync_inv N s" and "unat N \<le> length (received s)"
  shows "\<forall>i < unat N. has_registered (phase s i)"
proof -
  have "unat N \<le> card (registered N s)" using assms by (simp add: sync_inv_def)
  moreover have "registered N s \<subseteq> {..< unat N}" by (auto simp: registered_def)
  ultimately have "registered N s = {..< unat N}"
    by (intro card_seteq) simp_all
  then show ?thesis by (auto simp: registered_def)
qed

lemma registered_same:
  "has_registered (phase s i) = has_registered p \<Longrightarrow> registered N (set_phase i p s) = registered N s"
  by (auto simp: registered_def split: if_splits)

lemma registered_new:
  "i < unat N \<Longrightarrow> \<not> has_registered (phase s i) \<Longrightarrow> has_registered p \<Longrightarrow>
    registered N (set_phase i p s) = insert i (registered N s) \<and> i \<notin> registered N s"
  by (auto simp: registered_def split: if_splits)

lemma registered_cong: "phase s' = phase s \<Longrightarrow> registered N s' = registered N s"
  by (simp add: registered_def)

text \<open>A worker that has not registered is one the broadcast has not waited for.\<close>

lemma inv_unregistered:
  "sync_inv N s \<Longrightarrow> i < unat N \<Longrightarrow> \<not> has_registered (phase s i) \<Longrightarrow> consumer s = Broadcast n \<Longrightarrow> closed s"
  by (auto simp: sync_inv_def)

lemma inv_subscribe:
  assumes "sync_inv N s" and "i < unat N" and "phase s i = Idle"
  shows "sync_inv N (subscribed i s)"
proof -
  have "registered N (subscribed i s) = registered N s"
    using registered_same [of s i Subscribed N] assms(3) registered_cong [of "subscribed i s" "set_phase i Subscribed s"]
    by (simp add: subscribed_def)
  then show ?thesis
    using assms inv_unregistered [OF assms(1,2)]
    by (cases "consumer s") (auto simp: sync_inv_def subscribed_def)
qed

lemma inv_register:
  assumes "sync_inv N s" and "i < unat N" and "phase s i = Subscribed"
  shows "sync_inv N (published i et corr e s)"
proof -
  let ?p = "if e = None then Waiting else RegFailed"
  have "registered N (published i et corr e s) = insert i (registered N s)" "i \<notin> registered N s"
    using registered_new [of i N s ?p] assms(2,3) registered_cong [of "published i et corr e s" "set_phase i ?p s"]
    by (simp_all add: published_def)
  moreover have "i \<in> bound s" using assms by (simp add: sync_inv_def)
  ultimately show ?thesis
    using assms inv_unregistered [OF assms(1,2)]
    by (cases "consumer s") (auto simp: sync_inv_def registration_def regContentType_def published_def)
qed

lemma inv_die:
  assumes "sync_inv N s" and "i < unat N" and "phase s i \<in> {Idle, Subscribed}"
  shows "sync_inv N (set_phase i Dead s)"
proof -
  have nr: "\<not> has_registered (phase s i)" using assms(3) by auto
  then have "registered N (set_phase i Dead s) = registered N s" using registered_same [of s i Dead N] by simp
  then show ?thesis
    using assms inv_unregistered [OF assms(1,2) nr]
    by (cases "consumer s") (auto simp: sync_inv_def)
qed

lemma inv_receive:
  assumes "sync_inv N s" and "consumer s = Collecting" and "regqueue s = d # ds"
  shows "sync_inv N (s\<lparr>regqueue := ds, received := received s @ [d]\<rparr>)"
proof -
  have "registered N (s\<lparr>regqueue := ds, received := received s @ [d]\<rparr>) = registered N s"
    by (rule registered_cong) simp
  with assms show ?thesis by (auto simp: sync_inv_def)
qed

lemma inv_broadcast:
  assumes "0 < N" and inv: "sync_inv N s" and c: "consumer s = Collecting"
    and w: "wait_of N s = Some (Ret n)"
  shows "sync_inv N (broadcasted n s)"
proof -
  have "\<forall>i < unat N. has_registered (phase s i)" if "\<not> closed s"
    using all_registered [OF inv] wait_decided [OF assms(1) inv_plain [OF inv] _ that] w by simp
  moreover have "registered N (broadcasted n s) = registered N s"
    by (rule registered_cong) (simp add: broadcasted_def)
  ultimately show ?thesis
    using inv c by (auto simp: sync_inv_def broadcasted_def)
qed

lemma inv_consumer:
  assumes "sync_inv N s" and "consumer s = Collecting"
  shows "sync_inv N (s\<lparr>closed := True\<rparr>)" "sync_inv N (s\<lparr>consumer := Aborted\<rparr>)" "sync_inv N (s\<lparr>consumer := Failed\<rparr>)"
proof -
  have "registered N (s\<lparr>closed := True\<rparr>) = registered N s" "registered N (s\<lparr>consumer := Aborted\<rparr>) = registered N s"
    "registered N (s\<lparr>consumer := Failed\<rparr>) = registered N s"
    by (simp_all add: registered_def)
  with assms show "sync_inv N (s\<lparr>closed := True\<rparr>)" "sync_inv N (s\<lparr>consumer := Aborted\<rparr>)"
    "sync_inv N (s\<lparr>consumer := Failed\<rparr>)"
    by (simp_all add: sync_inv_def)
qed

lemma inv_leave:
  assumes "sync_inv N s" and "i < unat N" and "phase s i = Waiting"
    and "p \<in> {TimedOut, Detached} \<or> (p = Started \<and> 0 < inbox s i)" and "p \<noteq> Started \<Longrightarrow> k = inbox s i"
  shows "sync_inv N ((set_phase i p s)\<lparr>inbox := (inbox s)(i := k)\<rparr>)"
proof -
  let ?s = "(set_phase i p s)\<lparr>inbox := (inbox s)(i := k)\<rparr>"
  have "registered N ?s = registered N s"
    using registered_same [of s i p N] assms(3,4) registered_cong [of ?s "set_phase i p s"]
    by auto
  moreover have "i \<in> bound s" using assms by (simp add: sync_inv_def)
  ultimately show ?thesis
    using assms by (cases "consumer s") (auto simp: sync_inv_def)
qed

lemma set_phase_inbox: "(set_phase i p s)\<lparr>inbox := inbox s\<rparr> = set_phase i p s"
  by (simp add: set_phase_def)

lemma sync_inv_step:
  assumes "0 < N"
  shows "sync_step N et s s' \<Longrightarrow> sync_inv N s \<Longrightarrow> sync_inv N s'"
proof (induction rule: sync_step.induct)
  case (timeout i s)
  then show ?case using inv_leave [of N s i TimedOut "inbox s i"] by (simp add: set_phase_inbox)
next
  case (detach i s)
  then show ?case using inv_leave [of N s i Detached "inbox s i"] by (simp add: set_phase_inbox)
next
  case (start i s)
  then show ?case unfolding started_def by (intro inv_leave) simp_all
qed (simp_all add: inv_subscribe inv_register inv_die inv_receive inv_broadcast [OF assms] inv_consumer)

lemma sync_inv_initial: "sync_inv N sync_initial"
  by (simp add: sync_inv_def sync_initial_def registered_def)

lemma sync_inv_reaches:
  assumes "0 < N"
  shows "sync_reaches N et s s' \<Longrightarrow> sync_inv N s \<Longrightarrow> sync_inv N s'"
  by (induction rule: rtranclp_induct) (auto intro: sync_inv_step [OF assms])

subsection \<open>Every run ends\<close>

fun phase_weight :: "wphase \<Rightarrow> nat" where
  "phase_weight Idle = 4"
| "phase_weight Subscribed = 3"
| "phase_weight Waiting = 1"
| "phase_weight _ = 0"

definition sync_weight :: "uint32 \<Rightarrow> sync_state \<Rightarrow> nat" where
  "sync_weight N s = (\<Sum>i < unat N. phase_weight (phase s i)) + length (regqueue s) +
     (if consumer s = Collecting then 1 else 0) + (if closed s then 0 else 1)"

lemma weight_update:
  fixes n :: nat
  assumes "i < n"
  shows "(\<Sum>j < n. phase_weight ((f(i := p)) j)) + phase_weight (f i) = (\<Sum>j < n. phase_weight (f j)) + phase_weight p"
proof -
  have i: "i \<in> {..<n}" using assms by simp
  have "(\<Sum>j \<in> {..<n} - {i}. phase_weight ((f(i := p)) j)) = (\<Sum>j \<in> {..<n} - {i}. phase_weight (f j))"
    by (rule sum.cong) auto
  then show ?thesis
    using sum.remove [OF _ i, of "\<lambda>j. phase_weight (f j)"] sum.remove [OF _ i, of "\<lambda>j. phase_weight ((f(i := p)) j)"]
    by simp
qed

lemma weight_phase:
  "i < unat N \<Longrightarrow> sync_weight N (set_phase i p s) + phase_weight (phase s i) = sync_weight N s + phase_weight p"
  using weight_update [of i "unat N" "phase s" p] by (simp add: sync_weight_def)

lemma weight_cong:
  "phase s' = phase s \<Longrightarrow> regqueue s' = regqueue s \<Longrightarrow> consumer s' = consumer s \<Longrightarrow> closed s' = closed s \<Longrightarrow>
    sync_weight N s' = sync_weight N s"
  by (simp add: sync_weight_def)

lemma sync_step_weight: "sync_step N et s s' \<Longrightarrow> sync_weight N s' < sync_weight N s"
proof (induction rule: sync_step.induct)
  case (subscribe i s)
  then show ?case
    using weight_phase [of i N Subscribed s] weight_cong [of "subscribed i s" "set_phase i Subscribed s" N]
    by (simp add: subscribed_def)
next
  case (register i s corr e)
  let ?p = "if e = None then Waiting else RegFailed"
  have "sync_weight N (published i et corr e s) = Suc (sync_weight N (set_phase i ?p s))"
    by (simp add: sync_weight_def published_def)
  then show ?case using register weight_phase [of i N ?p s] by (cases e) simp_all
next
  case (die i s)
  then show ?case using weight_phase [of i N Dead s] by auto
next
  case (start i s)
  then show ?case
    using weight_phase [of i N Started s] weight_cong [of "started i s" "set_phase i Started s" N]
    by (simp add: started_def)
next
  case (detach i s)
  then show ?case using weight_phase [of i N Detached s] by simp
next
  case (timeout i s)
  then show ?case using weight_phase [of i N TimedOut s] by simp
qed (simp_all add: sync_weight_def broadcasted_def)

lemma sync_steps_weight: "(sync_step N et ^^ k) s s' \<Longrightarrow> k + sync_weight N s' \<le> sync_weight N s"
proof (induction k arbitrary: s')
  case (Suc k)
  then obtain t where "(sync_step N et ^^ k) s t" "sync_step N et t s'" by auto
  then show ?case using Suc.IH [of t] sync_step_weight [of N et t s'] by simp
qed simp

lemma wait_never_panics: "0 < N \<Longrightarrow> wait_of N s \<noteq> Some (Panic t)"
  by (auto simp: wait_of_def waitForRegistrations_eq Let_def)

lemma wait_closed: "0 < N \<Longrightarrow> closed s \<Longrightarrow> wait_of N s \<noteq> None"
  by (simp add: wait_of_def waitForRegistrations_eq Let_def)

lemma wait_enough:
  assumes "0 < N" and "unat N \<le> length (received s)"
    and "\<forall>d \<in> set (received s). d_ContentType d = regContentType"
  shows "wait_of N s \<noteq> None"
  using assms by (auto simp: wait_of_def waitForRegistrations_eq Let_def counted_def registrations_plain min_def)

text \<open>
  In a quiet state nothing can happen but a new failure of the consumer's own connection: its
  deliveries are ended, or one of its calls fails.
\<close>

definition quiet_state :: "uint32 \<Rightarrow> (goerr \<Rightarrow> string) \<Rightarrow> sync_state \<Rightarrow> bool" where
  "quiet_state N et s \<longleftrightarrow> (\<forall>s'. sync_step N et s s' \<longrightarrow> closed s' \<noteq> closed s \<or> (consumer s \<noteq> Failed \<and> consumer s' = Failed))"

definition has_ended :: "wphase \<Rightarrow> bool" where
  "has_ended p \<longleftrightarrow> p \<in> {Dead, RegFailed, Started, TimedOut, Detached}"

lemma quiet_stepD:
  "quiet_state N et s \<Longrightarrow> sync_step N et s s' \<Longrightarrow>
    closed s' \<noteq> closed s \<or> (consumer s \<noteq> Failed \<and> consumer s' = Failed)"
  by (simp add: quiet_state_def)

lemma quiet_phase:
  assumes "quiet_state N et s" and "i < unat N"
  shows "has_ended (phase s i)"
proof -
  have "phase s i \<noteq> Idle" using quiet_stepD [OF assms(1) sync_step.subscribe [OF assms(2)]]
    by (auto simp: subscribed_def)
  moreover have "phase s i \<noteq> Subscribed"
    using quiet_stepD [OF assms(1) sync_step.die [OF assms(2)]] by auto
  moreover have "phase s i \<noteq> Waiting"
    using quiet_stepD [OF assms(1) sync_step.timeout [OF assms(2)]] by auto
  ultimately show ?thesis by (cases "phase s i") (simp_all add: has_ended_def)
qed

lemma quiet_consumer:
  assumes N: "0 < N" and inv: "sync_inv N s" and quiet: "quiet_state N et s" and c: "consumer s = Collecting"
  shows "\<not> closed s \<and> (\<exists>i < unat N. phase s i = Dead)"
proof -
  note plain = inv_plain [OF inv]
  have wait: "wait_of N s = None"
  proof (rule ccontr)
    assume "wait_of N s \<noteq> None"
    then obtain r where r: "wait_of N s = Some r" by blast
    then show False
      using quiet_stepD [OF quiet sync_step.broadcast [OF c]] quiet_stepD [OF quiet sync_step.abort [OF c]]
        wait_never_panics [OF N] c by (cases r) (auto simp: broadcasted_def)
  qed
  then have nc: "\<not> closed s" using wait_closed [OF N, of s] by auto
  then have q: "regqueue s = []"
    using quiet_stepD [OF quiet sync_step.receive [OF c nc wait]] c by (cases "regqueue s") auto
  have "\<exists>i < unat N. phase s i = Dead"
  proof (rule ccontr)
    assume alive: "\<not> (\<exists>i < unat N. phase s i = Dead)"
    have "has_registered (phase s i)" if "i < unat N" for i
    proof -
      have "has_ended (phase s i)" by (rule quiet_phase [OF quiet that])
      moreover have "phase s i \<noteq> Dead" using alive that by blast
      ultimately show ?thesis by (cases "phase s i") (simp_all add: has_ended_def)
    qed
    then have "registered N s = {..< unat N}" by (auto simp: registered_def)
    then have "length (received s) = unat N" using inv q by (simp add: sync_inv_def)
    with wait_enough [OF N _ plain] wait show False by simp
  qed
  with nc show ?thesis by simp
qed

subsection \<open>Who is counted\<close>

definition succeeded :: "uint32 \<Rightarrow> sync_state \<Rightarrow> nat set" where
  "succeeded N s = {i. i < unat N \<and> phase s i \<in> {Waiting, Started, TimedOut, Detached}}"

definition ok_messages :: "delivery list \<Rightarrow> nat" where
  "ok_messages ds = length (filter (\<lambda>d. d_Body d = []) ds)"

definition count_inv :: "uint32 \<Rightarrow> sync_state \<Rightarrow> bool" where
  "count_inv N s \<longleftrightarrow>
     ok_messages (received s @ regqueue s) = card (succeeded N s) \<and>
     (\<forall>n. consumer s = Broadcast n \<longrightarrow>
        unat n \<le> card (succeeded N s) \<and> (\<not> closed s \<longrightarrow> unat n = card (succeeded N s)))"

lemma succeeded_finite [simp]: "finite (succeeded N s)"
  by (simp add: succeeded_def)

lemma succeeded_cong: "phase s' = phase s \<Longrightarrow> succeeded N s' = succeeded N s"
  by (simp add: succeeded_def)

lemma succeeded_same:
  "phase s i \<in> {Waiting, Started, TimedOut, Detached} \<longleftrightarrow> p \<in> {Waiting, Started, TimedOut, Detached} \<Longrightarrow>
    succeeded N (set_phase i p s) = succeeded N s"
  by (auto simp: succeeded_def)

lemma ok_messages_append: "ok_messages (xs @ ys) = ok_messages xs + ok_messages ys"
  by (simp add: ok_messages_def)

lemma wait_Ret_count:
  assumes "0 < N" and "wait_of N s = Some (Ret n)"
    and "\<forall>d \<in> set (received s). d_ContentType d = regContentType" and "length (received s) \<le> unat N"
  shows "unat n = ok_messages (received s)"
proof -
  have "counted N (received s) = received s" using assms(3,4) by (simp add: counted_def registrations_plain)
  moreover have "length (received s) - failures (received s) = ok_messages (received s)"
    using sum_length_filter_compl [of "\<lambda>d. d_Body d = []" "received s"] by (simp add: failures_def ok_messages_def)
  ultimately have "n = of_nat (ok_messages (received s))"
    using assms(1,2) by (auto simp: wait_of_def waitForRegistrations_eq Let_def split: if_splits)
  moreover have "ok_messages (received s) \<le> length (received s)" by (simp add: ok_messages_def)
  ultimately show ?thesis
    using assms(4) unat_uint32_less [of N] by (simp add: unat_of_nat_uint32)
qed

lemma received_le:
  assumes "sync_inv N s"
  shows "length (received s @ regqueue s) \<le> unat N"
proof -
  have "registered N s \<subseteq> {..< unat N}" by (auto simp: registered_def)
  then have "card (registered N s) \<le> unat N" by (metis card_lessThan card_mono finite_lessThan)
  with assms show ?thesis by (simp add: sync_inv_def)
qed

lemma count_inv_phase:
  assumes "count_inv N s" and "succeeded N s' = succeeded N s"
    and "received s' = received s" "regqueue s' = regqueue s" "consumer s' = consumer s" "closed s' = closed s"
  shows "count_inv N s'"
  using assms by (simp add: count_inv_def)

lemma count_inv_register:
  assumes et: "\<forall>e. et e \<noteq> []" and i: "i < unat N" "phase s i = Subscribed"
    and inv: "sync_inv N s" and c: "count_inv N s"
  shows "count_inv N (published i et corr e s)"
proof -
  let ?s = "published i et corr e s"
  have "succeeded N ?s = (if e = None then insert i (succeeded N s) else succeeded N s)" "i \<notin> succeeded N s"
    using i by (auto simp: succeeded_def published_def)
  then have "card (succeeded N ?s) = card (succeeded N s) + (if e = None then 1 else 0)" by simp
  moreover have "d_Body (registration et corr e) = [] \<longleftrightarrow> e = None"
    using et by (cases e) (simp_all add: registration_def errorText_def)
  moreover have "consumer s = Broadcast n \<Longrightarrow> closed s" for n
    using inv_unregistered [OF inv i(1)] i(2) by simp
  ultimately show ?thesis
    using c by (auto simp: count_inv_def ok_messages_def published_def)
qed

lemma count_inv_broadcast:
  assumes N: "0 < N" and inv: "sync_inv N s" and c: "count_inv N s" and w: "wait_of N s = Some (Ret n)"
  shows "count_inv N (broadcasted n s)"
proof -
  have same: "succeeded N (broadcasted n s) = succeeded N s"
    by (rule succeeded_cong) (simp add: broadcasted_def)
  have le: "length (received s @ regqueue s) \<le> unat N" by (rule received_le [OF inv])
  then have n: "unat n = ok_messages (received s)"
    by (intro wait_Ret_count [OF N w inv_plain [OF inv]]) simp
  have "regqueue s = []" if "\<not> closed s"
  proof -
    have "unat N \<le> length (received s)" using wait_decided [OF N inv_plain [OF inv] _ that] w by simp
    with le have "length (regqueue s) = 0" unfolding length_append by linarith
    then show ?thesis by simp
  qed
  with n c show ?thesis
    unfolding count_inv_def same by (auto simp: broadcasted_def ok_messages_append) (simp add: ok_messages_def)
qed

lemma count_inv_step:
  assumes N: "0 < N" and et: "\<forall>e. et e \<noteq> []"
  shows "sync_step N et s s' \<Longrightarrow> sync_inv N s \<Longrightarrow> count_inv N s \<Longrightarrow> count_inv N s'"
proof (induction rule: sync_step.induct)
  case (subscribe i s)
  have "succeeded N (subscribed i s) = succeeded N s"
    using succeeded_same [of s i Subscribed N] subscribe(2) succeeded_cong [of "subscribed i s" "set_phase i Subscribed s"]
    by (simp add: subscribed_def)
  then show ?case using count_inv_phase [OF subscribe(4)] by (simp add: subscribed_def)
next
  case (register i s corr e)
  then show ?case by (intro count_inv_register [OF et])
next
  case (die i s)
  have "succeeded N (set_phase i Dead s) = succeeded N s" using succeeded_same [of s i Dead N] die(2) by auto
  then show ?case using count_inv_phase [OF die(4)] by simp
next
  case (receive s d ds)
  then show ?case by (simp add: count_inv_def ok_messages_def succeeded_def)
next
  case (broadcast s n)
  then show ?case by (intro count_inv_broadcast [OF N])
next
  case (start i s)
  have "succeeded N (started i s) = succeeded N s"
    using succeeded_same [of s i Started N] start(2) succeeded_cong [of "started i s" "set_phase i Started s"]
    by (simp add: started_def)
  then show ?case using count_inv_phase [OF start(5)] by (simp add: started_def)
next
  case (detach i s)
  have "succeeded N (set_phase i Detached s) = succeeded N s" using succeeded_same [of s i Detached N] detach(2) by simp
  then show ?case using count_inv_phase [OF detach(4)] by simp
next
  case (timeout i s)
  have "succeeded N (set_phase i TimedOut s) = succeeded N s" using succeeded_same [of s i TimedOut N] timeout(2) by simp
  then show ?case using count_inv_phase [OF timeout(4)] by simp
qed (simp_all add: count_inv_def succeeded_def)

lemma count_inv_reaches:
  assumes "0 < N" and "\<forall>e. et e \<noteq> []"
  shows "sync_reaches N et sync_initial s \<Longrightarrow> sync_inv N s \<and> count_inv N s"
proof (induction rule: rtranclp_induct)
  case base
  show ?case using sync_inv_initial by (simp add: count_inv_def sync_initial_def succeeded_def ok_messages_def)
next
  case (step s t)
  then show ?case using sync_inv_step [OF assms(1)] count_inv_step [OF assms] by blast
qed

subsection \<open>Properties\<close>

text \<open>
  C9: unless the broker ends the consumer's deliveries early, no worker starts on a command
  before every one of the expected workers has registered (with success or failure), however the
  steps interleave and whatever else fails: a worker that ends before it has registered keeps
  all the others from starting.
\<close>

theorem start_barrier:
  assumes "0 < N" and "sync_reaches N et sync_initial s" and "\<not> closed s"
    and "phase s i = Started" and "j < unat N"
  shows "phase s j \<notin> {Idle, Subscribed, Dead}"
proof -
  have inv: "sync_inv N s" by (rule sync_inv_reaches [OF assms(1,2) sync_inv_initial])
  with assms(4) have "\<exists>n. consumer s = Broadcast n" by (cases "consumer s") (auto simp: sync_inv_def)
  with inv assms(3,5) show ?thesis by (auto simp: sync_inv_def has_registered_iff)
qed

text \<open>
  C11: no worker misses the start command: once it is broadcast with the consumer's deliveries
  open, a worker that still waits can take it from its queue (it subscribed before it
  registered).
\<close>

theorem start_not_missed:
  assumes "0 < N" and "sync_reaches N et sync_initial s" and "\<not> closed s"
    and "consumer s = Broadcast n" and "i < unat N" and "phase s i = Waiting"
  shows "\<exists>s'. sync_step N et s s' \<and> phase s' i = Started"
proof -
  have "sync_inv N s" by (rule sync_inv_reaches [OF assms(1,2) sync_inv_initial])
  then have "0 < inbox s i" using assms(3-6) by (simp add: sync_inv_def)
  then have "sync_step N et s (started i s)" by (rule sync_step.start [OF assms(5,6)])
  then show ?thesis by (auto simp: started_def)
qed

text \<open>
  C12: the number the consumer reports with the broadcast is never more than the number of
  workers whose init function succeeded, and is that number unless the deliveries were closed
  early, if no error has an empty text.
\<close>

theorem broadcast_count:
  assumes "0 < N" and "\<forall>e. et e \<noteq> []" and "sync_reaches N et sync_initial s"
    and "consumer s = Broadcast n"
  shows "unat n \<le> card {i. i < unat N \<and> phase s i \<in> {Waiting, Started, TimedOut, Detached}} \<and>
    (\<not> closed s \<longrightarrow> unat n = card {i. i < unat N \<and> phase s i \<in> {Waiting, Started, TimedOut, Detached}})"
  using count_inv_reaches [OF assms(1-3)] assms(4) by (simp add: count_inv_def succeeded_def)

text \<open>
  C10: every run ends, whatever fails: it has at most \<open>4 * N + 2\<close> steps, and when no step is
  left but a new failure of the consumer's own connection, every one of the \<open>N\<close> workers has
  started, timed out or ended otherwise, even if the consumer is gone. The consumer then has
  broadcast, ended or failed, or waits for ever, with its deliveries open, for a worker that
  ended before it registered. Only after a broadcast has any worker started.
\<close>

theorem sync_run_ends:
  assumes "0 < N" and "(sync_step N et ^^ k) sync_initial s"
  shows "k \<le> 4 * unat N + 2 \<and>
    ((\<exists>s'. sync_step N et s s' \<and> closed s' = closed s \<and> (consumer s' = Failed \<longrightarrow> consumer s = Failed)) \<or>
     (\<forall>i < unat N. phase s i \<in> {Dead, RegFailed, Started, TimedOut, Detached}) \<and>
     (consumer s = Collecting \<longrightarrow> \<not> closed s \<and> (\<exists>i < unat N. phase s i = Dead))) \<and>
    ((\<exists>i. phase s i = Started) \<longrightarrow> (\<exists>n. consumer s = Broadcast n))"
proof -
  have "sync_weight N sync_initial = 4 * unat N + 2" by (simp add: sync_weight_def sync_initial_def)
  with sync_steps_weight [OF assms(2)] have "k \<le> 4 * unat N + 2" by simp
  moreover have "sync_reaches N et sync_initial s" by (rule relpowp_imp_rtranclp [OF assms(2)])
  then have inv: "sync_inv N s" by (rule sync_inv_reaches [OF assms(1) _ sync_inv_initial])
  then have "quiet_state N et s \<Longrightarrow> consumer s = Collecting \<longrightarrow> \<not> closed s \<and> (\<exists>i < unat N. phase s i = Dead)"
    using quiet_consumer [OF assms(1)] by blast
  moreover have "quiet_state N et s \<Longrightarrow> \<forall>i < unat N. phase s i \<in> {Dead, RegFailed, Started, TimedOut, Detached}"
    using quiet_phase unfolding has_ended_def by blast
  moreover have "(\<exists>i. phase s i = Started) \<longrightarrow> (\<exists>n. consumer s = Broadcast n)"
    using inv by (cases "consumer s") (auto simp: sync_inv_def)
  ultimately show ?thesis unfolding quiet_state_def by blast
qed

lemma phases_step: "sync_step N et s s' \<Longrightarrow> phase s i \<le> phase s' i"
  by (induction rule: sync_step.induct) (auto simp: less_eq_wphase_def step_states)

text \<open>
  A worker only moves forward through its phases, and its registration is final: once it waits
  or has failed to register, it never subscribes or registers again.
\<close>

theorem phases_forward:
  assumes "sync_reaches N et s s'"
  shows "phase s i \<le> phase s' i"
  using assms by (induction rule: rtranclp_induct) (auto intro: order_trans phases_step)

subsection \<open>A run with one worker\<close>

definition any_text :: "goerr \<Rightarrow> string" where
  "any_text e = ''error''"

definition run_registered :: "uint32 \<Rightarrow> sync_state" where
  "run_registered N = published 0 any_text [] None (subscribed 0 sync_initial)"

definition run_received :: "uint32 \<Rightarrow> sync_state" where
  "run_received N = (run_registered N)\<lparr>regqueue := [], received := [registration any_text [] None]\<rparr>"

definition run_broadcast :: "uint32 \<Rightarrow> sync_state" where
  "run_broadcast N = broadcasted 1 (run_received N)"

definition run_started :: "uint32 \<Rightarrow> sync_state" where
  "run_started N = started 0 (run_broadcast N)"

lemma zero_less_one_u32: "(0 :: uint32) < 1"
  by simp

lemma any_text_some: "\<forall>e. any_text e \<noteq> []"
  by (simp add: any_text_def)

lemmas run_defs =
  run_registered_def run_received_def run_broadcast_def run_started_def sync_initial_def step_states

lemma run_wait:
  "0 < N \<Longrightarrow> wait_of N (run_registered N) = None"
  "wait_of 1 (run_received 1) = Some (Ret 1)" "wait_of 2 ((run_received 2)\<lparr>closed := True\<rparr>) = Some (Ret 1)"
  by (simp_all add: wait_of_def waitForRegistrations_def run_defs registration_def errorText_def regContentType_def)

lemma unat_pos: "1 \<le> N \<Longrightarrow> 0 < unat (N :: uint32)"
  by (simp add: word_le_nat_alt)

lemma run_register:
  assumes "1 \<le> N"
  shows "(sync_step N any_text ^^ Suc (Suc 0)) sync_initial (run_registered N)"
proof -
  note N = unat_pos [OF assms]
  have "sync_step N any_text sync_initial (subscribed 0 sync_initial)"
    by (rule sync_step.subscribe [OF N]) (simp add: sync_initial_def)
  moreover have "sync_step N any_text (subscribed 0 sync_initial) (run_registered N)"
    unfolding run_registered_def by (rule sync_step.register [OF N]) (simp add: subscribed_def)
  ultimately show ?thesis unfolding relpowp.simps by (intro relcomppI) (rule refl)
qed

lemma run_reaches_registered: "1 \<le> N \<Longrightarrow> sync_reaches N any_text sync_initial (run_registered N)"
  by (rule relpowp_imp_rtranclp [OF run_register])

lemma run_receive:
  assumes "1 \<le> N"
  shows "sync_step N any_text (run_registered N) (run_received N)"
  using sync_step.receive [of "run_registered N" N "registration any_text [] None" "[]"] run_wait(1) [of N]
    unat_pos [OF assms]
  by (simp add: run_received_def word_less_nat_alt) (simp add: run_defs)

lemma run_reaches_received:
  "1 \<le> N \<Longrightarrow> (sync_step N any_text ^^ Suc (Suc (Suc 0))) sync_initial (run_received N)"
  by (rule relpowp_Suc_I [OF run_register run_receive])

lemma run_steps:
  "sync_step 1 any_text (run_received 1) (run_broadcast 1)"
  "sync_step 1 any_text (run_broadcast 1) (run_started 1)"
  unfolding run_broadcast_def run_started_def
  by (rule sync_step.broadcast, simp add: run_defs, rule run_wait)
    (rule sync_step.start, simp_all add: run_defs)

lemma run_reaches:
  "sync_reaches 1 any_text sync_initial (run_broadcast 1)" "sync_reaches 1 any_text sync_initial (run_started 1)"
proof -
  have "sync_reaches 1 any_text sync_initial (run_received 1)"
    by (rule relpowp_imp_rtranclp [OF run_reaches_received]) simp
  then show "sync_reaches 1 any_text sync_initial (run_broadcast 1)"
    using run_steps(1) by (rule rtranclp.rtrancl_into_rtrancl)
  then show "sync_reaches 1 any_text sync_initial (run_started 1)"
    using run_steps(2) by (rule rtranclp.rtrancl_into_rtrancl)
qed

theorem phases_forward_witness: "phase sync_initial 0 \<le> phase (run_started 1) 0"
  by (rule phases_forward [OF run_reaches(2)])

theorem start_barrier_witness: "phase (run_started 1) 0 \<notin> {Idle, Subscribed, Dead}"
  using start_barrier [OF _ run_reaches(2), of 0 0] by (simp add: run_defs)

theorem start_not_missed_witness: "\<exists>s'. sync_step 1 any_text (run_broadcast 1) s' \<and> phase s' 0 = Started"
  by (rule start_not_missed [OF _ run_reaches(1), of 1]) (simp_all add: run_defs)

theorem broadcast_count_witness:
  "card {i. i < unat (1 :: uint32) \<and> phase (run_broadcast 1) i \<in> {Waiting, Started, TimedOut, Detached}} = 1"
proof -
  have "consumer (run_broadcast 1) = Broadcast 1" "\<not> closed (run_broadcast 1)" by (simp_all add: run_defs)
  then have "unat (1 :: uint32) =
      card {i. i < unat (1 :: uint32) \<and> phase (run_broadcast 1) i \<in> {Waiting, Started, TimedOut, Detached}}"
    using broadcast_count [OF _ any_text_some run_reaches(1), of 1] zero_less_one_u32 by blast
  from this [symmetric] show ?thesis by (rule trans) simp
qed

lemma run_started_quiet: "\<not> sync_step 1 any_text (run_started 1) s'"
  by (auto elim!: sync_stepE simp: run_defs split: if_splits)

theorem sync_run_ends_witness:
  "phase (run_started 1) 0 \<in> {Dead, RegFailed, Started, TimedOut, Detached} \<and>
   (\<exists>s'. sync_step 1 any_text (sync_initial\<lparr>consumer := Failed\<rparr>) s' \<and> closed s' = closed sync_initial)"
proof
  have "(sync_step 1 any_text ^^ Suc (Suc (Suc (Suc (Suc 0))))) sync_initial (run_started 1)"
    by (rule relpowp_Suc_I [OF relpowp_Suc_I [OF run_reaches_received run_steps(1)] run_steps(2)]) simp
  from sync_run_ends [OF _ this] run_started_quiet
  show "phase (run_started 1) 0 \<in> {Dead, RegFailed, Started, TimedOut, Detached}" by (auto simp: run_defs)
  let ?s = "sync_initial\<lparr>consumer := Failed\<rparr>"
  have "sync_step 1 any_text sync_initial ?s" by (rule sync_step.lose) (simp_all add: sync_initial_def)
  then have "(sync_step 1 any_text ^^ Suc 0) sync_initial ?s" by (simp add: eq_OO)
  from sync_run_ends [OF zero_less_one_u32 this]
  show "\<exists>s'. sync_step 1 any_text ?s s' \<and> closed s' = closed sync_initial" by (auto simp: sync_initial_def)
qed

subsection \<open>Deliveries that end early\<close>

text \<open>
  C18: when the broker ends the consumer's deliveries early, the barrier fails: of two expected
  workers one can start on a command while the other has not begun to register, and the consumer
  reports one worker.
\<close>

theorem closed_breaks_barrier:
  "\<exists>s. sync_reaches 2 any_text sync_initial s \<and> consumer s = Broadcast 1 \<and>
     phase s 0 = Started \<and> phase s 1 = Idle"
proof (intro exI conjI)
  let ?c = "(run_received 2)\<lparr>closed := True\<rparr>"
  let ?s = "started 0 (broadcasted 1 ?c)"
  have "sync_reaches 2 any_text sync_initial (run_received 2)"
    by (rule relpowp_imp_rtranclp [OF run_reaches_received]) simp
  moreover have "sync_step 2 any_text (run_received 2) ?c"
    by (rule sync_step.close)
      (simp_all add: wait_of_def waitForRegistrations_def run_defs registration_def errorText_def regContentType_def)
  ultimately have "sync_reaches 2 any_text sync_initial ?c" by (rule rtranclp.rtrancl_into_rtrancl)
  moreover have "sync_step 2 any_text ?c (broadcasted 1 ?c)"
    by (rule sync_step.broadcast, simp add: run_defs, rule run_wait)
  ultimately have "sync_reaches 2 any_text sync_initial (broadcasted 1 ?c)" by (rule rtranclp.rtrancl_into_rtrancl)
  moreover have "sync_step 2 any_text (broadcasted 1 ?c) ?s"
    by (rule sync_step.start) (simp_all add: run_defs)
  ultimately show "sync_reaches 2 any_text sync_initial ?s" by (rule rtranclp.rtrancl_into_rtrancl)
  show "consumer ?s = Broadcast 1" "phase ?s 0 = Started" "phase ?s 1 = Idle" by (simp_all add: run_defs)
qed

end
