(* ===== verification/SyncRefine.thy ===== *)
theory SyncRefine
  imports SyncProtocol
begin

section \<open>Register and SyncRegistrations implement the start barrier\<close>

text \<open>
  The definitions of \<open>Worker\<close> and \<open>Consumer\<close> refine the steps of \<open>SyncProtocol\<close>. A world is seen
  as a state of the protocol by \<open>view\<close>; while one process waits in a call, the others make their
  steps, so a call leads to a state some steps further. \<open>worker_laws\<close> and \<open>consumer_laws\<close> say
  what each call of the broker adds to that: binding a queue to the topic subscribes the worker,
  publishing to the queue of registrations registers it, the deliveries are those received.
\<close>

subsection \<open>What the calls do to the protocol\<close>

text \<open>\<open>moves\<close>: the steps made while a call lasts lead worker \<open>i\<close> to the phase \<open>p\<close>; \<open>others\<close>: none is its own.\<close>

definition moves ::
  "uint32 \<Rightarrow> (goerr \<Rightarrow> string) \<Rightarrow> nat \<Rightarrow> wphase \<Rightarrow> sync_state \<Rightarrow> sync_state \<Rightarrow> bool" where
  "moves N et i p s t \<longleftrightarrow> sync_reaches N et s t \<and> phase t i = p"

abbreviation others :: "uint32 \<Rightarrow> (goerr \<Rightarrow> string) \<Rightarrow> nat \<Rightarrow> sync_state \<Rightarrow> sync_state \<Rightarrow> bool" where
  "others N et i s t \<equiv> moves N et i (phase s i) s t"

text \<open>How the wait for the start command ends, as a phase.\<close>

fun event_phase :: "start_event \<Rightarrow> wphase" where
  "event_phase StartDelivered = Started"
| "event_phase DeliveriesClosed = Detached"
| "event_phase TimerFired = TimedOut"

text \<open>
  The calls of the worker \<open>i\<close> and of its own functions. A call that fails leaves the worker
  where it was, except that a publication may have arrived although its call fails.
\<close>

definition worker_laws ::
  "uint32 \<Rightarrow> (goerr \<Rightarrow> string) \<Rightarrow> nat \<Rightarrow> ('conn, 'ch, 'd, 't, 'w) broker \<Rightarrow> ('t, 'w) runtime \<Rightarrow>
   ('d \<Rightarrow> go_int \<Rightarrow> 'w \<Rightarrow> start_event \<times> 'w) \<Rightarrow> ('c, 'w) WorkerConfig \<Rightarrow> ('w \<Rightarrow> sync_state) \<Rightarrow> bool" where
  "worker_laws N et i B rt wait_start conf view \<longleftrightarrow>
     (\<forall>c w. others N et i (view w) (view (snd (Open_channel B c w)))) \<and>
     (\<forall>ch w. others N et i (view w) (view (Close_channel B ch w))) \<and>
     (\<forall>ch q excl w. others N et i (view w) (view (snd (QueueDeclare B ch q False excl False False w)))) \<and>
     (\<forall>ch w q. fst (QueueDeclare B ch regQueueName False False False False w) = Inr q \<longrightarrow> q = regQueueName) \<and>
     (\<forall>ch q w. others N et i (view w) (view (snd (Consume B ch q [] True True False False w)))) \<and>
     (\<forall>w. others N et i (view w) (view (snd (Now rt w)))) \<and>
     (\<forall>corr c w. others N et i (view w) (view (snd (snd (InitFunc conf corr c w))))) \<and>
     (\<forall>ch q w r w'. QueueBind B ch q ''start'' ''amq.topic'' False w = (r, w') \<longrightarrow> phase (view w) i = Idle \<longrightarrow>
        moves N et i (if r = None then Subscribed else Idle) (view w) (view w')) \<and>
     (\<forall>ch m w r w'. Publish B ch [] regQueueName True False m w = (r, w') \<longrightarrow> phase (view w) i = Subscribed \<longrightarrow>
        moves N et i (if Body m = [] then Waiting else RegFailed) (view w) (view w') \<or>
        r \<noteq> None \<and> others N et i (view w) (view w')) \<and>
     (\<forall>d t w. phase (view w) i = Waiting \<longrightarrow>
        moves N et i (event_phase (fst (wait_start d t w))) (view w) (view (snd (wait_start d t w))))"

text \<open>
  The calls of the consumer: what its channel delivers while \<open>waitForRegistrations\<close> reads is
  what it has received then, and publishing the start command is the broadcast.
\<close>

definition waits :: "uint32 \<Rightarrow> (goerr \<Rightarrow> string) \<Rightarrow> sync_state \<Rightarrow> sync_state \<Rightarrow> bool" where
  "waits N et s t \<longleftrightarrow> sync_reaches N et s t \<and> consumer t = consumer s"

definition consumer_laws ::
  "uint32 \<Rightarrow> (goerr \<Rightarrow> string) \<Rightarrow> ('conn, 'ch, 'd, 't, 'w) broker \<Rightarrow>
   ('d \<Rightarrow> 'w \<Rightarrow> (delivery list \<times> bool) \<times> 'w) \<Rightarrow> ('w \<Rightarrow> sync_state) \<Rightarrow> bool" where
  "consumer_laws N et B deliveries view \<longleftrightarrow>
     (\<forall>c w. waits N et (view w) (view (snd (Open_channel B c w)))) \<and>
     (\<forall>ch w. waits N et (view w) (view (Close_channel B ch w))) \<and>
     (\<forall>ch w. waits N et (view w) (view (snd (QueueDeclare B ch regQueueName False False False False w)))) \<and>
     (\<forall>ch w. waits N et (view w) (view (snd (Consume B ch regQueueName [] True True False False w)))) \<and>
     (\<forall>d w ds cl w'. deliveries d w = ((ds, cl), w') \<longrightarrow> consumer (view w) = Collecting \<longrightarrow>
        waits N et (view w) (view w') \<and> received (view w') = ds \<and> closed (view w') = cl) \<and>
     (\<forall>ch m n w r w'. Publish B ch ''amq.topic'' ''start'' True False m w = (r, w') \<longrightarrow>
        consumer (view w) = Collecting \<longrightarrow> wait_of N (view w) = Some (Ret n) \<longrightarrow>
        sync_reaches N et (view w) (view w') \<and>
        consumer (view w') = (if r = None then Broadcast n else Failed))"

lemma moves_trans [trans]: "moves N et i p s t \<Longrightarrow> moves N et i q t u \<Longrightarrow> moves N et i q s u"
  unfolding moves_def by auto

lemma waits_trans [trans]: "waits N et s t \<Longrightarrow> waits N et t u \<Longrightarrow> waits N et s u"
  unfolding waits_def by auto

subsection \<open>The worker\<close>

text \<open>The laws, one per call, for the result of the call.\<close>

lemma worker_quiet_calls:
  assumes "worker_laws N et i B rt wait_start conf view"
  shows "Open_channel B c w = (r1, w') \<Longrightarrow> others N et i (view w) (view w')"
    and "Close_channel B ch w = w' \<Longrightarrow> others N et i (view w) (view w')"
    and "QueueDeclare B ch q False excl False False w = (r2, w') \<Longrightarrow> others N et i (view w) (view w')"
    and "Consume B ch q [] True True False False w = (r3, w') \<Longrightarrow> others N et i (view w) (view w')"
    and "Now rt w = (t, w') \<Longrightarrow> others N et i (view w) (view w')"
    and "InitFunc conf corr cfg w = (r4, cfg', w') \<Longrightarrow> others N et i (view w) (view w')"
    and "QueueDeclare B ch regQueueName False False False False w = (Inr q, w') \<Longrightarrow> q = regQueueName"
  using assms unfolding worker_laws_def by (metis snd_conv fst_conv)+

lemma worker_bind:
  "worker_laws N et i B rt wait_start conf view \<Longrightarrow> QueueBind B ch q ''start'' ''amq.topic'' False w = (r, w') \<Longrightarrow>
    phase (view w) i = Idle \<Longrightarrow> moves N et i (if r = None then Subscribed else Idle) (view w) (view w')"
  unfolding worker_laws_def by blast

lemma worker_publish:
  "worker_laws N et i B rt wait_start conf view \<Longrightarrow> Publish B ch [] regQueueName True False m w = (r, w') \<Longrightarrow>
    phase (view w) i = Subscribed \<Longrightarrow>
    moves N et i (if Body m = [] then Waiting else RegFailed) (view w) (view w') \<or>
    r \<noteq> None \<and> others N et i (view w) (view w')"
  unfolding worker_laws_def by blast

lemma worker_wait:
  "worker_laws N et i B rt wait_start conf view \<Longrightarrow> wait_start d t w = (ev, w') \<Longrightarrow>
    phase (view w) i = Waiting \<Longrightarrow> moves N et i (event_phase ev) (view w) (view w')"
  unfolding worker_laws_def by (metis fst_conv snd_conv)

text \<open>The phases in which a registration can leave a worker, by its outcome.\<close>

definition left_as :: "goerr option \<Rightarrow> wphase \<Rightarrow> bool" where
  "left_as err p \<longleftrightarrow>
     (if err = None then p \<in> {Started, TimedOut, Detached} else p \<in> {Idle, Subscribed, Waiting, RegFailed})"

lemma left_as_event: "left_as None (event_phase ev)"
  by (cases ev) (simp_all add: left_as_def)

lemma publish_registration_moves:
  assumes laws: "worker_laws N et i B rt wait_start conf view" and et: "\<forall>e. et e \<noteq> []"
    and p: "publish_registration B rt et wait_start ch d corr e w = (err, w')"
    and s: "phase (view w) i = Subscribed"
  shows "\<exists>p. moves N et i p (view w) (view w') \<and> left_as err p"
proof -
  obtain r1 w1 where 1: "QueueDeclare B ch regQueueName False False False False w = (r1, w1)" by fastforce
  have m1: "moves N et i Subscribed (view w) (view w1)" using worker_quiet_calls(3) [OF laws 1] s by simp
  show ?thesis
  proof (cases r1)
    case (Inl x)
    then show ?thesis using p 1 m1 by (auto simp: publish_registration_def left_as_def regQueueName_def)
  next
    case (Inr rq)
    then have rq: "rq = regQueueName" using worker_quiet_calls(7) [OF laws] 1 by blast
    obtain t w2 where 2: "Now rt w1 = (t, w2)" by fastforce
    have m2: "moves N et i Subscribed (view w) (view w2)"
      using moves_trans [OF m1 worker_quiet_calls(5) [OF laws 2]] m1 by (simp add: moves_def)
    obtain r3 w3 where 3: "Publish B ch [] regQueueName True False
        \<lparr>ContentType = ''text/plain'', Body = errorText et e, CorrelationId = corr, Timestamp = Some t\<rparr> w2
        = (r3, w3)" by fastforce
    have "moves N et i (if e = None then Waiting else RegFailed) (view w2) (view w3) \<or>
        r3 \<noteq> None \<and> moves N et i Subscribed (view w2) (view w3)"
      using worker_publish [OF laws 3] m2 et by (cases e) (simp_all add: errorText_def moves_def)
    then have m3: "moves N et i (if e = None then Waiting else RegFailed) (view w) (view w3) \<or>
        r3 \<noteq> None \<and> moves N et i Subscribed (view w) (view w3)"
      using moves_trans [OF m2] by blast
    obtain ev w4 where 4: "wait_start d startTimeout w3 = (ev, w4)" by fastforce
    show ?thesis
    proof (cases "r3 = None \<and> e = None")
      case True
      then have m3': "moves N et i Waiting (view w) (view w3)" using m3 by simp
      then have "moves N et i (event_phase ev) (view w) (view w4)"
        using moves_trans [OF m3' worker_wait [OF laws 4]] by (simp add: moves_def)
      moreover have "err = None" "w' = w4"
        using p 1 2 3 4 Inr rq True by (auto simp: publish_registration_def regQueueName_def)
      ultimately show ?thesis using left_as_event by blast
    next
      case False
      then have "err \<noteq> None" "w' = w3"
        using p 1 2 3 4 Inr rq
        by (auto simp: publish_registration_def regQueueName_def split: option.splits)
      then show ?thesis using m3 False by (auto simp: left_as_def split: if_splits)
    qed
  qed
qed

lemma Register_with_moves:
  assumes laws: "worker_laws N et i B rt wait_start (w_config wk) view" and et: "\<forall>e. et e \<noteq> []"
    and p: "Register_with B rt et wait_start ch wk w = (Ret (err, wk'), w')"
    and s: "phase (view w) i = Idle"
  shows "\<exists>p. moves N et i p (view w) (view w') \<and> left_as err p"
proof -
  obtain r1 w1 where 1: "QueueDeclare B ch [] False True False False w = (r1, w1)" by fastforce
  have m1: "moves N et i Idle (view w) (view w1)" using worker_quiet_calls(3) [OF laws 1] s by simp
  show ?thesis
  proof (cases r1)
    case (Inl x)
    then show ?thesis using p 1 m1 by (auto simp: Register_with_def left_as_def)
  next
    case q1: (Inr q1)
    obtain r2 w2 where 2: "QueueBind B ch q1 ''start'' ''amq.topic'' False w1 = (r2, w2)" by fastforce
    have m2: "moves N et i (if r2 = None then Subscribed else Idle) (view w) (view w2)"
      using moves_trans [OF m1] worker_bind [OF laws 2] m1 by (simp add: moves_def)
    show ?thesis
    proof (cases r2)
      case (Some x)
      then show ?thesis using p 1 2 q1 m2 by (auto simp: Register_with_def left_as_def)
    next
      case b: None
      then have m2': "moves N et i Subscribed (view w) (view w2)" using m2 by simp
      obtain r3 w3 where 3: "Consume B ch q1 [] True True False False w2 = (r3, w3)" by fastforce
      have m3: "moves N et i Subscribed (view w) (view w3)"
        using moves_trans [OF m2' worker_quiet_calls(4) [OF laws 3]] m2' by (simp add: moves_def)
      show ?thesis
      proof (cases r3)
        case (Inl x)
        then show ?thesis using p 1 2 3 q1 b m3 by (auto simp: Register_with_def left_as_def)
      next
        case d: (Inr d)
        obtain res cfg w4 where 4: "InitFunc (w_config wk) (correlationID wk) (OperationConfig (w_config wk)) w3
            = (res, cfg, w4)" by (metis surj_pair)
        have m4: "moves N et i Subscribed (view w) (view w4)"
          using moves_trans [OF m3 worker_quiet_calls(6) [OF laws 4]] m3 by (simp add: moves_def)
        obtain n e where res: "res = Ret (n, e)"
          using p 1 2 3 4 q1 b d by (cases res) (auto simp: Register_with_def)
        have 5: "publish_registration B rt et wait_start ch d (n @ correlationID wk) e w4 = (err, w')"
          using p 1 2 3 4 q1 b d res by (auto simp: Register_with_def Let_def split: prod.splits)
        have "phase (view w4) i = Subscribed" using m4 by (simp add: moves_def)
        from publish_registration_moves [OF laws et 5 this] show ?thesis using moves_trans [OF m4] by blast
      qed
    qed
  qed
qed

lemma Register_moves:
  assumes laws: "worker_laws N et i B rt wait_start (w_config wk) view" and et: "\<forall>e. et e \<noteq> []"
    and p: "Register B rt et wait_start wk w = (Ret (err, wk'), w')" and s: "phase (view w) i = Idle"
  shows "sync_reaches N et (view w) (view w') \<and> left_as err (phase (view w') i)"
proof -
  from p obtain conn where c: "w_conn wk = Some conn" by (auto simp: Register_def split: option.splits)
  obtain r w1 where 1: "Open_channel B conn w = (r, w1)" by fastforce
  have m1: "moves N et i Idle (view w) (view w1)" using worker_quiet_calls(1) [OF laws 1] s by simp
  show ?thesis
  proof (cases r)
    case (Inl x)
    then show ?thesis using p c 1 m1 by (auto simp: Register_def left_as_def moves_def)
  next
    case (Inr ch)
    obtain w2 where 2: "Register_with B rt et wait_start ch wk w1 = (Ret (err, wk'), w2)"
      "w' = Close_channel B ch w2"
      using p c 1 Inr by (auto simp: Register_def split: prod.splits outcome.splits)
    have "phase (view w1) i = Idle" using m1 by (simp add: moves_def)
    from Register_with_moves [OF laws et 2(1) this]
    obtain q where q: "moves N et i q (view w) (view w2)" "left_as err q" using moves_trans [OF m1] by blast
    moreover have "others N et i (view w2) (view w')" using worker_quiet_calls(2) [OF laws] 2(2) by simp
    ultimately show ?thesis using moves_trans [of N et i q] by (simp add: moves_def)
  qed
qed

text \<open>Who has taken the start command knows that every expected worker has registered.\<close>

lemma started_all_registered:
  assumes "0 < N" and "sync_reaches N et sync_initial s" and "phase s i = Started" and "\<not> closed s" and "j < unat N"
  shows "phase s j \<notin> {Idle, Subscribed, Dead}"
proof -
  have "sync_inv N s" by (rule sync_inv_reaches [OF assms(1,2) sync_inv_initial])
  with assms(3-5) show ?thesis by (cases "consumer s") (auto simp: sync_inv_def has_registered_iff)
qed

text \<open>
  C5: a worker's \<open>Register\<close> is a run of the protocol, whatever the other processes do in the
  meantime and whichever of its calls fail. If it returns without an error, the worker has taken
  a start command, or has waited until the timer or the end of its deliveries; in the first
  case, unless the broker ended the consumer's deliveries early, every expected worker has
  registered. If it returns an error, the worker has not started.
\<close>

theorem Register_refines:
  assumes "0 < N" and et: "\<forall>e. et e \<noteq> []"
    and laws: "worker_laws N et i B rt wait_start (w_config wk) view"
    and run: "sync_reaches N et sync_initial (view w)" and idle: "phase (view w) i = Idle"
    and p: "Register B rt et wait_start wk w = (Ret (err, wk'), w')"
  shows "sync_reaches N et (view w) (view w') \<and>
    (if err = None then phase (view w') i \<in> {Started, TimedOut, Detached}
     else phase (view w') i \<in> {Idle, Subscribed, Waiting, RegFailed}) \<and>
    (phase (view w') i = Started \<and> \<not> closed (view w') \<longrightarrow>
      (\<forall>j < unat N. phase (view w') j \<notin> {Idle, Subscribed, Dead}))"
proof -
  have m: "sync_reaches N et (view w) (view w')" "left_as err (phase (view w') i)"
    using Register_moves [OF laws et p idle] by simp_all
  then have "sync_reaches N et sync_initial (view w')" using run by auto
  from started_all_registered [OF assms(1) this, of i] m show ?thesis by (auto simp: left_as_def)
qed

subsection \<open>The consumer\<close>

lemma consumer_quiet_calls:
  assumes "consumer_laws N et B deliveries view"
  shows "Open_channel B c w = (r1, w') \<Longrightarrow> waits N et (view w) (view w')"
    and "Close_channel B ch w = w' \<Longrightarrow> waits N et (view w) (view w')"
    and "QueueDeclare B ch regQueueName False False False False w = (r2, w') \<Longrightarrow> waits N et (view w) (view w')"
    and "Consume B ch regQueueName [] True True False False w = (r3, w') \<Longrightarrow> waits N et (view w) (view w')"
  using assms unfolding consumer_laws_def by (metis snd_conv)+

lemma consumer_receives:
  "consumer_laws N et B deliveries view \<Longrightarrow> deliveries d w = ((ds, cl), w') \<Longrightarrow> consumer (view w) = Collecting \<Longrightarrow>
    waits N et (view w) (view w') \<and> received (view w') = ds \<and> closed (view w') = cl"
  unfolding consumer_laws_def by blast

lemma consumer_publishes:
  "consumer_laws N et B deliveries view \<Longrightarrow> Publish B ch ''amq.topic'' ''start'' True False m w = (r, w') \<Longrightarrow>
    consumer (view w) = Collecting \<Longrightarrow> wait_of N (view w) = Some (Ret n) \<Longrightarrow>
    sync_reaches N et (view w) (view w') \<and> consumer (view w') = (if r = None then Broadcast n else Failed)"
  unfolding consumer_laws_def by blast

lemma sync_on_moves:
  assumes laws: "consumer_laws N et B deliveries view"
    and p: "sync_on B deliveries ch N w = Some (Ret (n, err), w')" and s: "consumer (view w) = Collecting"
  shows "sync_reaches N et (view w) (view w') \<and> (err = None \<longrightarrow> consumer (view w') = Broadcast n)"
proof -
  obtain r1 w1 where 1: "QueueDeclare B ch regQueueName False False False False w = (r1, w1)" by fastforce
  note m1 = consumer_quiet_calls(3) [OF laws 1]
  show ?thesis
  proof (cases r1)
    case (Inl x)
    then show ?thesis using p 1 m1 by (auto simp: sync_on_def waits_def)
  next
    case q: (Inr q)
    obtain r2 w2 where 2: "Consume B ch regQueueName [] True True False False w1 = (r2, w2)" by fastforce
    note m2 = waits_trans [OF m1 consumer_quiet_calls(4) [OF laws 2]]
    show ?thesis
    proof (cases r2)
      case (Inl x)
      then show ?thesis using p 1 2 q m2 by (auto simp: sync_on_def waits_def)
    next
      case d: (Inr d)
      obtain ds cl w3 where 3: "deliveries d w2 = ((ds, cl), w3)" by (metis surj_pair)
      have "consumer (view w2) = Collecting" using m2 s by (simp add: waits_def)
      note r3 = consumer_receives [OF laws 3 this]
      have m3: "waits N et (view w) (view w3)" using waits_trans [OF m2] r3 by blast
      obtain k where k: "waitForRegistrations ds cl N = Some (Ret k)"
        using p 1 2 3 q d by (auto simp: sync_on_def split: option.splits outcome.splits)
      then have wait: "wait_of N (view w3) = Some (Ret k)" using r3 by (simp add: wait_of_def)
      obtain r4 w4 where 4: "Publish B ch ''amq.topic'' ''start'' True False
          \<lparr>ContentType = ''text/plain'', Body = ''start'', CorrelationId = [], Timestamp = None\<rparr> w3 = (r4, w4)"
        by fastforce
      have "consumer (view w3) = Collecting" using m3 s by (simp add: waits_def)
      note r4 = consumer_publishes [OF laws 4 this wait]
      have "w' = w4" "err = None \<longleftrightarrow> r4 = None" "err = None \<Longrightarrow> n = k"
        using p 1 2 3 4 q d k by (auto simp: sync_on_def split: option.splits)
      then show ?thesis using r4 m3 by (auto simp: waits_def)
    qed
  qed
qed

text \<open>
  C6: the consumer's \<open>SyncRegistrations\<close> is a run of the protocol, whatever the workers do in
  the meantime. When it returns without an error it has broadcast the start command, and the
  number it returns is at most the number of workers whose init function succeeded, and is that
  number, with every worker registered, unless the broker ended its deliveries early.
\<close>

theorem Sync_refines:
  assumes "0 < N" and et: "\<forall>e. et e \<noteq> []" and laws: "consumer_laws N et B deliveries view"
    and run: "sync_reaches N et sync_initial (view w)" and idle: "consumer (view w) = Collecting"
    and p: "SyncRegistrations B deliveries conn N w = Some (Ret (n, None), w')"
  shows "sync_reaches N et (view w) (view w') \<and> consumer (view w') = Broadcast n \<and>
    unat n \<le> card {i. i < unat N \<and> phase (view w') i \<in> {Waiting, Started, TimedOut, Detached}} \<and>
    (\<not> closed (view w') \<longrightarrow>
      unat n = card {i. i < unat N \<and> phase (view w') i \<in> {Waiting, Started, TimedOut, Detached}} \<and>
      (\<forall>j < unat N. phase (view w') j \<notin> {Idle, Subscribed, Dead}))"
proof -
  obtain r w1 where 1: "Open_channel B conn w = (r, w1)" by fastforce
  note m1 = consumer_quiet_calls(1) [OF laws 1]
  obtain ch w2 where 2: "sync_on B deliveries ch N w1 = Some (Ret (n, None), w2)" "w' = Close_channel B ch w2"
    using p 1 by (auto simp: SyncRegistrations_def split: sum.splits option.splits prod.splits outcome.splits)
  have "consumer (view w1) = Collecting" using m1 idle by (simp add: waits_def)
  note m2 = sync_on_moves [OF laws 2(1) this]
  have m3: "waits N et (view w2) (view w')" using consumer_quiet_calls(2) [OF laws] 2(2) by simp
  have m: "sync_reaches N et (view w) (view w')" "consumer (view w') = Broadcast n"
    using m1 m2 m3 by (auto simp: waits_def)
  then have "sync_reaches N et sync_initial (view w')" using run by auto
  then have inv: "sync_inv N (view w')" "count_inv N (view w')"
    using count_inv_reaches [OF assms(1) et] by blast+
  from inv(1) m(2) have "\<not> closed (view w') \<Longrightarrow> j < unat N \<Longrightarrow> phase (view w') j \<notin> {Idle, Subscribed, Dead}" for j
    by (auto simp: sync_inv_def has_registered_iff)
  with m inv(2) show ?thesis by (simp add: count_inv_def succeeded_def)
qed

subsection \<open>A broker with one worker\<close>

text \<open>A broker whose world is the protocol itself: its calls are the steps, when they can happen.\<close>

definition stepping_broker :: "(unit, unit, unit, unit, sync_state) broker" where
  "stepping_broker =
     \<lparr>Dial = \<lambda>_ w. (Inr (), w), Close_connection = \<lambda>_ w. (None, w), Open_channel = \<lambda>_ w. (Inr (), w),
      Close_channel = \<lambda>_ w. w, QueueDeclare = \<lambda>_ q _ _ _ _ w. (Inr (if q = [] then ''amq.gen-1'' else q), w),
      QueueBind = \<lambda>_ _ _ _ _ w. if phase w 0 = Idle then (None, subscribed 0 w) else (Some (Err ''closed''), w),
      Consume = \<lambda>_ _ _ _ _ _ _ w. (Inr (), w),
      Publish = \<lambda>_ x _ _ _ m w.
        if x = [] then
          (if phase w 0 = Subscribed
           then (None, published 0 any_text [] (if Body m = [] then None else Some (Err (Body m))) w)
           else (Some (Err ''closed''), w))
        else
          (case wait_of 1 w of
             Some (Ret n) \<Rightarrow> if consumer w = Collecting then (None, broadcasted n w) else (Some (Err ''closed''), w)
           | _ \<Rightarrow> (Some (Err ''closed''), w))\<rparr>"

definition stepping_runtime :: "(unit, sync_state) runtime" where
  "stepping_runtime =
     \<lparr>Now = \<lambda>w. ((), w), Since = \<lambda>_ w. (0, w), UnixNano = \<lambda>_. 0, Sleep = \<lambda>_ w. w,
      Rand_Int63n = \<lambda>_ w. (0, w), Start_span = \<lambda>_ w. (True, w), Finish_span = \<lambda>w. w\<rparr>"

text \<open>While the worker waits, the consumer receives its registration and broadcasts.\<close>

definition stepping_wait :: "unit \<Rightarrow> go_int \<Rightarrow> sync_state \<Rightarrow> start_event \<times> sync_state" where
  "stepping_wait d t w =
     (if w = run_registered 1 then (StartDelivered, run_started 1) else (TimerFired, set_phase 0 TimedOut w))"

definition stepping_deliveries :: "unit \<Rightarrow> sync_state \<Rightarrow> (delivery list \<times> bool) \<times> sync_state" where
  "stepping_deliveries d w =
     (let w' = (case regqueue w of
                  [] \<Rightarrow> w
                | m # ms \<Rightarrow>
                    if consumer w = Collecting \<and> \<not> closed w \<and> wait_of 1 w = None
                    then w\<lparr>regqueue := ms, received := received w @ [m]\<rparr> else w)
      in ((received w', closed w'), w'))"

definition stepping_worker :: "(unit, unit, unit, unit, sync_state) Worker" where
  "stepping_worker = \<lparr>influxClient = None, writeAPI = None, w_conn = Some (), correlationID = [],
     username = [], w_config =
       \<lparr>Url = [], Bucket = [], OperationType = ''write'', BrokerURL = [], OperationPeriod = 1,
        OperationsPerStream = 1, NumWorkers = 1, OperationConfig = (),
        WriteOp = \<lambda>c w. (Ret None, c, w), ReadOp = \<lambda>c w. (Ret None, c, w),
        InitFunc = \<lambda>_ c w. (Ret ([], None), c, w), ShutdownFunc = None, DataSizeBytes = 0\<rparr>\<rparr>"

lemmas stepping_defs =
  stepping_broker_def stepping_runtime_def stepping_worker_def

lemma run_registered_reaches_started: "sync_reaches 1 any_text (run_registered 1) (run_started 1)"
proof -
  have "sync_step 1 any_text (run_registered 1) (run_received 1)"
    by (rule run_receive) simp
  then have "sync_reaches 1 any_text (run_registered 1) (run_received 1)" by blast
  then show ?thesis using run_steps by auto
qed

lemma stepping_wait_moves:
  "phase w 0 = Waiting \<Longrightarrow>
    moves 1 any_text 0 (event_phase (fst (stepping_wait d t w))) w (snd (stepping_wait d t w))"
  using run_registered_reaches_started sync_step.timeout [of 0 1 w any_text]
  by (auto simp: stepping_wait_def moves_def) (simp add: run_defs)

lemma stepping_worker_laws:
  "worker_laws 1 any_text 0 stepping_broker stepping_runtime stepping_wait (w_config stepping_worker) (\<lambda>w. w)"
proof -
  have same: "others 1 any_text 0 w w" for w by (simp add: moves_def)
  have bind: "phase w 0 = Idle \<Longrightarrow> moves 1 any_text 0 Subscribed w (subscribed 0 w)" for w
    using sync_step.subscribe [of 0 1 w any_text] by (auto simp: moves_def subscribed_def)
  have pub: "phase w 0 = Subscribed \<Longrightarrow>
      moves 1 any_text 0 (if e = None then Waiting else RegFailed) w (published 0 any_text [] e w)" for w e
    using sync_step.register [of 0 1 w any_text "[]" e] by (auto simp: moves_def published_def)
  show ?thesis
    using same bind pub [of _ None] pub [of _ "Some _"] stepping_wait_moves
    by (auto simp: worker_laws_def stepping_defs regQueueName_def split: if_splits)
qed

theorem Register_refines_witness:
  "\<exists>wk' w'. Register stepping_broker stepping_runtime any_text stepping_wait stepping_worker sync_initial =
      (Ret (None, wk'), w') \<and> phase w' 0 = Started \<and> phase w' 0 \<notin> {Idle, Subscribed, Dead}"
proof -
  have i: "phase sync_initial 0 = Idle" "phase (subscribed 0 sync_initial) 0 = Subscribed"
    by (simp_all add: run_defs)
  have "published 0 any_text [] None (subscribed 0 sync_initial) = run_registered 1"
    by (simp add: run_registered_def)
  then have "publish_registration stepping_broker stepping_runtime any_text stepping_wait () () [] None
      (subscribed 0 sync_initial) = (None, run_started 1)"
    using i(2) by (simp add: publish_registration_def stepping_defs errorText_def stepping_wait_def)
  then obtain wk' where r: "Register stepping_broker stepping_runtime any_text stepping_wait stepping_worker sync_initial =
      (Ret (None, wk'), run_started 1)"
    using i(1) by (simp add: Register_def Register_with_def stepping_defs Let_def)
  have "phase (run_started 1) 0 = Started" "\<not> closed (run_started 1)" "phase sync_initial 0 = Idle"
    by (simp_all add: run_defs)
  with Register_refines [OF zero_less_one_u32 any_text_some stepping_worker_laws rtranclp.rtrancl_refl _ r] r
  show ?thesis by auto
qed

lemma stepping_consumer_laws: "consumer_laws 1 any_text stepping_broker stepping_deliveries (\<lambda>w. w)"
proof -
  have del: "waits 1 any_text w w' \<and> received w' = ds \<and> closed w' = cl"
    if "stepping_deliveries d w = ((ds, cl), w')" for d w ds cl w'
    using that sync_step.receive [of w 1 _ _ any_text]
    by (auto simp: stepping_deliveries_def Let_def waits_def split: list.splits if_splits)
  have pub: "consumer w = Collecting \<Longrightarrow> wait_of 1 w = Some (Ret n) \<Longrightarrow> sync_reaches 1 any_text w (broadcasted n w)"
    for w n using sync_step.broadcast [of w 1 n any_text] by blast
  show ?thesis
    using del pub
    by (auto simp: consumer_laws_def stepping_defs waits_def regQueueName_def) (simp add: broadcasted_def)
qed

theorem Sync_refines_witness:
  "SyncRegistrations stepping_broker stepping_deliveries () 1 (run_registered 1) = Some (Ret (1, None), run_broadcast 1) \<and>
   consumer (run_broadcast 1) = Broadcast 1"
proof -
  have w: "wait_of 1 (run_registered 1) = None" by (rule run_wait) simp
  have q: "regqueue (run_registered 1) = [registration any_text [] None]" "received (run_registered 1) = []"
    "consumer (run_registered 1) = Collecting" "\<not> closed (run_registered 1)"
    by (simp_all add: run_defs)
  have d: "stepping_deliveries () (run_registered 1) = (([registration any_text [] None], False), run_received 1)"
    using w q by (simp add: stepping_deliveries_def run_received_def)
  have "waitForRegistrations [registration any_text [] None] False 1 = Some (Ret 1)" "consumer (run_received 1) = Collecting"
    using run_wait(2) q(3) by (simp_all add: wait_of_def run_received_def q)
  then have p: "SyncRegistrations stepping_broker stepping_deliveries () 1 (run_registered 1) =
      Some (Ret (1, None), run_broadcast 1)"
    using d run_wait(2)
    by (simp add: SyncRegistrations_def sync_on_def stepping_broker_def run_broadcast_def regQueueName_def)
  have "sync_reaches 1 any_text sync_initial (run_registered 1)" by (rule run_reaches_registered) simp
  from Sync_refines [OF zero_less_one_u32 any_text_some stepping_consumer_laws this q(3) p] p show ?thesis by simp
qed

end
