(* ===== verification/Job.thy ===== *)
theory Job
  imports BenchLedger SyncRefine
begin

section \<open>A pod of a job\<close>

text \<open>
  A job runs a pod for every worker. Here one pod is seen in a world that holds both the chain,
  by \<open>chain\<close>, and the start protocol, by \<open>view\<close>, among the steps the other pods and the consumer
  make: their commands in the chain (\<open>calls_under\<close>) and their steps of the protocol (\<open>others\<close>).
  What a pod relies on is what every other pod guarantees: the commands of a pod are under its
  own key, and what it does in the protocol are steps of it.
\<close>

subsection \<open>The steps of the others\<close>

interpretation protocol: environment "others N et i" for N et i
  by unfold_locales (auto simp: moves_def)

text \<open>
  The laws of \<open>SyncRefine\<close> for a pod of worker \<open>i\<close>: what it does before and after \<open>Register\<close>,
  its chaincode commands and the closing of its connection included, are no steps of its own in
  the protocol.
\<close>

definition pod_laws ::
  "uint32 \<Rightarrow> nat \<Rightarrow> ('conn, 'ch, 'd, 't, 'f, 'client, 'api, 'x, 'w) surroundings \<Rightarrow> ('w \<Rightarrow> sync_state) \<Rightarrow> bool" where
  "pod_laws N i S view \<longleftrightarrow>
     (\<forall>(c :: ('x operation_config, 'w) WorkerConfig) t k. InitFunc c = init_worker (s_host S) t k \<longrightarrow>
        worker_laws N (s_err_text S) i (s_broker S) (s_runtime S) (s_wait_start S) c view) \<and>
     runtime_among (others N (s_err_text S) i) view (s_runtime S) \<and>
     dial_among (others N (s_err_text S) i) view (s_broker S) \<and>
     influx_among (others N (s_err_text S) i) view (s_influx S) \<and>
     tracer_among (others N (s_err_text S) i) view S \<and>
     host_among (others N (s_err_text S) i) view (s_host S) \<and>
     (\<forall>cn w. others N (s_err_text S) i (view w) (view (snd (Close_connection (s_broker S) cn w))))"

subsection \<open>The operations come after the barrier\<close>

lemma pod_run_protocol:
  assumes r: "pod_run S c w wk w1 wk' w0 s w'" and load: "load_simi S t k ds = Inr c"
    and pod: "pod_laws N i S view" and et: "\<forall>e. s_err_text S e \<noteq> []" and idle: "phase (view w) i = Idle"
  shows "sync_reaches N (s_err_text S) (view w) (view w0) \<and> phase (view w0) i \<in> {Started, TimedOut, Detached} \<and>
    others N (s_err_text S) i (view w0) (view w')"
proof -
  let ?O = "others N (s_err_text S) i"
  have q: "tracer_among ?O view S" "runtime_among ?O view (s_runtime S)" "dial_among ?O view (s_broker S)"
    "influx_among ?O view (s_influx S)" "host_among ?O view (s_host S)"
    "?O (view w) (view (snd (Close_connection (s_broker S) cn w)))" for cn w
    using pod by (simp_all add: pod_laws_def)
  note i = load_simi_installs [OF load]
  have e: "?O (view w) (view w1)" and wk: "w_config wk = c"
    using protocol.pod_run_until_Register [OF r q(1-4)] by blast+
  have 2: "Register (s_broker S) (s_runtime S) (s_err_text S) (s_wait_start S) wk w1 = (Ret (None, wk'), w0)"
    and 3: "BenchOperation (s_runtime S) (s_err_text S) (w_config wk') w0 = Ret (None, s)"
    using r by (simp_all add: pod_run_def)
  have "worker_laws N (s_err_text S) i (s_broker S) (s_runtime S) (s_wait_start S) (w_config wk) view"
    using pod i(1) unfolding pod_laws_def wk by blast
  from Register_moves [OF this et 2] e idle
  have m: "sync_reaches N (s_err_text S) (view w1) (view w0)" "phase (view w0) i \<in> {Started, TimedOut, Detached}"
    by (auto simp: moves_def left_as_def)
  obtain cfg where wk': "w_config wk' = c\<lparr>OperationConfig := cfg\<rparr>" using Register_config [OF 2] wk by blast
  have "?O (view w0) (view (b_world s))"
    by (rule protocol.BenchOperation_among [where obs = view, OF q(2,5) _ _ 3]) (simp_all add: wk' i)
  moreover have "?O (view (b_world s)) (view w')"
    by (rule protocol.pod_run_after_benchmark [where obs = view, OF r _ q(1,4,6)]) (simp add: wk' i(4))
  ultimately have "?O (view w0) (view w')" by (rule protocol.E_trans)
  with e m show ?thesis by (auto simp: moves_def)
qed

text \<open>
  C3: the run of a pod of worker \<open>i\<close> that ends normally, cut at the world \<open>w0\<close> in which its own
  \<open>Register\<close> has returned. Up to there the chain has seen no command of the pod, only the
  others', and the protocol has gone on from \<open>w\<close>; the worker has taken the start command, or has
  waited until the timer or the end of its deliveries, and in the first case, unless the broker
  ended the consumer's deliveries early, every expected worker has registered. All the pod's own
  commands, under the key of its worker, and all its measured operations come after \<open>w0\<close>, while
  the protocol goes on from there without a further step of the pod's.
\<close>

theorem operations_after_barrier:
  assumes "0 < N" and et: "\<forall>e. s_err_text S e \<noteq> []"
    and run: "simi_main S numWriters dataSizeStr w = Ret (pts, w')"
    and worker: "\<And>cfg raw. Decode (s_decoder S) cfg raw \<noteq> Inr None"
    and among: "surroundings_among (calls_under stub commit nf K) chain S"
    and law: "cli_law_among (calls_under stub commit nf K) (s_host S) stub commit nf chain"
    and ledger: "ledger_laws (PutState stub) (GetState stub) commit state" and ok: "chain_ok commit state (chain w)"
    and pod: "pod_laws N i S view"
    and reach: "sync_reaches N (s_err_text S) sync_initial (view w)" and idle: "phase (view w) i = Idle"
  shows "\<exists>x t c a b wk w1 wk' w0 s.
    Atoi (getenv S ''JOB_COMPLETION_INDEX'') = Inr x \<and> t = operation_type x numWriters \<and>
    load_simi S t numWriters dataSizeStr = Inr c \<and> OperationConfig c = CC (Some a) \<and>
    NewWorker (s_broker S) (s_runtime S) (s_influx S) (s_lookup_env S) c (tracer_started S w) = Ret (Inr wk, w1) \<and>
    Register (s_broker S) (s_runtime S) (s_err_text S) (s_wait_start S) wk w1 = (Ret (None, wk'), w0) \<and>
    BenchOperation (s_runtime S) (s_err_text S) (w_config wk') w0 = Ret (None, s) \<and> b_points s = pts \<and>
    w' = tracer_closed S w (snd (Close_worker (s_broker S) (s_influx S)
      (wk'\<lparr>w_config := (w_config wk')\<lparr>OperationConfig := b_config s\<rparr>\<rparr>) (b_world s))) \<and>
    OperationConfig (w_config wk') = CC (Some b) \<and> same_worker t a b \<and>
    calls_under stub commit nf K (chain w) (chain w0) \<and>
    sync_reaches N (s_err_text S) (view w) (view w0) \<and> phase (view w0) i \<in> {Started, TimedOut, Detached} \<and>
    (phase (view w0) i = Started \<and> \<not> closed (view w0) \<longrightarrow>
      (\<forall>j < unat N. phase (view w0) j \<notin> {Idle, Subscribed, Dead})) \<and>
    calls_under stub commit nf (insert (Id b) K) (chain w0) (chain w') \<and>
    actions_cover (point_names pts) (actions_of (chain w0)) (actions_of (chain w')) \<and>
    sync_reaches N (s_err_text S) (view w0) (view w') \<and> phase (view w') i = phase (view w0) i"
proof -
  obtain x c wk w1 wk' w0 s where x: "Atoi (getenv S ''JOB_COMPLETION_INDEX'') = Inr x"
    and load: "load_simi S (operation_type x numWriters) numWriters dataSizeStr = Inr c"
    and r: "pod_run S c w wk w1 wk' w0 s w'" and pts: "b_points s = pts"
    using run by (rule simi_main_run)
  obtain a where a: "OperationConfig c = CC (Some a)" using load worker by (rule load_simi_worker)
  from pod_run_after [OF r load a among law ledger ok] obtain b where
    b: "OperationConfig (w_config wk') = CC (Some b)" "prepared (operation_type x numWriters) numWriters a b"
    and calls: "calls_under stub commit nf K (chain w) (chain w0)"
    and "chain_after K (DataSizeBytes c) stub commit nf state b (chain w0) (point_names pts) (chain w')"
    unfolding pts by blast
  then have after: "calls_under stub commit nf (insert (Id b) K) (chain w0) (chain w')"
    "actions_cover (point_names pts) (actions_of (chain w0)) (actions_of (chain w'))"
    by (simp_all add: chain_after_def)
  have p: "sync_reaches N (s_err_text S) (view w) (view w0)" "phase (view w0) i \<in> {Started, TimedOut, Detached}"
    "sync_reaches N (s_err_text S) (view w0) (view w')" "phase (view w') i = phase (view w0) i"
    using pod_run_protocol [OF r load pod et idle] by (simp_all add: moves_def)
  then have "sync_reaches N (s_err_text S) sync_initial (view w0)" using reach by auto
  note all = started_all_registered [OF assms(1) this, of i]
  note same = prepared_same [OF b(2)]
  note steps = r [unfolded pod_run_def]
  show ?thesis
    by (rule exI [of _ x], rule exI [of _ "operation_type x numWriters"], rule exI [of _ c], rule exI [of _ a],
        rule exI [of _ b], rule exI [of _ wk], rule exI [of _ w1], rule exI [of _ wk'], rule exI [of _ w0], rule exI [of _ s])
      (use x load a steps pts b(1) same calls p after all in blast)
qed

subsection \<open>A job with one worker\<close>

text \<open>
  The protocol of \<open>SyncRefine\<close> beside the chain of \<open>BenchLedger\<close>: a call of the first component
  leaves the second alone, and the other way round.
\<close>

definition in_fst :: "('a \<Rightarrow> 'r \<times> 'a) \<Rightarrow> 'a \<times> 'b \<Rightarrow> 'r \<times> ('a \<times> 'b)" where
  "in_fst f w = (fst (f (fst w)), snd (f (fst w)), snd w)"

definition in_snd :: "('b \<Rightarrow> 'r \<times> 'b) \<Rightarrow> 'a \<times> 'b \<Rightarrow> 'r \<times> ('a \<times> 'b)" where
  "in_snd f w = (fst (f (snd w)), fst w, snd (f (snd w)))"

lemma in_fst_simps [simp]:
  "fst (in_fst f w) = fst (f (fst w))" "snd (in_fst f w) = (snd (f (fst w)), snd w)"
  "in_fst f w = (r, w') \<longleftrightarrow> f (fst w) = (r, fst w') \<and> snd w' = snd w"
  by (auto simp: in_fst_def prod_eq_iff)

lemma in_snd_simps [simp]:
  "fst (in_snd f w) = fst (f (snd w))" "snd (in_snd f w) = (fst w, snd (f (snd w)))"
  "in_snd f w = (r, w') \<longleftrightarrow> f (snd w) = (r, snd w') \<and> fst w' = fst w"
  by (auto simp: in_snd_def prod_eq_iff)

type_synonym joint = "sync_state \<times> demo_chain"

definition joint_broker :: "(unit, unit, unit, unit, joint) broker" where
  "joint_broker =
     \<lparr>Dial = \<lambda>u. in_fst (Dial stepping_broker u), Close_connection = \<lambda>c. in_fst (Close_connection stepping_broker c),
      Open_channel = \<lambda>c. in_fst (Open_channel stepping_broker c),
      Close_channel = \<lambda>ch w. (Close_channel stepping_broker ch (fst w), snd w),
      QueueDeclare = \<lambda>ch q a b c d. in_fst (QueueDeclare stepping_broker ch q a b c d),
      QueueBind = \<lambda>ch q k x b. in_fst (QueueBind stepping_broker ch q k x b),
      Consume = \<lambda>ch q t a b c d. in_fst (Consume stepping_broker ch q t a b c d),
      Publish = \<lambda>ch x k a b m. in_fst (Publish stepping_broker ch x k a b m)\<rparr>"

definition joint_host :: "(unit, joint) host" where
  "joint_host =
     \<lparr>Open_file = \<lambda>p. in_snd (Open_file busy_host p), ReadAll = \<lambda>f. in_snd (ReadAll busy_host f),
      Unmarshal_peers = \<lambda>t. in_snd (Unmarshal_peers busy_host t), Rand_Int = \<lambda>n. in_snd (Rand_Int busy_host n),
      New_uuid = in_snd (New_uuid busy_host), RunCommand = \<lambda>c args. in_snd (RunCommand busy_host c args),
      ParseLevel = ParseLevel busy_host, SetLevel = \<lambda>l w. (fst w, SetLevel busy_host l (snd w))\<rparr>"

definition joint_surroundings :: "(unit, unit, unit, unit, unit, unit, unit, unit, joint) surroundings" where
  "joint_surroundings = (surroundings_of joint_host (Itoa 0) demo_worker)
     \<lparr>s_broker := joint_broker, s_err_text := any_text, s_wait_start := \<lambda>d t. in_fst (stepping_wait d t)\<rparr>"

lemma joint_fields [simp]:
  "s_broker joint_surroundings = joint_broker" "s_runtime joint_surroundings = demo_runtime"
  "s_host joint_surroundings = joint_host" "s_influx joint_surroundings = idle_influx"
  "s_err_text joint_surroundings = any_text" "s_wait_start joint_surroundings = (\<lambda>d t. in_fst (stepping_wait d t))"
  "s_decoder joint_surroundings = demo_decoder demo_worker"
  "getenv joint_surroundings ''JOB_COMPLETION_INDEX'' = Itoa 0"
  by (simp_all add: joint_surroundings_def surroundings_of_def getenv_def)

lemma joint_host_rand: "rand_law joint_host"
  using busy_host_rand by (auto simp: rand_law_def joint_host_def)

lemma joint_host_law: "cli_law_among busy_calls joint_host (demo_stub [] []) demo_commit (Err []) snd"
  using busy_host_law by (simp add: cli_law_among_def joint_host_def)

lemma joint_among: "surroundings_among busy_calls snd joint_surroundings"
  using calls_under_one [OF other_write_call, of "{''9''}"]
  by (simp add: surroundings_among_def joint_surroundings_def surroundings_of_def broker_among_def dial_among_def
      influx_among_def tracer_among_def runtime_among_def joint_broker_def demo_runtime_def idle_influx_def
      joint_host_def busy_host_def stepping_broker_def)

lemma joint_worker_laws:
  assumes "InitFunc c = init_worker joint_host t k"
  shows "worker_laws 1 any_text 0 joint_broker demo_runtime (\<lambda>d t. in_fst (stepping_wait d t)) c fst"
proof -
  have "others 1 any_text 0 (fst w) (fst (snd (snd (InitFunc c i x w))))" for i x w
  proof -
    have "\<forall>w. fst (snd (New_uuid joint_host w)) = fst w" by (simp add: joint_host_def)
    from nobody.init_worker_among [where obs = fst, of joint_host t k] this
    have "fst (snd (snd (InitFunc c i x w))) = fst w" unfolding assms by metis
    then show ?thesis by (simp add: moves_def)
  qed
  then show ?thesis
    using stepping_worker_laws
    by (simp add: worker_laws_def joint_broker_def demo_runtime_def moves_def)
qed

lemma joint_host_among: "host_among (others 1 any_text 0) fst joint_host"
  by (simp add: host_among_def joint_host_def moves_def)

lemma joint_pod_laws: "pod_laws 1 0 joint_surroundings fst"
proof -
  have "runtime_among (others 1 any_text 0) fst demo_runtime" "dial_among (others 1 any_text 0) fst joint_broker"
    "influx_among (others 1 any_text 0) fst idle_influx" "tracer_among (others 1 any_text 0) fst joint_surroundings"
    "others 1 any_text 0 (fst w) (fst (snd (Close_connection joint_broker cn w)))" for cn w
    by (simp_all add: runtime_among_def dial_among_def influx_among_def tracer_among_def demo_runtime_def joint_broker_def
        idle_influx_def joint_surroundings_def surroundings_of_def stepping_broker_def moves_def)
  then show ?thesis
    using joint_worker_laws joint_host_among unfolding pod_laws_def joint_fields by blast
qed

lemma joint_registers:
  assumes wk: "w_conn wk = Some ()" and c: "InitFunc (w_config wk) = init_worker joint_host ''write'' 1"
    "OperationConfig (w_config wk) = CC (Some a)"
  shows "\<exists>wk'. Register joint_broker demo_runtime any_text (\<lambda>d t. in_fst (stepping_wait d t)) wk (sync_initial, x) =
      (Ret (None, wk'), (run_started 1, other_write x)) \<and> w_config wk' = (w_config wk)\<lparr>OperationConfig := CC (Some a)\<rparr>"
proof -
  have i: "phase sync_initial 0 = Idle" "phase (subscribed 0 sync_initial) 0 = Subscribed"
    by (simp_all add: run_defs)
  have "published 0 any_text [] None (subscribed 0 sync_initial) = run_registered 1"
    by (simp add: run_registered_def)
  then show ?thesis
    using i wk c
    by (simp add: Register_def Register_with_def publish_registration_def joint_broker_def stepping_broker_def
        demo_runtime_def init_worker_def setupCCWorker_def joint_host_def busy_host_def errorText_def
        stepping_wait_def Let_def in_fst_def in_snd_def)
qed

lemma joint_returns: "\<exists>pts w'. simi_main joint_surroundings 1 [] (sync_initial, chain_start) = Ret (pts, w')"
proof -
  let ?S = joint_surroundings and ?w = "(sync_initial, chain_start)"
  obtain c where c: "load_simi ?S ''write'' 1 [] = Inr c" "OperationConfig c = CC (Some demo_worker)"
    "InitFunc c = init_worker joint_host ''write'' 1" "WriteOp c = write_operation joint_host 0"
    "ReadOp c = read_operation joint_host" "OperationPeriod c = 5"
    by (simp add: load_simi_def joint_surroundings_def surroundings_of_def LoadConfig_def getenv_def config_file_name_def
        influxTokEnv_def setupCustomChaincodes_def SetupSimi_def SetupReadOp_def SetupWriteOp_def demo_decoder_def
        zero_WorkerConfig_def)
  obtain wk where wk: "NewWorker (s_broker ?S) (s_runtime ?S) (s_influx ?S) (s_lookup_env ?S) c ?w = Ret (Inr wk, ?w)"
    "w_config wk = c" "w_conn wk = Some ()"
    by (simp add: NewWorker_def dial_loop.simps joint_surroundings_def surroundings_of_def idle_influx_def influxTokEnv_def
        joint_broker_def stepping_broker_def in_fst_def)
  from joint_registers [of wk demo_worker chain_start] wk c obtain wk' where reg:
    "Register (s_broker ?S) (s_runtime ?S) (s_err_text ?S) (s_wait_start ?S) wk ?w =
      (Ret (None, wk'), (run_started 1, other_write chain_start))"
    "w_config wk' = c\<lparr>OperationConfig := CC (Some demo_worker)\<rparr>"
    unfolding joint_fields by blast
  have "ready_cc joint_host 0 (OperationConfig (w_config wk'))" using joint_host_rand reg(2) by (simp add: ready_cc_def)
  with c reg(2) obtain s where s: "BenchOperation (s_runtime ?S) (s_err_text ?S) (w_config wk')
      (run_started 1, other_write chain_start) = Ret (None, s)"
    using cc.BenchOperation_ok [where conf = "w_config wk'" and n = 0 and h = joint_host and rt = "s_runtime ?S"] by fastforce
  with wk reg have "\<exists>w'. benchmarkOperation ?S c ?w = Ret (None, b_points s, w')"
    by (simp add: benchmarkOperation_def Let_def del: split_paired_Ex)
  then obtain w' where "benchmarkOperation ?S c ?w = Ret (None, b_points s, w')" by blast
  then have "runSimi ?S ''write'' 1 [] ?w = Ret (None, b_points s, w')"
    using c(1) by (simp add: runSimi_def joint_surroundings_def surroundings_of_def)
  then have "simi_main ?S 1 [] ?w = Ret (b_points s, w')"
    by (simp add: simi_main_def Atoi_Itoa operation_type_def)
  then show ?thesis by blast
qed

theorem operations_after_barrier_witness:
  "\<exists>pts w' (w0 :: joint) (b :: CCWorker). simi_main joint_surroundings 1 [] (sync_initial, chain_start) = Ret (pts, w') \<and>
    busy_calls chain_start (snd w0) \<and> phase (fst w0) 0 \<in> {Started, TimedOut, Detached} \<and> Id b = ''7'' \<and>
    calls_under (demo_stub [] []) demo_commit (Err []) {''7'', ''9''} (snd w0) (snd w') \<and>
    actions_cover (point_names pts) (actions_of (snd w0)) (actions_of (snd w')) \<and>
    sync_reaches 1 any_text (fst w0) (fst w')"
proof -
  let ?S = joint_surroundings
  obtain pts w' where run: "simi_main ?S 1 [] (sync_initial, chain_start) = Ret (pts, w')"
    using joint_returns by blast
  have et: "\<forall>e. s_err_text ?S e \<noteq> []" using any_text_some by simp
  have dec: "Decode (s_decoder ?S) cfg raw = Inr (Some demo_worker)" for cfg raw
    by (simp add: demo_decoder_def)
  then have worker: "Decode (s_decoder ?S) cfg raw \<noteq> Inr None" for cfg raw by simp
  have law: "cli_law_among busy_calls (s_host ?S) (demo_stub [] []) demo_commit (Err []) snd"
    using joint_host_law by simp
  have ok: "chain_ok demo_commit fst (snd (sync_initial, chain_start))" using busy_ok by simp
  have start: "sync_reaches 1 (s_err_text ?S) sync_initial (fst (sync_initial, chain_start))"
    "phase (fst (sync_initial, chain_start)) 0 = Idle" by (simp_all add: run_defs)
  from operations_after_barrier [OF zero_less_one_u32 et run worker joint_among law demo_laws ok joint_pod_laws start]
  obtain x t c a b and w0 :: joint where
    t: "Atoi (getenv ?S ''JOB_COMPLETION_INDEX'') = Inr x" "t = operation_type x 1" "load_simi ?S t 1 [] = Inr c"
      "OperationConfig c = CC (Some a)" "same_worker t a b"
    and w0: "busy_calls (snd (sync_initial, chain_start)) (snd w0)" "phase (fst w0) 0 \<in> {Started, TimedOut, Detached}"
      "calls_under (demo_stub [] []) demo_commit (Err []) (insert (Id b) {''9''}) (snd w0) (snd w')"
      "actions_cover (point_names pts) (actions_of (snd w0)) (actions_of (snd w'))"
      "sync_reaches 1 (s_err_text ?S) (fst w0) (fst w')"
    by (elim exE conjE) (rule that)
  have "t \<noteq> ''read''" using t(1,2) by (simp add: Atoi_Itoa operation_type_def)
  moreover obtain c0 where "loaded_from ?S t 1 c0 c" using load_simi_Inr [OF t(3)] by blast
  then have "a = demo_worker" using t(4) dec by (auto simp: loaded_from_def)
  ultimately have b: "Id b = ''7''" using t(5) by (simp add: same_worker_def demo_worker_def)
  with w0(3) have "calls_under (demo_stub [] []) demo_commit (Err []) {''7'', ''9''} (snd w0) (snd w')" by simp
  moreover have "busy_calls chain_start (snd w0)" "sync_reaches 1 any_text (fst w0) (fst w')" using w0(1,5) by simp_all
  ultimately show ?thesis using run w0(2,4) b
    by (intro exI [of _ pts] exI [of _ w'] exI [of _ w0] exI [of _ b] conjI)
qed

end
