(* ===== verification/PodOutcome.thy ===== *)
theory PodOutcome
  imports Pods
begin

section \<open>How a pod that writes can end\<close>

text \<open>
  \<open>Pods\<close> says when a pod cannot end normally. Here is the other side, for a pod that writes and
  whose configuration is sound: nothing in it panics, its benchmark never fails, and when the
  process ends with an error, the error is one of loading, connecting or registering.
\<close>

subsection \<open>Connecting and registering\<close>

lemma dial_loop_returns:
  "1 \<le> i \<Longrightarrow> i \<le> 10 \<Longrightarrow> \<exists>x. dial_loop B rt url i r w = Ret x"
proof (induction "10 - i" arbitrary: i r w)
  case 0
  then have "i = 10" by simp
  then show ?case by (simp add: dial_loop.simps [of B rt url 10])
next
  case (Suc k)
  then have i: "i < 10" by simp
  obtain d w1 where d: "Dial B url w = (d, w1)" by fastforce
  show ?case
  proof (cases d)
    case (Inr conn)
    then show ?thesis using d i by (simp add: dial_loop.simps [of B rt url i])
  next
    case (Inl err)
    let ?h = "go_half (backoff i)"
    obtain j w2 where j: "Rand_Int63n rt ?h w1 = (j, w2)" by fastforce
    have pos: "0 < sint ?h" using sint_half_backoff [OF Suc.prems(1) i] by simp
    have "k = 10 - (i + 1)" "1 \<le> i + 1" "i + 1 \<le> 10" using Suc.hyps(2) i by simp_all
    from Suc.hyps(1) [OF this] have "\<exists>x. dial_loop B rt url (i + 1) (Inl err) (Sleep rt (?h + j) w2) = Ret x" .
    then show ?thesis using d Inl i j pos by (simp add: dial_loop.simps [of B rt url i] Int63n_def Let_def)
  qed
qed

lemma NewWorker_returns:
  "\<exists>res w'. NewWorker B rt db env c w = Ret (res, w') \<and>
    (\<forall>wk. res = Inr wk \<longrightarrow> w_config wk = c \<and> w_conn wk \<noteq> None)"
proof -
  obtain d w1 where d: "dial_loop B rt (BrokerURL c) 1 (Inl (Err [])) w = Ret (d, w1)"
    using dial_loop_returns [of 1 B rt "BrokerURL c" "Inl (Err [])" w] by auto
  then show ?thesis
    by (cases d; cases "env influxTokEnv") (simp_all add: NewWorker_def split: prod.split)
qed

text \<open>A registration whose init function returns comes back, with the configuration that function left.\<close>

lemma Register_with_returns:
  assumes "\<forall>w. \<exists>x w'. InitFunc (w_config wk) (correlationID wk) (OperationConfig (w_config wk)) w = (Ret x, cfg, w')"
  shows "\<exists>err wk' w'. Register_with B rt et ws ch wk w = (Ret (err, wk'), w') \<and>
    (err = None \<longrightarrow> w_config wk' = (w_config wk)\<lparr>OperationConfig := cfg\<rparr>)"
proof -
  obtain r1 w1 where 1: "QueueDeclare B ch [] False True False False w = (r1, w1)" by fastforce
  show ?thesis
  proof (cases r1)
    case q: (Inr q)
    obtain r2 w2 where 2: "QueueBind B ch q ''start'' ''amq.topic'' False w1 = (r2, w2)" by fastforce
    show ?thesis
    proof (cases r2)
      case b: None
      obtain r3 w3 where 3: "Consume B ch q [] True True False False w2 = (r3, w3)" by fastforce
      show ?thesis
      proof (cases r3)
        case d: (Inr d)
        obtain n e w4 where "InitFunc (w_config wk) (correlationID wk) (OperationConfig (w_config wk)) w3 = (Ret (n, e), cfg, w4)"
          using assms by (metis surj_pair)
        with 1 2 3 q b d show ?thesis
          by (cases "publish_registration B rt et ws ch d (n @ correlationID wk) e w4") (simp add: Register_with_def Let_def)
      qed (use 1 2 3 q b in \<open>simp add: Register_with_def\<close>)
    qed (use 1 2 q in \<open>simp add: Register_with_def\<close>)
  qed (use 1 in \<open>simp add: Register_with_def\<close>)
qed

lemma Register_returns:
  assumes conn: "w_conn wk \<noteq> None"
    and init: "\<forall>w. \<exists>x w'. InitFunc (w_config wk) (correlationID wk) (OperationConfig (w_config wk)) w = (Ret x, cfg, w')"
  shows "\<exists>err wk' w'. Register B rt et ws wk w = (Ret (err, wk'), w') \<and>
    (err = None \<longrightarrow> w_config wk' = (w_config wk)\<lparr>OperationConfig := cfg\<rparr>)"
proof -
  obtain c where c: "w_conn wk = Some c" using conn by blast
  obtain r w1 where 1: "Open_channel B c w = (r, w1)" by fastforce
  show ?thesis
  proof (cases r)
    case (Inr ch)
    then show ?thesis using Register_with_returns [OF init, of B rt et ws ch w1] c 1 by (auto simp: Register_def)
  qed (use c 1 in \<open>simp add: Register_def\<close>)
qed

subsection \<open>The pod\<close>

text \<open>The errors with which such a pod can end: of \<open>main\<close>, \<open>runSimi\<close> and \<open>benchmarkOperation\<close>.\<close>

definition pod_errors :: "string list" where
  "pod_errors =
     [''could not parse Jaeger env vars: '', ''could not initialize jaeger tracer: '', ''error loading config: '',
      ''error loading data size: '', ''error parsing custom Simi configuration: '',
      ''failed to initialize benchmark worker: '', ''registration failed: '']"

definition pod_error :: "goerr \<Rightarrow> bool" where
  "pod_error e \<longleftrightarrow> e = Err ''Failed to parse ID'' \<or> (\<exists>m \<in> set pod_errors. \<exists>x. e = Wrap m x)"

lemma pod_error_wrap [simp]:
  "pod_error (Wrap ''could not parse Jaeger env vars: '' x)" "pod_error (Wrap ''could not initialize jaeger tracer: '' x)"
  "pod_error (Wrap ''error loading config: '' x)" "pod_error (Wrap ''error loading data size: '' x)"
  "pod_error (Wrap ''error parsing custom Simi configuration: '' x)"
  "pod_error (Wrap ''failed to initialize benchmark worker: '' x)" "pod_error (Wrap ''registration failed: '' x)"
  "pod_error (Err ''Failed to parse ID'')"
  by (simp_all add: pod_error_def pod_errors_def)

text \<open>What a sound configuration of a pod that writes is, and that the operating system gives a UUID.\<close>

definition sound_pod ::
  "('conn, 'ch, 'd, 't, 'f, 'client, 'api, 'x, 'w) surroundings \<Rightarrow> go_int \<Rightarrow> string \<Rightarrow> bool" where
  "sound_pod S numWriters dataSizeStr \<longleftrightarrow>
     (\<forall>cfg raw. Decode (s_decoder S) cfg raw \<noteq> Inr None) \<and> rand_law (s_host S) \<and>
     (\<forall>w. fst (New_uuid (s_host S) w) \<noteq> None) \<and>
     (\<forall>c. load_simi S ''write'' numWriters dataSizeStr = Inr c \<longrightarrow>
        0 \<le> sint (DataSizeBytes c) \<and> 0 < sint (OperationPeriod c))"

lemma load_simi_errors: "load_simi S t k ds = Inl e \<Longrightarrow> pod_error e"
  by (auto simp: load_simi_def Let_def split: prod.splits option.splits)

lemma benchmarkOperation_writer:
  assumes sound: "sound_pod S k ds" and load: "load_simi S ''write'' k ds = Inr c"
  shows "\<exists>err pts w'. benchmarkOperation S c w = Ret (err, pts, w') \<and> (\<forall>e. err = Some e \<longrightarrow> pod_error e)"
proof -
  obtain c0 where c0: "loaded_from S ''write'' k c0 c" using load_simi_Inr [OF load] by blast
  then obtain a where a: "OperationConfig c = CC (Some a)" "InitFunc c = init_worker (s_host S) ''write'' k"
    "WriteOp c = write_operation (s_host S) (DataSizeBytes c)" "ReadOp c = read_operation (s_host S)"
    using sound unfolding loaded_from_def sound_pod_def by (auto split: option.splits) (metis not_None_eq)
  have ok: "0 \<le> sint (DataSizeBytes c)" "0 < sint (OperationPeriod c)" "rand_law (s_host S)"
    using sound load by (auto simp: sound_pod_def)
  have init: "\<exists>x w'. InitFunc c i (OperationConfig c) w = (Ret x, CC (Some a), w')" for i w
  proof -
    obtain u w' where "New_uuid (s_host S) w = (Some u, w')"
      using sound by (cases "New_uuid (s_host S) w") (auto simp: sound_pod_def, metis fst_conv)
    then show ?thesis by (simp add: a init_worker_def setupCCWorker_def)
  qed
  from NewWorker_returns [of "s_broker S" "s_runtime S" "s_influx S" "s_lookup_env S" c w] obtain res w1 where
    1: "NewWorker (s_broker S) (s_runtime S) (s_influx S) (s_lookup_env S) c w = Ret (res, w1)"
    and wk: "\<forall>wk. res = Inr wk \<longrightarrow> w_config wk = c \<and> w_conn wk \<noteq> None"
    by blast
  show ?thesis
  proof (cases res)
    case (Inl e)
    then show ?thesis using 1 by (simp add: benchmarkOperation_def)
  next
    case (Inr wk)
    with wk have wk: "w_config wk = c" "w_conn wk \<noteq> None" by simp_all
    have "\<forall>w. \<exists>x w'. InitFunc (w_config wk) (correlationID wk) (OperationConfig (w_config wk)) w = (Ret x, CC (Some a), w')"
      using init wk(1) by simp
    from Register_returns [OF wk(2) this] obtain err wk' w2 where
      2: "Register (s_broker S) (s_runtime S) (s_err_text S) (s_wait_start S) wk w1 = (Ret (err, wk'), w2)"
      "err = None \<longrightarrow> w_config wk' = c\<lparr>OperationConfig := CC (Some a)\<rparr>"
      unfolding wk(1) by blast
    show ?thesis
    proof (cases err)
      case (Some e)
      then show ?thesis using 1 2 Inr by (simp add: benchmarkOperation_def)
    next
      case None
      with 2 have c': "w_config wk' = c\<lparr>OperationConfig := CC (Some a)\<rparr>" by simp
      have "ready_cc (s_host S) (DataSizeBytes c) (OperationConfig (w_config wk'))" using ok c' by (simp add: ready_cc_def)
      with a c' ok(2) obtain s where "BenchOperation (s_runtime S) (s_err_text S) (w_config wk') w2 = Ret (None, s)"
        using cc.BenchOperation_ok [where conf = "w_config wk'" and n = "DataSizeBytes c" and h = "s_host S"
            and rt = "s_runtime S"] by fastforce
      then show ?thesis using 1 2 Inr None by (simp add: benchmarkOperation_def Let_def)
    qed
  qed
qed

lemma runSimi_writer:
  assumes sound: "sound_pod S k ds"
  shows "\<exists>err pts w'. runSimi S ''write'' k ds w = Ret (err, pts, w') \<and> (\<forall>e. err = Some e \<longrightarrow> pod_error e)"
proof -
  have body: "\<exists>err pts w'. (case load_simi S ''write'' k ds of Inl err \<Rightarrow> Ret (Some err, [], w)
      | Inr c \<Rightarrow> benchmarkOperation S c w) = Ret (err, pts, w') \<and> (\<forall>e. err = Some e \<longrightarrow> pod_error e)" for w
    using benchmarkOperation_writer [OF sound] load_simi_errors by (auto split: sum.split)
  show ?thesis
  proof (cases "s_tracer_registered S w")
    case True
    then show ?thesis using body [of w] by (simp add: runSimi_def)
  next
    case False
    obtain e1 w1 where 1: "s_jaeger_env S w = (e1, w1)" by fastforce
    obtain e2 w2 where 2: "s_new_tracer S w1 = (e2, w2)" by fastforce
    show ?thesis
      using False 1 2 body [of w2] by (cases e1; cases e2) (auto simp: runSimi_def)
  qed
qed

text \<open>
  C15: a pod that is to write and is soundly configured never panics, whatever the broker, the
  command line, the tracer and the database do: it ends normally, or with an error of parsing
  its index, of the tracer, of loading the configuration, of connecting or of registering.
\<close>

theorem writer_pod_outcome:
  assumes sound: "sound_pod S numWriters dataSizeStr"
    and writer: "\<And>i. Atoi (getenv S ''JOB_COMPLETION_INDEX'') = Inr i \<Longrightarrow> sint i < sint numWriters"
  shows "(\<exists>pts w'. simi_main S numWriters dataSizeStr w = Ret (pts, w')) \<or>
    (\<exists>e. simi_main S numWriters dataSizeStr w = Fatal e \<and> pod_error e)"
proof (cases "Atoi (getenv S ''JOB_COMPLETION_INDEX'')")
  case (Inl e)
  then show ?thesis by (simp add: simi_main_def)
next
  case (Inr i)
  then have "operation_type i numWriters = ''write''" using writer by (simp add: operation_type_def)
  with Inr runSimi_writer [OF sound, of w] show ?thesis
    by (auto simp: simi_main_def split: option.split)
qed

text \<open>The broker of the witness cannot be reached, and the pod ends with the error of connecting.\<close>

definition unreachable :: "(unit, unit, unit, unit, unit, unit, unit, unit, string list list) surroundings" where
  "unreachable = (surroundings_of demo_host (Itoa 0) demo_worker)
     \<lparr>s_broker := (s_broker (surroundings_of demo_host (Itoa 0) demo_worker))\<lparr>Dial := \<lambda>_ w. (Inl (Err ''refused''), w)\<rparr>\<rparr>"

lemma unreachable_sound: "sound_pod unreachable 1 []"
proof -
  have "load_simi unreachable ''write'' 1 [] = Inr c \<Longrightarrow> DataSizeBytes c = 0 \<and> OperationPeriod c = 5" for c
    by (auto simp: load_simi_def unreachable_def surroundings_of_def LoadConfig_def getenv_def config_file_name_def
        influxTokEnv_def setupCustomChaincodes_def SetupSimi_def SetupReadOp_def SetupWriteOp_def demo_decoder_def
        zero_WorkerConfig_def)
  then show ?thesis
    using demo_host_rand
    by (auto simp: sound_pod_def) (simp_all add: unreachable_def surroundings_of_def demo_decoder_def demo_host_def)
qed

lemma dial_loop_refused:
  "(\<And>w. \<exists>e. Dial B url w = (Inl e, w)) \<Longrightarrow> dial_loop B rt url i (Inl e) w = Ret (d, w') \<Longrightarrow> isl d"
proof (induction "10 - i" arbitrary: i e w)
  case 0
  then show ?case by (auto simp: dial_loop.simps [of B rt url i])
next
  case (Suc k)
  then have i: "i < 10" by simp
  obtain err where d: "Dial B url w = (Inl err, w)" using Suc.prems(1) by blast
  obtain j w2 where j: "Rand_Int63n rt (go_half (backoff i)) w = (j, w2)" by fastforce
  have "dial_loop B rt url (i + 1) (Inl err) (Sleep rt (go_half (backoff i) + j) w2) = Ret (d, w')"
    using Suc.prems(2) i d j by (auto simp: dial_loop.simps [of B rt url i] Int63n_def Let_def split: if_splits)
  moreover have "k = 10 - (i + 1)" using Suc.hyps(2) by simp
  ultimately show ?case using Suc.hyps(1) Suc.prems(1) by blast
qed

lemma unreachable_fails: "\<not> returns (simi_main unreachable 1 [] w)"
proof
  assume "returns (simi_main unreachable 1 [] w)"
  then obtain pts w' where "simi_main unreachable 1 [] w = Ret (pts, w')" by (auto simp: returns_iff)
  then obtain t c where "benchmarkOperation unreachable c w = Ret (None, pts, w')"
    by (auto simp: simi_main_def runSimi_def unreachable_def surroundings_of_def split: sum.splits option.splits)
  then obtain wk w1 where n: "NewWorker (s_broker unreachable) (s_runtime unreachable) (s_influx unreachable)
      (s_lookup_env unreachable) c w = Ret (Inr wk, w1)"
    by (rule benchmarkOperation_None) blast
  then obtain d w2 where d: "dial_loop (s_broker unreachable) (s_runtime unreachable) (BrokerURL c) 1 (Inl (Err [])) w = Ret (d, w2)"
    by (auto simp: NewWorker_def)
  have "isl d" by (rule dial_loop_refused [OF _ d]) (simp add: unreachable_def)
  then obtain e where "d = Inl e" by (cases d) simp_all
  with n d show False by (simp add: NewWorker_def)
qed

theorem writer_pod_outcome_witness:
  "(\<exists>e. simi_main unreachable 1 [] [] = Fatal e \<and> pod_error e) \<and>
   returns (simi_main (surroundings_of demo_host (Itoa 0) demo_worker) 1 [] [])"
proof
  have "getenv unreachable ''JOB_COMPLETION_INDEX'' = Itoa 0"
    by (simp add: unreachable_def surroundings_of_def getenv_def)
  then have "Atoi (getenv unreachable ''JOB_COMPLETION_INDEX'') = Inr i \<Longrightarrow> sint i < sint (1 :: go_int)" for i
    by (simp add: Atoi_Itoa)
  with unreachable_sound show "\<exists>e. simi_main unreachable 1 [] [] = Fatal e \<and> pod_error e"
    using writer_pod_outcome [of unreachable 1 "[]" "[]"] unreachable_fails [of "[]"] by auto
  show "returns (simi_main (surroundings_of demo_host (Itoa 0) demo_worker) 1 [] [])"
    by (rule writer_returns [OF demo_host_rand]) (simp add: demo_host_def)
qed

end
