(* ===== verification/ResultPb.thy ===== *)
theory ResultPb
  imports Bench
begin

section \<open>The generated code of the result message (benchmark/result.pb.go)\<close>

text \<open>
  The message \<open>Result\<close> as the protobuf runtime sees it: the fields \<open>state\<close>, \<open>sizeCache\<close> and
  \<open>unknownFields\<close> beside those of \<open>Bench\<close>, the methods that hand the message to the runtime, and
  the variables of the file with their initialisation. The runtime (\<open>protoimpl\<close>) is outside the
  repository: whether it may use \<open>unsafe\<close>, its \<open>TypeBuilder\<close>, \<open>CompressGZIP\<close> and
  \<open>MessageStringOf\<close> are arguments.
\<close>

subsection \<open>The message\<close>

type_synonym byte = "8 word"

record 'mi message = Result +
  msg_state :: "'mi option"
  sizeCache :: "32 word"
  unknownFields :: "byte list"

definition zero_message :: "'mi message" where
  "zero_message = \<lparr>res_Elapsed = 0, res_Err = [], res_Min = 0, res_Max = 0, res_AvgTotal = 0, res_Start = 0,
     msg_state = None, sizeCache = 0, unknownFields = []\<rparr>"

text \<open>
  A message state holds a pointer to the message info, \<open>mi\<close> being that of the file. \<open>Reset\<close> of a
  nil pointer panics; \<open>ProtoReflect\<close> gives the message's own state, or else what the message
  info makes of the pointer.
\<close>

datatype 'mi reflection = OwnState | MessageOf 'mi "'mi message option"

definition Reset :: "bool \<Rightarrow> 'mi \<Rightarrow> 'mi message option \<Rightarrow> 'mi message outcome" where
  "Reset UnsafeEnabled mi x =
     (case x of
        None \<Rightarrow> Panic ''invalid memory address or nil pointer dereference''
      | Some _ \<Rightarrow>
          let x = zero_message in Ret (if UnsafeEnabled then x\<lparr>msg_state := Some mi\<rparr> else x))"

definition String_message :: "('mi message option \<Rightarrow> string) \<Rightarrow> 'mi message option \<Rightarrow> string" where
  "String_message MessageStringOf x = MessageStringOf x"

definition ProtoReflect ::
  "bool \<Rightarrow> 'mi \<Rightarrow> 'mi message option \<Rightarrow> 'mi reflection \<times> 'mi message option" where
  "ProtoReflect UnsafeEnabled mi x =
     (case x of
        Some m \<Rightarrow>
          if UnsafeEnabled
          then (OwnState, Some (if msg_state m = None then m\<lparr>msg_state := Some mi\<rparr> else m))
          else (MessageOf mi x, x)
      | None \<Rightarrow> (MessageOf mi None, None))"

subsection \<open>The variables of the file and their initialisation\<close>

definition file_result_proto_rawDesc :: "byte list" where
  "file_result_proto_rawDesc =
    [0x0a, 0x0c, 0x72, 0x65, 0x73, 0x75, 0x6c, 0x74, 0x2e, 0x70, 0x72, 0x6f, 0x74, 0x6f, 0x12, 0x09,
     0x62, 0x65, 0x6e, 0x63, 0x68, 0x6d, 0x61, 0x72, 0x6b, 0x22, 0x8b, 0x01, 0x0a, 0x06, 0x52, 0x65,
     0x73, 0x75, 0x6c, 0x74, 0x12, 0x18, 0x0a, 0x07, 0x65, 0x6c, 0x61, 0x70, 0x73, 0x65, 0x64, 0x18,
     0x01, 0x20, 0x01, 0x28, 0x03, 0x52, 0x07, 0x65, 0x6c, 0x61, 0x70, 0x73, 0x65, 0x64, 0x12, 0x10,
     0x0a, 0x03, 0x65, 0x72, 0x72, 0x18, 0x02, 0x20, 0x01, 0x28, 0x09, 0x52, 0x03, 0x65, 0x72, 0x72,
     0x12, 0x10, 0x0a, 0x03, 0x6d, 0x69, 0x6e, 0x18, 0x04, 0x20, 0x01, 0x28, 0x03, 0x52, 0x03, 0x6d,
     0x69, 0x6e, 0x12, 0x10, 0x0a, 0x03, 0x6d, 0x61, 0x78, 0x18, 0x05, 0x20, 0x01, 0x28, 0x03, 0x52,
     0x03, 0x6d, 0x61, 0x78, 0x12, 0x1b, 0x0a, 0x09, 0x61, 0x76, 0x67, 0x5f, 0x74, 0x6f, 0x74, 0x61,
     0x6c, 0x18, 0x06, 0x20, 0x01, 0x28, 0x03, 0x52, 0x08, 0x61, 0x76, 0x67, 0x54, 0x6f, 0x74, 0x61,
     0x6c, 0x12, 0x14, 0x0a, 0x05, 0x73, 0x74, 0x61, 0x72, 0x74, 0x18, 0x07, 0x20, 0x01, 0x28, 0x03,
     0x52, 0x05, 0x73, 0x74, 0x61, 0x72, 0x74, 0x42, 0x27, 0x5a, 0x25, 0x67, 0x69, 0x74, 0x68, 0x75,
     0x62, 0x2e, 0x63, 0x6f, 0x6d, 0x2f, 0x63, 0x6f, 0x72, 0x73, 0x68, 0x61, 0x74, 0x65, 0x63, 0x68,
     0x2f, 0x72, 0x6f, 0x62, 0x6f, 0x74, 0x2f, 0x62, 0x65, 0x6e, 0x63, 0x68, 0x6d, 0x61, 0x72, 0x6b,
     0x62, 0x06, 0x70, 0x72, 0x6f, 0x74, 0x6f, 0x33]"

datatype exported = StateOf | SizeCacheOf | UnknownFieldsOf

text \<open>The \<open>Exporter\<close> gives the address of a field of the message by its index, or nil.\<close>

definition Exporter_Result :: "nat \<Rightarrow> exported option" where
  "Exporter_Result i =
     (if i = 0 then Some StateOf else if i = 1 then Some SizeCacheOf else if i = 2 then Some UnknownFieldsOf else None)"

record 'mi message_info =
  Exporter :: "(nat \<Rightarrow> exported option) option"
  Content :: 'mi

record 'mi type_builder =
  GoPackagePath :: string
  RawDescriptor :: "byte list"
  NumEnums :: nat
  NumMessages :: nat
  NumExtensions :: nat
  NumServices :: nat
  GoTypes :: "string list"
  DependencyIndexes :: "32 word list"
  MessageInfos :: "'mi message_info list"

text \<open>The package variables; a nil slice is the empty list, \<open>rawDescOnce\<close> whether its function has run.\<close>

record ('fd, 'mi) pb_state =
  File_result_proto :: "'fd option"
  rawDesc :: "byte list"
  rawDescOnce :: bool
  rawDescData :: "byte list"
  msgTypes :: "'mi message_info list"
  goTypes :: "string list"
  depIdxs :: "32 word list"

definition pb_initial :: "'mi \<Rightarrow> ('fd, 'mi) pb_state" where
  "pb_initial zero =
     \<lparr>File_result_proto = None, rawDesc = file_result_proto_rawDesc, rawDescOnce = False,
      rawDescData = file_result_proto_rawDesc, msgTypes = [\<lparr>Exporter = None, Content = zero\<rparr>],
      goTypes = [''*benchmark.Result''], depIdxs = [0, 0, 0, 0, 0]\<rparr>"

definition rawDescGZIP :: "(byte list \<Rightarrow> byte list) \<Rightarrow> ('fd, 'mi) pb_state \<Rightarrow> byte list \<times> ('fd, 'mi) pb_state" where
  "rawDescGZIP CompressGZIP s =
     (let s = (if rawDescOnce s then s
               else s\<lparr>rawDescOnce := True, rawDescData := CompressGZIP (rawDescData s)\<rparr>)
      in (rawDescData s, s))"

definition Descriptor ::
  "(byte list \<Rightarrow> byte list) \<Rightarrow> ('fd, 'mi) pb_state \<Rightarrow> (byte list \<times> nat list) \<times> ('fd, 'mi) pb_state" where
  "Descriptor CompressGZIP s = (case rawDescGZIP CompressGZIP s of (d, s) \<Rightarrow> ((d, [0]), s))"

text \<open>
  \<open>Build\<close> makes the file descriptor and fills the message infos it is given; \<open>'w\<close> is the
  registry of the runtime, which it changes. \<open>pkg\<close> is the path of the package.
\<close>

definition file_result_proto_init ::
  "bool \<Rightarrow> string \<Rightarrow> ('mi type_builder \<Rightarrow> 'w \<Rightarrow> ('fd \<times> 'mi message_info list) \<times> 'w) \<Rightarrow>
   ('fd, 'mi) pb_state \<Rightarrow> 'w \<Rightarrow> ('fd, 'mi) pb_state \<times> 'w" where
  "file_result_proto_init UnsafeEnabled pkg Build s w =
     (if File_result_proto s \<noteq> None then (s, w)
      else
        let s = (if \<not> UnsafeEnabled
                 then s\<lparr>msgTypes := (msgTypes s)[0 := (msgTypes s ! 0)\<lparr>Exporter := Some Exporter_Result\<rparr>]\<rparr> else s)
        in case Build
             \<lparr>GoPackagePath = pkg, RawDescriptor = rawDesc s, NumEnums = 0, NumMessages = 1, NumExtensions = 0,
              NumServices = 0, GoTypes = goTypes s, DependencyIndexes = depIdxs s, MessageInfos = msgTypes s\<rparr> w of
             ((out, infos), w) \<Rightarrow>
               (s\<lparr>msgTypes := infos, File_result_proto := Some out, rawDesc := [], goTypes := [], depIdxs := []\<rparr>, w))"

subsection \<open>The methods\<close>

text \<open>
  \<open>Reset\<close> makes a message every getter of which gives the zero value; reflecting on it leaves
  its fields alone and gives its own state, which then holds the message info of the file,
  exactly where the runtime may use \<open>unsafe\<close>. A nil message is never changed, and resetting it
  panics.
\<close>

lemma ProtoReflect_keeps:
  "ProtoReflect u mi x = (r, y) \<Longrightarrow> map_option Result.truncate y = map_option Result.truncate x"
  by (auto simp: ProtoReflect_def Result.defs split: option.splits if_splits)

lemma Reset_reflect:
  "(x = None \<longrightarrow> (\<exists>e. Reset u mi x = Panic e)) \<and>
   (x \<noteq> None \<longrightarrow> (\<exists>y z. Reset u mi x = Ret y \<and> ProtoReflect u mi (Some y) = (z, Some y) \<and>
      (z = OwnState \<longleftrightarrow> u) \<and> (u \<longrightarrow> msg_state y = Some mi) \<and>
      (let m = Some (Result.truncate y) in
         GetElapsed m = 0 \<and> GetErr m = [] \<and> GetMin m = 0 \<and> GetMax m = 0 \<and> GetAvgTotal m = 0 \<and> GetStart m = 0)))"
  by (cases x)
    (auto simp: Reset_def ProtoReflect_def zero_message_def Result.defs Let_def GetElapsed_def GetErr_def GetMin_def
      GetMax_def GetAvgTotal_def GetStart_def)

subsection \<open>Initialisation\<close>

text \<open>
  The variables after any calls of the initialisation and of \<open>Descriptor\<close>: before the first
  initialisation they are as declared; the data of the descriptor is compressed once.
\<close>

datatype pb_call = CallInit | CallDescriptor

fun pb_step ::
  "bool \<Rightarrow> string \<Rightarrow> ('mi type_builder \<Rightarrow> 'w \<Rightarrow> ('fd \<times> 'mi message_info list) \<times> 'w) \<Rightarrow> (byte list \<Rightarrow> byte list) \<Rightarrow>
   pb_call \<Rightarrow> ('fd, 'mi) pb_state \<times> 'w \<Rightarrow> (byte list \<times> nat list) list \<times> ('fd, 'mi) pb_state \<times> 'w" where
  "pb_step u pkg Build gzip CallInit (s, w) = ([], file_result_proto_init u pkg Build s w)"
| "pb_step u pkg Build gzip CallDescriptor (s, w) =
     (case Descriptor gzip s of (d, s) \<Rightarrow> ([d], (s, w)))"

fun pb_run where
  "pb_run u pkg Build gzip [] x = ([], x)"
| "pb_run u pkg Build gzip (c # cs) x =
     (case pb_step u pkg Build gzip c x of (ds, y) \<Rightarrow>
        (case pb_run u pkg Build gzip cs y of (ds', z) \<Rightarrow> (ds @ ds', z)))"

text \<open>What the first initialisation gives the builder.\<close>

definition first_build :: "bool \<Rightarrow> string \<Rightarrow> 'mi \<Rightarrow> 'mi type_builder" where
  "first_build u pkg zero =
     \<lparr>GoPackagePath = pkg, RawDescriptor = file_result_proto_rawDesc, NumEnums = 0, NumMessages = 1, NumExtensions = 0,
      NumServices = 0, GoTypes = [''*benchmark.Result''], DependencyIndexes = [0, 0, 0, 0, 0],
      MessageInfos = [\<lparr>Exporter = (if u then None else Some Exporter_Result), Content = zero\<rparr>]\<rparr>"

definition pb_inv ::
  "bool \<Rightarrow> string \<Rightarrow> ('mi type_builder \<Rightarrow> 'w \<Rightarrow> ('fd \<times> 'mi message_info list) \<times> 'w) \<Rightarrow> (byte list \<Rightarrow> byte list) \<Rightarrow>
   'mi \<Rightarrow> 'w \<Rightarrow> bool \<Rightarrow> ('fd, 'mi) pb_state \<times> 'w \<Rightarrow> bool" where
  "pb_inv u pkg Build gzip zero w0 called x \<longleftrightarrow>
     (case x of (s, w) \<Rightarrow>
        rawDescData s = (if rawDescOnce s then gzip file_result_proto_rawDesc else file_result_proto_rawDesc) \<and>
        (if called
         then File_result_proto s = Some (fst (fst (Build (first_build u pkg zero) w0))) \<and>
              w = snd (Build (first_build u pkg zero) w0)
         else File_result_proto s = None \<and> w = w0 \<and> rawDesc s = file_result_proto_rawDesc \<and>
              msgTypes s = [\<lparr>Exporter = None, Content = zero\<rparr>] \<and> goTypes s = [''*benchmark.Result''] \<and>
              depIdxs s = [0, 0, 0, 0, 0]))"

lemma pb_inv_step:
  assumes "pb_inv u pkg Build gzip zero w0 called x" and "pb_step u pkg Build gzip c x = (ds, y)"
  shows "pb_inv u pkg Build gzip zero w0 (called \<or> c = CallInit) y \<and>
    ds = (if c = CallDescriptor then [(gzip file_result_proto_rawDesc, [0])] else [])"
proof -
  obtain s w where x: "x = (s, w)" by (cases x)
  show ?thesis
  proof (cases c)
    case CallInit
    then show ?thesis
      using assms unfolding x
      by (cases called)
        (auto simp: pb_inv_def file_result_proto_init_def first_build_def Let_def split: prod.splits)
  next
    case CallDescriptor
    then show ?thesis
      using assms unfolding x
      by (cases "rawDescOnce s") (auto simp: pb_inv_def Descriptor_def rawDescGZIP_def Let_def)
  qed
qed

lemma pb_inv_run:
  "pb_inv u pkg Build gzip zero w0 called x \<Longrightarrow> pb_run u pkg Build gzip cs x = (ds, y) \<Longrightarrow>
    pb_inv u pkg Build gzip zero w0 (called \<or> CallInit \<in> set cs) y \<and>
    ds = replicate (count_list cs CallDescriptor) (gzip file_result_proto_rawDesc, [0])"
proof (induction cs arbitrary: called x ds y)
  case (Cons c cs)
  obtain d1 x1 where 1: "pb_step u pkg Build gzip c x = (d1, x1)" by (rule prod.exhaust)
  obtain d2 where 2: "pb_run u pkg Build gzip cs x1 = (d2, y)" "ds = d1 @ d2"
    using Cons.prems(2) 1 by (auto split: prod.splits)
  note step = pb_inv_step [OF Cons.prems(1) 1]
  from Cons.IH [OF conjunct1 [OF step] 2(1)] step 2(2) show ?case
    by (cases c) auto
qed simp

text \<open>
  C36: in whatever order and however often the file is initialised and the descriptor asked for,
  the descriptor is always the compressed raw descriptor, although the initialisation drops the
  latter, and the file is built once, with the raw descriptor intact: later initialisations
  change neither the file nor the registry.
\<close>

theorem init_once:
  assumes "pb_run u pkg Build gzip cs (pb_initial zero, w) = (ds, s, w')"
  shows "ds = replicate (count_list cs CallDescriptor) (gzip file_result_proto_rawDesc, [0]) \<and>
    (if CallInit \<in> set cs
     then File_result_proto s = Some (fst (fst (Build (first_build u pkg zero) w))) \<and>
       w' = snd (Build (first_build u pkg zero) w)
     else File_result_proto s = None \<and> w' = w)"
proof -
  have "pb_inv u pkg Build gzip zero w False (pb_initial zero, w)" by (simp add: pb_inv_def pb_initial_def)
  from pb_inv_run [OF this assms] show ?thesis by (auto simp: pb_inv_def)
qed

text \<open>A registry that counts the files.\<close>

definition counting_build :: "unit type_builder \<Rightarrow> nat \<Rightarrow> (byte list \<times> unit message_info list) \<times> nat" where
  "counting_build tb n = ((RawDescriptor tb, MessageInfos tb), Suc n)"

theorem init_once_witness:
  "\<exists>ds s. pb_run True [] counting_build rev [CallDescriptor, CallInit, CallInit, CallDescriptor] (pb_initial (), 0) = (ds, s, 1) \<and>
    ds = [(rev file_result_proto_rawDesc, [0]), (rev file_result_proto_rawDesc, [0])]"
proof -
  obtain ds s w' where r: "pb_run True [] counting_build rev [CallDescriptor, CallInit, CallInit, CallDescriptor] (pb_initial (), 0)
    = (ds, s, w')" by (metis surj_pair)
  from init_once [OF r] r show ?thesis by (simp add: counting_build_def numeral_2_eq_2)
qed

end
