(* ===== verification/Isolation.thy ===== *)
theory Isolation
  imports Chaincode
begin

section \<open>Workers with different keys do not meet\<close>

text \<open>
  Transactions of several workers reach the chaincode in some order. Here a history of
  transactions is compared with the part of it that is about one key: leaving out what the other
  workers do changes neither the answers for the key nor its experiment.
\<close>

subsection \<open>Transactions about a key\<close>

text \<open>The key of a transaction is its first argument.\<close>

definition about_key :: "string \<Rightarrow> transaction \<Rightarrow> bool" where
  "about_key k t \<longleftrightarrow> (case t of (f, args, elapsed) \<Rightarrow> args \<noteq> [] \<and> hd args = k)"

text \<open>
  Whether the peer takes a write depends on its key and value, and what a read gives on the
  committed value of its key.
\<close>

definition keyed ::
  "(string \<Rightarrow> string \<Rightarrow> 'w \<Rightarrow> goerr option \<times> 'w) \<Rightarrow> (string \<Rightarrow> 'w \<Rightarrow> string res \<times> 'w) \<Rightarrow>
   ('w \<Rightarrow> string \<Rightarrow> string) \<Rightarrow> bool" where
  "keyed put get state \<longleftrightarrow>
     (\<forall>k v w w'. fst (put k v w) = fst (put k v w')) \<and>
     (\<forall>k w w'. state w k = state w' k \<longrightarrow> fst (get k w) = fst (get k w'))"

definition text_of :: "('w \<Rightarrow> string \<Rightarrow> string) \<Rightarrow> string \<Rightarrow> 'w \<Rightarrow> string" where
  "text_of state k w = state w (experimentKeyPrefix @ k)"

lemma experiments_text: "text_of state k w = text_of state k v \<Longrightarrow> experiments (state w) k = experiments (state v) k"
  by (simp add: text_of_def experiments_def)

lemma write_value:
  assumes "ledger_laws (PutState stub) (GetState stub) commit state" and "status_ok (fst (ExperimentWrite stub args w))"
  shows "text_of state k (commit (snd (ExperimentWrite stub args w))) =
    (case parseExperimentWriteArgs args of
       Inr (k', n, d) \<Rightarrow> if k' = k then marshal \<lparr>Data = Some d, Counter = n\<rparr> else text_of state k (commit w)
     | Inl _ \<Rightarrow> text_of state k (commit w))"
  using assms(2)
  by (rule ExperimentWrite_put) (auto simp: ledger_put [OF assms(1)] text_of_def)

lemma answer_other:
  assumes laws: "ledger_laws (PutState stub) (GetState stub) commit state"
    and f: "GetFunctionAndParameters stub = (f, args)" and other: "\<not> about_key k (f, args, e)"
    and ok: "status_ok (fst (answer stub w))"
  shows "text_of state k (commit (snd (answer stub w))) = text_of state k (commit w)"
proof (cases "f = ''experimentWrite''")
  case True
  then have "status_ok (fst (ExperimentWrite stub args w))" "snd (answer stub w) = snd (ExperimentWrite stub args w)"
    using f ok by (simp_all add: answer_def)
  then show ?thesis
    using write_value [OF laws, of args w k] other
    by (auto simp: about_key_def parseExperimentWriteArgs_Inr_iff split: sum.splits)
next
  case False
  then show ?thesis
    using f ExperimentRead_refines(1) [OF laws] by (simp add: answer_def text_of_def)
qed

lemma read_answer:
  "fst (ExperimentRead stub [k] w) =
    (case fst (GetState stub (experimentKeyPrefix @ k) w) of
       Inl err \<Rightarrow> shim_Error (Wrap ''failed to read ExperimentData from ledger: '' err)
     | Inr raw \<Rightarrow>
         (case unmarshal raw of
            Inl err \<Rightarrow> shim_Error (Wrap ''failed to unmarshal ExperimentData: '' err)
          | Inr d \<Rightarrow> shim_Success None))"
  by (simp add: ExperimentRead_def parseExperimentReadArgs_def split: prod.splits sum.splits)

text \<open>Two worlds with the same text under the key give the same answer and the same text again.\<close>

lemma answer_same:
  assumes laws: "ledger_laws (PutState stub) (GetState stub) commit state"
    and keyed: "keyed (PutState stub) (GetState stub) state"
    and f: "GetFunctionAndParameters stub = (f, args)" and k: "about_key k (f, args, e)"
    and same: "text_of state k w = text_of state k v"
  shows "fst (answer stub w) = fst (answer stub v)"
proof -
  have "fst (ExperimentWrite stub args w) = fst (ExperimentWrite stub args v)"
  proof (cases "parseExperimentWriteArgs args")
    case (Inr p)
    obtain k' n d where p: "p = (k', n, d)" by (cases p)
    let ?put = "PutState stub (experimentKeyPrefix @ k') (marshal \<lparr>Data = Some d, Counter = n\<rparr>)"
    have "fst (?put w) = fst (?put v)" using keyed by (simp add: keyed_def)
    then show ?thesis
      by (cases "?put w"; cases "?put v") (simp add: Inr p ExperimentWrite_def Let_def split: option.split)
  qed (simp add: ExperimentWrite_def)
  moreover have "fst (ExperimentRead stub args w) = fst (ExperimentRead stub args v)"
  proof (cases "args = [k]")
    case True
    have "fst (GetState stub (experimentKeyPrefix @ k) w) = fst (GetState stub (experimentKeyPrefix @ k) v)"
      using keyed same unfolding keyed_def text_of_def by blast
    then show ?thesis by (simp only: True read_answer)
  next
    case False
    with k have "length args \<noteq> 1" by (auto simp: about_key_def length_Suc_conv)
    then show ?thesis by (simp add: ExperimentRead_def parseExperimentReadArgs_def)
  qed
  ultimately show ?thesis using f by (simp add: answer_def)
qed

lemma answer_same_text:
  assumes laws: "ledger_laws (PutState stub) (GetState stub) commit state"
    and f: "GetFunctionAndParameters stub = (f, args)"
    and "status_ok (fst (answer stub w))" and "status_ok (fst (answer stub v))"
    and "text_of state k (commit w) = text_of state k (commit v)"
  shows "text_of state k (commit (snd (answer stub w))) = text_of state k (commit (snd (answer stub v)))"
proof (cases "f = ''experimentWrite''")
  case True
  then show ?thesis
    using assms(3-5) f write_value [OF laws, of args w k] write_value [OF laws, of args v k]
    by (simp add: answer_def split: sum.splits)
next
  case False
  then show ?thesis
    using assms(5) f ExperimentRead_refines(1) [OF laws] by (simp add: answer_def text_of_def)
qed

subsection \<open>Histories\<close>

text \<open>What a transaction is answered, and the world it leaves.\<close>

definition reply :: "goerr \<Rightarrow> 'w ChaincodeStub \<Rightarrow> transaction \<Rightarrow> 'w \<Rightarrow> Response" where
  "reply notFound stub t w =
     (case t of (f, args, elapsed) \<Rightarrow>
        if f \<in> known_functions then fst (answer (stub\<lparr>GetFunctionAndParameters := (f, args)\<rparr>) w)
        else shim_Error notFound)"

definition after :: "goerr \<Rightarrow> ('w \<Rightarrow> 'w) \<Rightarrow> 'w ChaincodeStub \<Rightarrow> transaction \<Rightarrow> 'w \<Rightarrow> 'w" where
  "after notFound commit stub t w =
     (if status_ok (reply notFound stub t w)
      then commit (snd (answer (stub\<lparr>GetFunctionAndParameters := (fst t, fst (snd t))\<rparr>) w)) else w)"

lemma after_committed:
  "ledger_laws (PutState stub) (GetState stub) commit state \<Longrightarrow> committed commit state w \<Longrightarrow>
    committed commit state (after notFound commit stub t w)"
  using committed_commit by (auto simp: after_def)

lemma after_other:
  assumes laws: "ledger_laws (PutState stub) (GetState stub) commit state" and "committed commit state w"
    and "\<not> about_key k t"
  shows "text_of state k (after notFound commit stub t w) = text_of state k w"
proof -
  obtain f args e where t: "t = (f, args, e)" by (cases t)
  let ?stub = "stub\<lparr>GetFunctionAndParameters := (f, args)\<rparr>"
  have laws': "ledger_laws (PutState ?stub) (GetState ?stub) commit state" using laws by simp
  show ?thesis
    using answer_other [OF laws' _ assms(3) [unfolded t], of w] assms(2)
    by (simp add: after_def reply_def t committed_def) (simp add: text_of_def)
qed

lemma after_same:
  assumes laws: "ledger_laws (PutState stub) (GetState stub) commit state"
    and keyed: "keyed (PutState stub) (GetState stub) state" and "about_key k t"
    and "committed commit state w" and "committed commit state v" and same: "text_of state k w = text_of state k v"
  shows "reply notFound stub t w = reply notFound stub t v"
    and "text_of state k (after notFound commit stub t w) = text_of state k (after notFound commit stub t v)"
proof -
  obtain f args e where t: "t = (f, args, e)" by (cases t)
  let ?stub = "stub\<lparr>GetFunctionAndParameters := (f, args)\<rparr>"
  have laws': "ledger_laws (PutState ?stub) (GetState ?stub) commit state"
    and keyed': "keyed (PutState ?stub) (GetState ?stub) state" using laws keyed by simp_all
  have f: "GetFunctionAndParameters ?stub = (f, args)" by simp
  have "fst (answer ?stub w) = fst (answer ?stub v)"
    by (rule answer_same [OF laws' keyed' f assms(3) [unfolded t] same])
  then show r: "reply notFound stub t w = reply notFound stub t v" by (simp add: reply_def t)
  have "text_of state k (commit w) = text_of state k (commit v)"
    using same assms(4,5) by (simp add: committed_def text_of_def)
  with r same show "text_of state k (after notFound commit stub t w) = text_of state k (after notFound commit stub t v)"
    using answer_same_text [OF laws' f, of w v k] by (auto simp: after_def reply_def t split: if_splits)
qed

context metrics_manager begin

lemma submit_reply:
  assumes "good (Metrics cc)"
  shows "\<exists>cc'. submit record_action notFound commit stub t cc w =
      Ret (reply notFound stub t w, cc', after notFound commit stub t w) \<and> good (Metrics cc')"
proof -
  obtain f args e where t: "t = (f, args, e)" by (cases t)
  let ?stub = "stub\<lparr>GetFunctionAndParameters := (f, args)\<rparr>"
  have f: "GetFunctionAndParameters ?stub = (f, args)" by simp
  from Invoke_returns [OF assms f, of notFound e w] show ?thesis
    by (auto simp: submit_def t reply_def after_def)
qed

lemma submit_all_isolated:
  assumes laws: "ledger_laws (PutState stub) (GetState stub) commit state"
    and keyed: "keyed (PutState stub) (GetState stub) state"
  shows "good (Metrics cc) \<Longrightarrow> good (Metrics cc2) \<Longrightarrow> committed commit state w \<Longrightarrow> committed commit state v \<Longrightarrow>
    text_of state k w = text_of state k v \<Longrightarrow>
    \<exists>rs cc' w' rs2 cc2' v'.
      submit_all record_action notFound commit stub ts cc w = Ret (rs, cc', w') \<and>
      submit_all record_action notFound commit stub (filter (about_key k) ts) cc2 v = Ret (rs2, cc2', v') \<and>
      rs2 = map snd (filter (\<lambda>(t, r). about_key k t) (zip ts rs)) \<and>
      text_of state k w' = text_of state k v'"
proof (induction ts arbitrary: cc cc2 w v)
  case (Cons t ts)
  let ?w = "after notFound commit stub t w" and ?v = "after notFound commit stub t v"
  obtain cc1 where 1: "submit record_action notFound commit stub t cc w = Ret (reply notFound stub t w, cc1, ?w)"
    "good (Metrics cc1)" using submit_reply [OF Cons.prems(1), where commit = commit and stub = stub and notFound = notFound and t = t and w = w] by blast
  obtain cc3 where 3: "submit record_action notFound commit stub t cc2 v = Ret (reply notFound stub t v, cc3, ?v)"
    "good (Metrics cc3)" using submit_reply [OF Cons.prems(2), where commit = commit and stub = stub and notFound = notFound and t = t and w = v] by blast
  note c = after_committed [OF laws Cons.prems(3), of notFound t] after_committed [OF laws Cons.prems(4), of notFound t]
  show ?case
  proof (cases "about_key k t")
    case True
    note s = after_same [OF laws keyed True Cons.prems(3-5), of notFound]
    from Cons.IH [OF 1(2) 3(2) c s(2)] 1(1) 3(1) s(1) True show ?thesis by auto
  next
    case False
    have "text_of state k ?w = text_of state k v"
      using after_other [OF laws Cons.prems(3) False] Cons.prems(5) by simp
    from Cons.IH [OF 1(2) Cons.prems(2) c(1) Cons.prems(4) this] 1(1) False show ?thesis by auto
  qed
qed simp

end

text \<open>
  C8: workers with different keys do not meet on the ledger: in any order of any transactions,
  those about one key are answered as if the others had not been made, and the key's experiment
  at the end is the one they alone leave.
\<close>

theorem workers_isolated:
  assumes "ledger_laws (PutState stub) (GetState stub) commit state" and "keyed (PutState stub) (GetState stub) state"
    and "wf_metrics (Metrics cc)" and "committed commit state w"
  shows "\<exists>rs cc' w' rs1 cc1 w1.
    submit_all RecordChaincodeActionInvocation notFound commit stub ts cc w = Ret (rs, cc', w') \<and>
    submit_all RecordChaincodeActionInvocation notFound commit stub (filter (about_key k) ts) cc w =
      Ret (rs1, cc1, w1) \<and>
    rs1 = map snd (filter (\<lambda>(t, r). about_key k t) (zip ts rs)) \<and>
    experiments (state w') k = experiments (state w1) k"
proof -
  obtain rs cc' w' rs1 cc1 w1 where
    "submit_all RecordChaincodeActionInvocation notFound commit stub ts cc w = Ret (rs, cc', w')"
    "submit_all RecordChaincodeActionInvocation notFound commit stub (filter (about_key k) ts) cc w =
      Ret (rs1, cc1, w1)"
    "rs1 = map snd (filter (\<lambda>(t, r). about_key k t) (zip ts rs))" "text_of state k w' = text_of state k w1"
    using prometheus.submit_all_isolated [OF assms(1,2,3,3,4,4) refl, where k = k and notFound = notFound and ts = ts]
    by blast
  then show ?thesis
    by (intro exI conjI) (assumption | rule experiments_text)+
qed

lemma demo_keyed: "keyed (PutState (demo_stub f args)) (GetState (demo_stub f args)) fst"
  by (simp add: keyed_def demo_stub_def demo_put_def demo_get_def)

theorem workers_isolated_witness:
  "\<exists>rs cc' w' rs1 cc1 w1.
    submit_all RecordChaincodeActionInvocation (Err []) demo_commit (demo_stub [] [])
      [(''experimentWrite'', [''a'', ''7'', ''x''], 5), (''experimentWrite'', [''b'', ''1'', ''y''], 5),
       (''experimentRead'', [''a''], 5)] (NewChaincode demo_manager) (\<lambda>_. [], \<lambda>_. []) = Ret (rs, cc', w') \<and>
    submit_all RecordChaincodeActionInvocation (Err []) demo_commit (demo_stub [] [])
      [(''experimentWrite'', [''a'', ''7'', ''x''], 5), (''experimentRead'', [''a''], 5)]
      (NewChaincode demo_manager) (\<lambda>_. [], \<lambda>_. []) = Ret (rs1, cc1, w1) \<and>
    experiments (fst w') ''a'' = experiments (fst w1) ''a''"
proof -
  let ?ts = "[(''experimentWrite'', [''a'', ''7'', ''x''], 5), (''experimentWrite'', [''b'', ''1'', ''y''], 5),
    (''experimentRead'', [''a''], 5)] :: transaction list"
  have m: "wf_metrics (Metrics (NewChaincode demo_manager))" by (simp add: NewChaincode_def demo_manager_wf)
  have c: "committed demo_commit fst ((\<lambda>_. [], \<lambda>_. []) :: demo_ledger)" by (simp add: committed_def demo_commit_def)
  have "filter (about_key ''a'') ?ts =
      [(''experimentWrite'', [''a'', ''7'', ''x''], 5), (''experimentRead'', [''a''], 5)]"
    by (simp add: about_key_def)
  from workers_isolated [OF demo_laws demo_keyed m c, where ts = ?ts and k = "''a''" and notFound = "Err []",
      unfolded this]
  show ?thesis by blast
qed

end
