(* ===== verification/SizeBounds.thy ===== *)
theory SizeBounds
  imports ByteSize
begin

section \<open>How far a data size can be off\<close>

text \<open>
  \<open>LoadByteSize\<close> rounds three times: the number it reads, the multiplier and their product; then
  it drops the fraction. This bounds the total for any decimal number, one with a fraction
  included.
\<close>

subsection \<open>Relative errors\<close>

lemma rounded_half:
  assumes "0 < d" and e: "e = f64_exponent n d"
  shows "\<bar>real (rounded n d) * 2 powi e - real n / real d\<bar> \<le> 2 powi e / 2"
proof -
  define x where "x = real n / real d"
  have "\<bar>real (rounded n d) - x / 2 powi e\<bar> \<le> 1 / 2"
    using round_half_even_half [of "scale_den d e" "scale_num n e"] assms by (simp add: rounded_def scale_ratio x_def)
  moreover have "real (rounded n d) * 2 powi e - x = (real (rounded n d) - x / 2 powi e) * 2 powi e"
    by (simp add: left_diff_distrib)
  ultimately show ?thesis unfolding x_def [symmetric] by (simp add: abs_mult)
qed

text \<open>A positive number is rounded with a relative error of \<open>2 ^ -53\<close>, but for subnormal ones.\<close>

lemma rounded_error:
  assumes d: "0 < d" and e: "e = f64_exponent n d"
  shows "\<bar>real (rounded n d) * 2 powi e - real n / real d\<bar> \<le> real n / real d / 2 ^ 53 + 2 powi (- 1075)"
proof (cases "n = 0")
  case True
  then have "rounded n d = 0" by (simp add: rounded_def round_half_even_def scale_num_def Let_def)
  with True show ?thesis by simp
next
  case False
  then have n: "0 < n" by simp
  note b = f64_exponent_bounds [OF n d e]
  have "2 powi e / 2 \<le> real n / real d / 2 ^ 53 + 2 powi (- 1075)"
  proof (cases "e = - 1074")
    case True
    have "(2 :: real) powi (- 1074) / 2 = 2 powi (- 1075)" by (simp add: power_int_def field_simps)
    then show ?thesis using True by simp
  next
    case False
    then have "2 powi (e + 52) \<le> real n / real d" using b by simp
    then have "2 powi e * 2 ^ 52 \<le> real n / real d" by (simp add: power_int_add)
    then have "2 powi e / 2 \<le> real n / real d / 2 ^ 53" by (simp add: field_simps)
    then show ?thesis by (simp add: add_increasing2)
  qed
  with rounded_half [OF d e] show ?thesis by linarith
qed

lemma round_f64_val: "is_finite (round_f64 n d) \<Longrightarrow> f64_val (round_f64 n d) = real (rounded n d) * 2 powi f64_exponent n d"
  by (cases "round_f64 n d") (auto dest: round_f64_Finite)

lemma f64_val_nonneg: "0 \<le> f64_val x"
  by (cases x) simp_all

lemma small_part: "0 \<le> y \<Longrightarrow> y \<le> b \<Longrightarrow> y / 2 ^ 53 \<le> (b :: real)"
  by (rule order_trans [of _ y]) simp_all

lemma round_f64_finite:
  assumes d: "0 < d" and x: "real n / real d \<le> 2 ^ 1000"
  shows "is_finite (round_f64 n d)"
proof -
  let ?e = "f64_exponent n d"
  have "(2 :: real) powi (- 1075) \<le> 1" by (simp add: power_int_def power_le_one)
  moreover have "real n / real d / 2 ^ 53 \<le> 2 ^ 1000" by (rule small_part [OF _ x]) simp
  ultimately have "real (rounded n d) * 2 powi ?e \<le> 2 ^ 1000 + 2 ^ 1000 + 1"
    using rounded_error [OF d refl, of n] x by linarith
  also have "\<dots> < (2 :: real) ^ 1024" by simp
  finally have "\<not> (0 \<le> ?e \<and> 2 ^ 1024 \<le> rounded n d * 2 ^ nat ?e)"
    using overflow_test [of ?e "rounded n d"] by linarith
  then show ?thesis by (simp add: round_f64_def rounded_def Let_def)
qed

text \<open>\<open>near\<close>: within a relative error of \<open>2 ^ -53\<close>.\<close>

definition near :: "real \<Rightarrow> real \<Rightarrow> bool" where
  "near y x \<longleftrightarrow> x * (1 - 1 / 2 ^ 53) \<le> y \<and> y \<le> x * (1 + 1 / 2 ^ 53)"

lemma one_part: "x * (1 - 1 / k) = x - x / k" "x * (1 + 1 / k) = x + x / k" for x k :: real
  by (simp_all add: right_diff_distrib distrib_left)

lemma round_f64_near:
  assumes d: "0 < d" and fin: "is_finite (round_f64 n d)" and x: "2 powi (- 1022) \<le> real n / real d"
  shows "near (f64_val (round_f64 n d)) (real n / real d)"
proof -
  define e where "e = f64_exponent n d"
  define y where "y = real n / real d"
  have n: "0 < n"
  proof (rule ccontr)
    assume "\<not> 0 < n"
    then have "(2 :: real) powi (- 1022) \<le> 0" using x by simp
    then show False by (simp add: not_le [symmetric])
  qed
  note b = f64_exponent_bounds [OF n d e_def]
  have "2 powi e * 2 ^ 52 \<le> y"
  proof (cases "e = - 1074")
    case True
    have "(2 :: real) powi (- 1074) * 2 ^ 52 = 2 powi (- 1022)" by (simp add: power_int_def field_simps)
    with True x show ?thesis by (simp add: y_def)
  next
    case False
    then show ?thesis using b by (simp add: power_int_add y_def)
  qed
  then have "2 powi e / 2 \<le> y / 2 ^ 53" by (simp add: field_simps)
  moreover have "\<bar>f64_val (round_f64 n d) - y\<bar> \<le> 2 powi e / 2"
    using rounded_half [OF d e_def] round_f64_val [OF fin] by (simp add: e_def y_def)
  ultimately show ?thesis unfolding near_def y_def [symmetric] one_part by linarith
qed

lemma near_three:
  assumes "0 \<le> x" and "0 \<le> m" and a: "near a x" and b: "near b m" and p: "near p (a * b)"
  shows "\<bar>p - x * m\<bar> \<le> x * m / 2 ^ 51"
proof -
  define l h where "l = (1 - 1 / 2 ^ 53 :: real)" and "h = (1 + 1 / 2 ^ 53 :: real)"
  have lh: "0 \<le> l" "0 \<le> h" "1 - 1 / 2 ^ 51 \<le> l * l * l" "h * h * h \<le> 1 + 1 / 2 ^ 51"
    by (simp_all add: l_def h_def)
  have v: "0 \<le> x * m" using assms(1,2) by simp
  have n: "x * l \<le> a" "a \<le> x * h" "m * l \<le> b" "b \<le> m * h" "a * b * l \<le> p" "p \<le> a * b * h"
    using a b p by (simp_all add: near_def l_def h_def)
  have l0: "0 \<le> x * l" "0 \<le> m * l" using assms(1,2) lh(1) by simp_all
  then have ab0: "0 \<le> a" "0 \<le> b" using n by (auto intro: order_trans)
  have "x * m * (1 - 1 / 2 ^ 51) \<le> x * m * (l * l * l)" by (rule mult_left_mono [OF lh(3) v])
  also have "\<dots> = x * l * (m * l) * l" by (simp only: ac_simps)
  also have "\<dots> \<le> a * b * l" using n ab0 l0 lh by (intro mult_right_mono mult_mono) simp_all
  also have "\<dots> \<le> p" by (rule n(5))
  finally have lo: "x * m * (1 - 1 / 2 ^ 51) \<le> p" .
  have "p \<le> a * b * h" by (rule n(6))
  also have "\<dots> \<le> x * h * (m * h) * h" using n ab0 assms(1) lh by (intro mult_right_mono mult_mono) simp_all
  also have "\<dots> = x * m * (h * h * h)" by (simp only: ac_simps)
  also have "\<dots> \<le> x * m * (1 + 1 / 2 ^ 51)" by (rule mult_left_mono [OF lh(4) v])
  finally have hi: "p \<le> x * m * (1 + 1 / 2 ^ 51)" .
  from lo hi show ?thesis unfolding one_part by linarith
qed

subsection \<open>The size that is stored\<close>

lemma f64_mul_round:
  assumes "is_finite x" and "is_finite y"
  shows "\<exists>n d. 0 < d \<and> f64_mul x y = round_f64 n d \<and> real n / real d = f64_val x * f64_val y"
proof -
  obtain m e m' e' where xy: "x = Finite m e" "y = Finite m' e'"
    using assms by (metis f64.exhaust is_finite.simps(2))
  let ?n = "m * m' * 2 ^ nat (e + e')" and ?d = "1 * 2 ^ nat (- (e + e')) :: nat"
  have "real ?n / real ?d = real (m * m') * 2 powi (e + e')"
    by (cases "0 \<le> e + e'") (auto simp: power_int_def field_simps)
  also have "\<dots> = f64_val x * f64_val y" by (simp add: xy power_int_add)
  finally show ?thesis
    by (intro exI [of _ ?n] exI [of _ ?d]) (simp add: xy f64_scaled_def)
qed

lemma f64_to_int_floor:
  "is_finite x \<Longrightarrow> f64_val x < 2 ^ 63 \<Longrightarrow> f64_to_int x = \<lfloor>f64_val x\<rfloor>"
  "is_finite x \<Longrightarrow> 2 ^ 63 \<le> f64_val x \<Longrightarrow> f64_to_int x = - (2 ^ 63)"
proof -
  have f: "nat \<lfloor>r\<rfloor> < 2 ^ 63 \<longleftrightarrow> r < 2 ^ 63" if "0 \<le> r" for r :: real
    using that by (simp add: nat_less_iff floor_less_iff)
  show "is_finite x \<Longrightarrow> f64_val x < 2 ^ 63 \<Longrightarrow> f64_to_int x = \<lfloor>f64_val x\<rfloor>"
    "is_finite x \<Longrightarrow> 2 ^ 63 \<le> f64_val x \<Longrightarrow> f64_to_int x = - (2 ^ 63)"
    using f [OF f64_val_nonneg [of x]] by (cases x; simp add: f64_trunc_floor del: f64_trunc.simps)+
qed

text \<open>The number a text stands for.\<close>

definition decimal_val :: "string \<Rightarrow> real" where
  "decimal_val s = real (digits_val (int_part s @ frac_part s)) / 10 ^ length (frac_part s)"

lemma decimal_val_nonneg: "0 \<le> decimal_val s"
  by (simp add: decimal_val_def)

lemma ParseFloat_round:
  "ParseFloat s = Inr x \<Longrightarrow> \<exists>n d. 0 < d \<and> x = round_f64 n d \<and> is_finite x \<and> real n / real d = decimal_val s"
  unfolding ParseFloat_Inr_iff decimal_val_def by (metis of_nat_numeral of_nat_power zero_less_numeral zero_less_power)

lemma unit_multiplier: "map_of units u = Some m \<Longrightarrow> 1 \<le> m \<and> m \<le> 10 ^ 24"
  by (drule map_of_SomeD) (auto simp: units_def)

lemma multiplier_near:
  assumes "map_of units u = Some m"
  shows "is_finite (f64_of_nat m) \<and> near (f64_val (f64_of_nat m)) (real m)"
proof -
  have m: "1 \<le> real m" "real m \<le> 10 ^ 24" using unit_multiplier [OF assms] by simp_all
  have fin: "is_finite (round_f64 m 1)" using m(2) by (intro round_f64_finite) simp_all
  have "(2 :: real) powi (- 1022) \<le> 1" by (simp add: power_int_def power_le_one)
  with m(1) have "2 powi (- 1022) \<le> real m" by linarith
  then show ?thesis using round_f64_near [of 1 m] fin by (simp add: f64_of_nat_def)
qed

lemma near_bounds: "near y x \<Longrightarrow> 0 \<le> x \<Longrightarrow> x / 2 \<le> y \<and> y \<le> 2 * x"
  unfolding near_def one_part using small_part [of x x] by (simp add: field_simps)

text \<open>The product, for numbers that are not tiny: within \<open>2 ^ -51\<close> of the exact one.\<close>

lemma product_near:
  assumes "ParseFloat s = Inr x" and "map_of units u = Some m" and "2 powi (- 900) \<le> decimal_val s"
    and "is_finite (f64_mul x (f64_of_nat m))"
  shows "\<bar>f64_val (f64_mul x (f64_of_nat m)) - decimal_val s * real m\<bar> \<le> decimal_val s * real m / 2 ^ 51"
proof -
  obtain n d where x: "0 < d" "x = round_f64 n d" "is_finite x" "real n / real d = decimal_val s"
    using ParseFloat_round [OF assms(1)] by blast
  have "(2 :: real) powi (- 1022) \<le> 2 powi (- 900)" by (intro power_int_increasing) simp_all
  then have "2 powi (- 1022) \<le> real n / real d" using assms(3) x(4) by linarith
  from round_f64_near [OF x(1) x(3) [unfolded x(2)] this] have a: "near (f64_val x) (decimal_val s)"
    unfolding x(4) x(2) [symmetric] .
  note b = multiplier_near [OF assms(2)]
  have m: "1 \<le> real m" using unit_multiplier [OF assms(2)] by simp
  obtain n' d' where p: "0 < d'" "f64_mul x (f64_of_nat m) = round_f64 n' d'"
    "real n' / real d' = f64_val x * f64_val (f64_of_nat m)"
    using f64_mul_round [OF x(3)] b by blast
  have "2 powi (- 901) * (1 / 2) \<le> f64_val x * f64_val (f64_of_nat m)"
  proof (rule mult_mono)
    have "(2 :: real) powi (- 901) = 2 powi (- 900) / 2" by (simp add: power_int_def field_simps)
    also have "\<dots> \<le> f64_val x" using near_bounds [OF a decimal_val_nonneg] assms(3) by linarith
    finally show "2 powi (- 901) \<le> f64_val x" .
    show "1 / 2 \<le> f64_val (f64_of_nat m)" using near_bounds [of "f64_val (f64_of_nat m)" "real m"] b m by simp
  qed (simp_all add: f64_val_nonneg)
  moreover have "(2 :: real) powi (- 1022) \<le> 2 powi (- 901) * (1 / 2)"
  proof -
    have "(2 :: real) powi (- 901) * (1 / 2) = 2 powi (- 902)" by (simp add: power_int_def field_simps)
    then show ?thesis by (simp add: power_int_increasing)
  qed
  ultimately have "2 powi (- 1022) \<le> real n' / real d'" using p(3) by simp
  then have "near (f64_val (round_f64 n' d')) (real n' / real d')"
    using assms(4) p(1,2) by (intro round_f64_near) simp_all
  then show ?thesis using p(2,3) a b by (intro near_three) (simp_all add: decimal_val_nonneg)
qed

lemma product_finite:
  assumes "ParseFloat s = Inr x" and "map_of units u = Some m" and "decimal_val s * real m \<le> 2 ^ 63"
  shows "is_finite (f64_mul x (f64_of_nat m))"
proof -
  obtain n d where x: "0 < d" "x = round_f64 n d" "is_finite x" "real n / real d = decimal_val s"
    using ParseFloat_round [OF assms(1)] by blast
  note b = multiplier_near [OF assms(2)]
  have m: "1 \<le> real m" using unit_multiplier [OF assms(2)] by simp
  have e: "(2 :: real) powi (- 1075) \<le> 1" by (simp add: power_int_def power_le_one)
  have "\<bar>f64_val x - decimal_val s\<bar> \<le> decimal_val s / 2 ^ 53 + 2 powi (- 1075)"
    using rounded_error [OF x(1) refl, of n] round_f64_val [of n d] x(2-4) by simp
  then have a: "f64_val x \<le> 2 * decimal_val s + 1"
    using small_part [OF decimal_val_nonneg order_refl, of s] e by linarith
  have "decimal_val s * 1 \<le> decimal_val s * real m" by (rule mult_left_mono [OF m decimal_val_nonneg])
  then have "f64_val x \<le> 2 ^ 65" using a assms(3) by simp
  moreover have "f64_val (f64_of_nat m) \<le> 2 * 10 ^ 24"
    using near_bounds [of "f64_val (f64_of_nat m)" "real m"] b unit_multiplier [OF assms(2)] by simp
  ultimately have "f64_val x * f64_val (f64_of_nat m) \<le> 2 ^ 65 * (2 * 10 ^ 24)"
    by (intro mult_mono) (simp_all add: f64_val_nonneg)
  also have "\<dots> \<le> (2 :: real) ^ 1000" by simp
  finally show ?thesis using f64_mul_round [OF x(3), of "f64_of_nat m"] b by (metis round_f64_finite)
qed

lemma product_tiny:
  assumes "ParseFloat s = Inr x" and "map_of units u = Some m" and "decimal_val s < 2 powi (- 900)"
  shows "f64_val (f64_mul x (f64_of_nat m)) < 1" and "decimal_val s * real m \<le> 1"
proof -
  obtain n d where x: "0 < d" "x = round_f64 n d" "is_finite x" "real n / real d = decimal_val s"
    using ParseFloat_round [OF assms(1)] by blast
  note b = multiplier_near [OF assms(2)]
  have m: "real m \<le> 10 ^ 24" "1 \<le> real m" using unit_multiplier [OF assms(2)] by simp_all
  have e: "(2 :: real) powi (- 1075) \<le> 2 powi (- 900)" by (intro power_int_increasing) simp_all
  have t: "(2 :: real) powi (- 900) = 1 / 2 ^ 900" by (simp add: power_int_def field_simps)
  have "\<bar>f64_val x - decimal_val s\<bar> \<le> decimal_val s / 2 ^ 53 + 2 powi (- 1075)"
    using rounded_error [OF x(1) refl, of n] round_f64_val [of n d] x(2-4) by simp
  then have a: "f64_val x \<le> 3 * (1 / 2 ^ 900)"
    using small_part [OF decimal_val_nonneg order_refl, of s] e assms(3) unfolding t by linarith
  have "f64_val (f64_of_nat m) \<le> 2 * 10 ^ 24"
    using near_bounds [of "f64_val (f64_of_nat m)" "real m"] b m by simp
  then have "f64_val x * f64_val (f64_of_nat m) \<le> 3 * (1 / 2 ^ 900) * (2 * 10 ^ 24)"
    using a by (intro mult_mono) (simp_all add: f64_val_nonneg)
  also have "\<dots> \<le> (1 / 4 :: real)" by simp
  finally have ab: "f64_val x * f64_val (f64_of_nat m) \<le> 1 / 4" .
  obtain n' d' where p: "0 < d'" "f64_mul x (f64_of_nat m) = round_f64 n' d'"
    "real n' / real d' = f64_val x * f64_val (f64_of_nat m)"
    using f64_mul_round [OF x(3)] b by blast
  have nonneg: "0 \<le> f64_val x * f64_val (f64_of_nat m)" by (simp add: f64_val_nonneg)
  have quarter: "(1 / 2 ^ 900 :: real) \<le> 1 / 4" by simp
  show "f64_val (f64_mul x (f64_of_nat m)) < 1"
  proof (cases "is_finite (round_f64 n' d')")
    case True
    then have "\<bar>f64_val (round_f64 n' d') - f64_val x * f64_val (f64_of_nat m)\<bar> \<le>
        f64_val x * f64_val (f64_of_nat m) / 2 ^ 53 + 2 powi (- 1075)"
      using rounded_error [OF p(1) refl, of n'] round_f64_val [of n' d'] p(3) by simp
    then show ?thesis
      using small_part [OF nonneg ab] ab e quarter unfolding t p(2) by linarith
  next
    case False
    then show ?thesis unfolding p(2) by (cases "round_f64 n' d'") simp_all
  qed
  have "decimal_val s * real m \<le> 1 / 2 ^ 900 * 10 ^ 24"
    using assms(3) m unfolding t by (intro mult_mono) simp_all
  also have "\<dots> \<le> (1 :: real)" by simp
  finally show "decimal_val s * real m \<le> 1" .
qed

lemma stored_close:
  assumes p: "ParseFloat s = Inr x" and m: "map_of units u = Some m"
    and V: "V = decimal_val s * real m" and fits: "V * (1 + 1 / 2 ^ 51) < 2 ^ 63"
  shows "\<exists>n. f64_to_int (f64_mul x (f64_of_nat m)) = int n \<and> n < 2 ^ 63 \<and> \<bar>real n - V\<bar> \<le> 1 + V / 2 ^ 51"
proof -
  let ?p = "f64_mul x (f64_of_nat m)"
  have V0: "0 \<le> V" unfolding V by (simp add: decimal_val_nonneg)
  then have part: "0 \<le> V / 2 ^ 51" by simp
  have V63: "V + V / 2 ^ 51 < 2 ^ 63" using fits unfolding one_part .
  have fin: "is_finite ?p" using V63 part by (intro product_finite [OF p m]) (simp add: V [symmetric])
  have close: "\<bar>f64_val ?p - V\<bar> \<le> V / 2 ^ 51 \<or> f64_val ?p < 1 \<and> V \<le> 1"
    using product_near [OF p m _ fin] product_tiny [OF p m] unfolding V by linarith
  then have lt: "f64_val ?p < 2 ^ 63" 
  proof (elim disjE conjE)
    assume "\<bar>f64_val ?p - V\<bar> \<le> V / 2 ^ 51"
    with V63 show ?thesis by linarith
  next
    assume "f64_val ?p < 1"
    then show ?thesis by (rule less_trans) simp
  qed
  define n where "n = nat \<lfloor>f64_val ?p\<rfloor>"
  have n: "f64_to_int ?p = int n" "real n \<le> f64_val ?p" "f64_val ?p < real n + 1"
    using f64_to_int_floor(1) [OF fin lt] f64_val_nonneg [of ?p] by (simp_all add: n_def)
  have "\<bar>real n - V\<bar> \<le> 1 + V / 2 ^ 51"
    using close
  proof
    assume "f64_val ?p < 1 \<and> V \<le> 1"
    moreover from this have "real n < 1" using n(2) by linarith
    then have "real n = 0" by simp
    ultimately show ?thesis using V0 part by linarith
  qed (use n in linarith)
  moreover have "real n < 2 ^ 63" using n(2) lt by linarith
  then have "n < 2 ^ 63" by (metis of_nat_less_iff of_nat_numeral of_nat_power)
  ultimately show ?thesis using n(1) by blast
qed

lemma stored_overflow:
  assumes p: "ParseFloat s = Inr x" and m: "map_of units u = Some m"
    and V: "V = decimal_val s * real m" and big: "2 ^ 63 \<le> V * (1 - 1 / 2 ^ 51)"
  shows "f64_to_int (f64_mul x (f64_of_nat m)) = - (2 ^ 63)"
proof (cases "is_finite (f64_mul x (f64_of_nat m))")
  case True
  have "0 \<le> V / 2 ^ 51" unfolding V by (simp add: decimal_val_nonneg)
  then have V63: "2 ^ 63 \<le> V - V / 2 ^ 51" "2 ^ 63 \<le> V" using big unfolding one_part by linarith+
  have "1 < V" by (rule less_le_trans [OF _ V63(2)]) simp
  then have "2 powi (- 900) \<le> decimal_val s" using product_tiny(2) [OF p m] unfolding V by linarith
  from product_near [OF p m this True] have "2 ^ 63 \<le> f64_val (f64_mul x (f64_of_nat m))"
    using V63(1) unfolding V by linarith
  then show ?thesis by (rule f64_to_int_floor(2) [OF True])
next
  case False
  then show ?thesis by (cases "f64_mul x (f64_of_nat m)") simp_all
qed

lemma ParseFloat_finite:
  assumes "decimal_ok s" and "decimal_val s \<le> 2 ^ 1000"
  shows "\<exists>x. ParseFloat s = Inr x"
  using assms round_f64_finite [of "10 ^ length (frac_part s)" "digits_val (int_part s @ frac_part s)"]
  by (auto simp: ParseFloat_Inr_iff decimal_val_def)

text \<open>
  C40: any decimal number with a unit, of the exact value \<open>V\<close> bytes, is stored as a whole number
  of bytes that is off by at most one byte and the \<open>2 ^ 51\<close>th part of \<open>V\<close>, as long as that stays
  below \<open>2 ^ 63\<close>. From there on (but for the same margin) the text is accepted all the same, and
  the least \<open>int64\<close> is stored, a negative number of bytes.
\<close>

theorem LoadByteSize_close:
  assumes "TrimSpace s = num @ ws @ u" and "num \<noteq> []" and "list_all is_number_byte num"
    and "list_all is_re_space ws" and "unit_matches u" and "decimal_ok num" and "decimal_val num \<le> 2 ^ 1000"
    and m: "map_of units (unit_of u) = Some m" and V: "V = decimal_val num * real m"
  shows "(V * (1 + 1 / 2 ^ 51) < 2 ^ 63 \<longrightarrow>
      (\<exists>n. LoadByteSize s c = (None, c\<lparr>DataSizeBytes := of_nat n\<rparr>) \<and> n < 2 ^ 63 \<and> \<bar>real n - V\<bar> \<le> 1 + V / 2 ^ 51)) \<and>
    (2 ^ 63 \<le> V * (1 - 1 / 2 ^ 51) \<longrightarrow> LoadByteSize s c = (None, c\<lparr>DataSizeBytes := - (2 ^ 63)\<rparr>))"
proof -
  obtain x where x: "ParseFloat num = Inr x" using ParseFloat_finite [OF assms(6,7)] by blast
  have "match_size (TrimSpace s) = Some (num, u)"
    unfolding match_size_Some_iff using assms(1-5) by blast
  then have l: "LoadByteSize s c = (None, c\<lparr>DataSizeBytes := word_of_int (f64_to_int (f64_mul x (f64_of_nat m)))\<rparr>)"
    using x m by (simp add: LoadByteSize_def)
  have w: "word_of_int (int n) = (of_nat n :: go_int)" for n by simp
  have "V * (1 + 1 / 2 ^ 51) < 2 ^ 63 \<Longrightarrow>
      \<exists>n. LoadByteSize s c = (None, c\<lparr>DataSizeBytes := of_nat n\<rparr>) \<and> n < 2 ^ 63 \<and> \<bar>real n - V\<bar> \<le> 1 + V / 2 ^ 51"
    using stored_close [OF x m V] unfolding l by (metis w)
  moreover have "2 ^ 63 \<le> V * (1 - 1 / 2 ^ 51) \<Longrightarrow> LoadByteSize s c = (None, c\<lparr>DataSizeBytes := - (2 ^ 63)\<rparr>)"
    using stored_overflow [OF x m V] unfolding l by simp
  ultimately show ?thesis by blast
qed

text \<open>One and a half gibibytes, and a size that is out of range.\<close>

lemma tenths_text:
  assumes "list_all is_digit [a, b]" and "writes_unit u m" and "u \<noteq> []"
  shows "TrimSpace ([a, CHR ''.'', b] @ u) = [a, CHR ''.'', b] @ [] @ u" and "list_all is_number_byte [a, CHR ''.'', b]"
    and "decimal_ok [a, CHR ''.'', b]" and "decimal_val [a, CHR ''.'', b] = real (digits_val [a, b]) / 10"
proof -
  show n: "list_all is_number_byte [a, CHR ''.'', b]" using assms(1) by (simp add: is_number_byte_def)
  show "TrimSpace ([a, CHR ''.'', b] @ u) = [a, CHR ''.'', b] @ [] @ u"
    using TrimSpace_size [of "[]" "[]" "[a, CHR ''.'', b]", OF _ _ _ n assms(2), of "[]"] by simp
  have "\<not> is_digit CHR ''.''" by (simp add: is_digit_def)
  then have "int_part [a, CHR ''.'', b] = [a]" "frac_part [a, CHR ''.'', b] = [b]"
    using assms(1) by (simp_all add: int_part_def frac_part_def)
  then show "decimal_ok [a, CHR ''.'', b]" "decimal_val [a, CHR ''.'', b] = real (digits_val [a, b]) / 10"
    using assms(1) \<open>\<not> is_digit CHR ''.''\<close> by (simp_all add: decimal_ok_def decimal_val_def)
qed

theorem LoadByteSize_close_witness:
  "\<forall>c :: (unit, unit) WorkerConfig.
    (\<exists>n. LoadByteSize ''1.5GiB'' c = (None, c\<lparr>DataSizeBytes := of_nat n\<rparr>) \<and>
      \<bar>real n - 1610612736\<bar> \<le> 1 + 1610612736 / 2 ^ 51) \<and>
    LoadByteSize ''8.1EiB'' c = (None, c\<lparr>DataSizeBytes := - (2 ^ 63)\<rparr>)"
proof (intro allI conjI)
  fix c :: "(unit, unit) WorkerConfig"
  have u: "writes_unit ''GiB'' (2 ^ 30)" "writes_unit ''EiB'' (2 ^ 60)"
    by (simp_all add: writes_unit_def units_def ascii_lower_def char_of_def bit_0)
  have d: "list_all is_digit [CHR ''1'', CHR ''5'']" "list_all is_digit [CHR ''8'', CHR ''1'']"
    by (simp_all add: is_digit_def)
  have v: "digits_val ''15'' = 15" "digits_val ''81'' = 81" by (simp_all add: digits_val_def digit_val_def)
  note g = tenths_text [OF d(1) u(1)] and e = tenths_text [OF d(2) u(2)]
  show "\<exists>n. LoadByteSize ''1.5GiB'' c = (None, c\<lparr>DataSizeBytes := of_nat n\<rparr>) \<and>
      \<bar>real n - 1610612736\<bar> \<le> 1 + 1610612736 / 2 ^ 51"
    using LoadByteSize_close [of "''1.5GiB''" "''1.5''" "[]" "''GiB''" "2 ^ 30" 1610612736 c]
      g writes_unit_matches [OF u(1)] writes_unit_lookup [OF u(1)] by (auto simp: v)
  show "LoadByteSize ''8.1EiB'' c = (None, c\<lparr>DataSizeBytes := - (2 ^ 63)\<rparr>)"
    using LoadByteSize_close [of "''8.1EiB''" "''8.1''" "[]" "''EiB''" "2 ^ 60" "81 / 10 * 2 ^ 60" c]
      e writes_unit_matches [OF u(2)] writes_unit_lookup [OF u(2)] by (simp add: v)
qed

end
