(* ===== verification/Server.thy ===== *)
theory Server
  imports Chaincode
begin

section \<open>The chaincode server (fabric-chaincode/server.go)\<close>

text \<open>
  \<open>main\<close> reads its environment, makes the metrics manager, runs the chaincode server and the
  metrics server and shuts the latter down. First its part that runs alone (\<open>server_setup\<close>),
  then the two goroutines as a step relation: \<open>main\<close> serves until \<open>ccServer.Start\<close> returns and
  calls \<open>metricsServer.Shutdown\<close>; the other one handles what \<open>ListenAndServe\<close> returns. As
  \<open>net/http\<close> documents, \<open>ListenAndServe\<close> always returns an error, and it is \<open>ErrServerClosed\<close>
  once \<open>Shutdown\<close> has been called. Log output is left out but for the level that is set.
\<close>

subsection \<open>Starting up\<close>

definition ccidEnvVarName :: string where
  "ccidEnvVarName = ''CHAINCODE_ID''"

definition ccAddrEnvVarName :: string where
  "ccAddrEnvVarName = ''CORE_CHAINCODE_ADDRESS''"

definition metricsPort :: nat where
  "metricsPort = 11443"

text \<open>Durations in seconds.\<close>

definition defaultHTTPReadTimeout :: nat where
  "defaultHTTPReadTimeout = 5"
definition defaultHTTPTimeout :: nat where
  "defaultHTTPTimeout = 30"
definition shutdownTimeout :: nat where
  "shutdownTimeout = 10"

text \<open>The level set at the start, \<open>None\<close> for \<open>log.InfoLevel\<close>: that of the variable if it parses.\<close>

definition server_log_level ::
  "(string \<Rightarrow> string option) \<Rightarrow> (string \<Rightarrow> 'l res) \<Rightarrow> 'l option" where
  "server_log_level lookup_env parse_level =
     (let level = (case lookup_env ''CORSHA_CHAINCODE_LOGGING_LEVEL'' of None \<Rightarrow> [] | Some l \<Rightarrow> l) in
      if 0 < length level
      then (case parse_level level of Inr parsedLevel \<Rightarrow> Some parsedLevel | Inl _ \<Rightarrow> None)
      else None)"

text \<open>The logger of the process: the formatter with timestamps, and the level.\<close>

record 'l logger =
  FullTimestamp :: bool
  Level :: "'l option"

definition configure_logger :: "(string \<Rightarrow> string option) \<Rightarrow> (string \<Rightarrow> 'l res) \<Rightarrow> 'l logger" where
  "configure_logger lookup_env parse_level =
     \<lparr>FullTimestamp = True, Level = server_log_level lookup_env parse_level\<rparr>"

record ChaincodeServer =
  CCID :: string
  Address :: string
  CC :: "metricsContainer Chaincode"
  TLS_Disabled :: bool

record http_server =
  Addr :: string
  ReadTimeout :: nat
  WriteTimeout :: nat
  IdleTimeout :: nat

definition server_setup ::
  "(string \<Rightarrow> string option) \<Rightarrow> (string \<Rightarrow> string list \<Rightarrow> 'r \<Rightarrow> 'r option) \<Rightarrow> 'r \<Rightarrow>
   (ChaincodeServer \<times> http_server \<times> 'r) outcome" where
  "server_setup lookup_env register reg =
     (case lookup_env ccidEnvVarName of
        None \<Rightarrow> Fatal (Err ''Error starting Chaincode - missing REQUIRED ENV VAR'')
      | Some ccid \<Rightarrow>
          (case lookup_env ccAddrEnvVarName of
             None \<Rightarrow> Fatal (Err ''Error starting Chaincode - missing REQUIRED ENV VAR'')
           | Some addr \<Rightarrow>
               outcome_bind (NewMetricsManager register reg) (\<lambda>(mm, reg).
                 Ret (\<lparr>CCID = ccid, Address = addr, CC = NewChaincode mm, TLS_Disabled = True\<rparr>,
                      \<lparr>Addr = '':'' @ show_nat metricsPort, ReadTimeout = defaultHTTPReadTimeout,
                       WriteTimeout = defaultHTTPTimeout, IdleTimeout = defaultHTTPTimeout\<rparr>, reg))))"

text \<open>\<open>main\<close> up to the start of the servers: the logger is configured whatever becomes of the set-up.\<close>

definition server_main ::
  "(string \<Rightarrow> string option) \<Rightarrow> (string \<Rightarrow> 'l res) \<Rightarrow> (string \<Rightarrow> string list \<Rightarrow> 'r \<Rightarrow> 'r option) \<Rightarrow> 'r \<Rightarrow>
   'l logger \<times> (ChaincodeServer \<times> http_server \<times> 'r) outcome" where
  "server_main lookup_env parse_level register reg =
     (configure_logger lookup_env parse_level, server_setup lookup_env register reg)"

text \<open>A level that cannot be parsed leaves the default and does not stop the set-up.\<close>

lemma invalid_level_starts:
  "lookup_env ''CORSHA_CHAINCODE_LOGGING_LEVEL'' = Some l \<Longrightarrow> parse_level l = Inl e \<Longrightarrow>
    server_main lookup_env parse_level register reg =
      (\<lparr>FullTimestamp = True, Level = None\<rparr>, server_setup lookup_env register reg)"
  by (simp add: server_main_def configure_logger_def server_log_level_def)

subsection \<open>Running and shutting down\<close>

datatype listen_error = ErrServerClosed | ListenError goerr

text \<open>The handler of the goroutine: the condition is \<open>err != nil && errors.Is(err, http.ErrServerClosed)\<close>.\<close>

definition metrics_goroutine :: "listen_error option \<Rightarrow> unit outcome" where
  "metrics_goroutine err =
     (if err \<noteq> None \<and> err = Some ErrServerClosed
      then Fatal (Err ''Metrics server closed abnormally'') else Ret ())"

datatype main_pc = Serving | ShuttingDown
datatype goroutine_pc = Listening | Returned "listen_error option" | Done

datatype server_state =
    Running main_pc goroutine_pc
  | Exited
  | Killed goerr

inductive server_step :: "server_state \<Rightarrow> server_state \<Rightarrow> bool" where
  listen_fails: "server_step (Running m Listening) (Running m (Returned (Some (ListenError e))))"
| handled: "metrics_goroutine err = Ret () \<Longrightarrow> server_step (Running m (Returned err)) (Running m Done)"
| fatal: "metrics_goroutine err = Fatal e \<Longrightarrow> server_step (Running m (Returned err)) (Killed e)"
| shutdown_called:
    "server_step (Running Serving g)
      (Running ShuttingDown (if g = Listening then Returned (Some ErrServerClosed) else g))"
| shutdown_ok: "server_step (Running ShuttingDown g) Exited"
| shutdown_fails: "server_step (Running ShuttingDown g) (Killed (Err ''Failed to shut down metrics server''))"

code_pred server_step .

inductive_simps server_step_final: "server_step Exited s" "server_step (Killed e) s"

definition server_initial :: server_state where
  "server_initial = Running Serving Listening"

abbreviation server_reaches :: "server_state \<Rightarrow> server_state \<Rightarrow> bool" where
  "server_reaches \<equiv> server_step\<^sup>*\<^sup>*"

lemma server_final: "server_reaches Exited s \<longleftrightarrow> s = Exited" "server_reaches (Killed e) s \<longleftrightarrow> s = Killed e"
  by (auto elim: converse_rtranclpE simp: server_step_final)

subsection \<open>Properties\<close>

text \<open>
  C37: the set-up reaches the servers exactly if both required variables are set and none of the
  four metrics is registered yet; the manager it makes is well formed.
\<close>

theorem server_setup_iff:
  assumes "registry_law register names"
  shows "(\<exists>s h reg'. server_setup lookup_env register reg = Ret (s, h, reg') \<and> wf_metrics (Metrics (CC s))) \<longleftrightarrow>
    lookup_env ''CHAINCODE_ID'' \<noteq> None \<and> lookup_env ''CORE_CHAINCODE_ADDRESS'' \<noteq> None \<and>
    names reg \<inter> metric_names = {}"
proof -
  have m: "(\<exists>m reg'. NewMetricsManager register reg = Ret (m, reg')) \<longleftrightarrow> names reg \<inter> metric_names = {}"
    using NewMetricsManager_returns_iff [OF assms] .
  show ?thesis
  proof (cases "lookup_env ''CHAINCODE_ID''"; cases "lookup_env ''CORE_CHAINCODE_ADDRESS''")
    fix ccid addr
    assume env: "lookup_env ''CHAINCODE_ID'' = Some ccid" "lookup_env ''CORE_CHAINCODE_ADDRESS'' = Some addr"
    show ?thesis
      unfolding m [symmetric] using env
      by (auto simp: server_setup_def ccidEnvVarName_def ccAddrEnvVarName_def NewChaincode_def
          dest: NewMetricsManager_wf)
  qed (simp_all add: server_setup_def ccidEnvVarName_def ccAddrEnvVarName_def)
qed

theorem server_setup_iff_witness:
  "\<exists>s h reg'. server_setup (\<lambda>_. Some ''x'') name_register [] = Ret (s, h, reg') \<and> wf_metrics (Metrics (CC s))"
  using server_setup_iff [OF name_register_law, of "\<lambda>_. Some ''x''" "[]"] by simp

abbreviation abnormal :: goerr where
  "abnormal \<equiv> Err ''Metrics server closed abnormally''"

text \<open>
  C34: a graceful shutdown may end in \<open>log.Fatal\<close>: when \<open>main\<close> shuts the metrics server down,
  \<open>ListenAndServe\<close> returns \<open>ErrServerClosed\<close>, and the goroutine that gets it kills the process
  unless \<open>main\<close> is through first. The comment in the source says that this error does not kill
  the program.
\<close>

theorem shutdown_kills:
  "server_step server_initial (Running ShuttingDown (Returned (Some ErrServerClosed))) \<and>
   server_step (Running ShuttingDown (Returned (Some ErrServerClosed))) (Killed abnormal) \<and>
   server_step (Running ShuttingDown (Returned (Some ErrServerClosed))) Exited"
proof (intro conjI)
  show "server_step server_initial (Running ShuttingDown (Returned (Some ErrServerClosed)))"
    using server_step.shutdown_called [of Listening] by (simp add: server_initial_def)
  show "server_step (Running ShuttingDown (Returned (Some ErrServerClosed))) (Killed abnormal)"
    by (rule server_step.fatal) (simp add: metrics_goroutine_def)
  show "server_step (Running ShuttingDown (Returned (Some ErrServerClosed))) Exited"
    by (rule server_step.shutdown_ok)
qed

definition survivor :: "server_state \<Rightarrow> bool" where
  "survivor s \<longleftrightarrow>
     (case s of Running _ g \<Rightarrow> g \<noteq> Listening \<and> g \<noteq> Returned (Some ErrServerClosed)
      | Exited \<Rightarrow> True | Killed e \<Rightarrow> e \<noteq> abnormal)"

lemma survivor_step: "server_step s s' \<Longrightarrow> survivor s \<Longrightarrow> survivor s'"
  by (induction rule: server_step.induct) (auto simp: survivor_def metrics_goroutine_def split: if_splits)

lemma survivor_reaches: "server_reaches s s' \<Longrightarrow> survivor s \<Longrightarrow> survivor s'"
  by (induction rule: rtranclp_induct) (auto intro: survivor_step)

text \<open>
  An error of the metrics server that is not its shutdown (a port in use, say) is never reported
  as fatal: after it the process cannot end in \<open>Metrics server closed abnormally\<close>.
\<close>

theorem listen_failure_survives:
  assumes "server_reaches (Running m (Returned (Some (ListenError e)))) s"
  shows "s \<noteq> Killed abnormal"
  using survivor_reaches [OF assms] by (auto simp: survivor_def)

theorem listen_failure_survives_witness:
  "server_reaches (Running ShuttingDown (Returned (Some (ListenError (Err ''address already in use''))))) Exited \<and>
    Exited \<noteq> Killed abnormal"
proof -
  have "server_step (Running ShuttingDown (Returned (Some (ListenError (Err ''address already in use''))))) Exited"
    by (rule server_step.shutdown_ok)
  then have r: "server_reaches
      (Running ShuttingDown (Returned (Some (ListenError (Err ''address already in use''))))) Exited"
    by (rule r_into_rtranclp)
  then show ?thesis using listen_failure_survives [OF r] by blast
qed

end
