(* ===== verification/Spec2Isabelle.thy ===== *)
theory Spec2Isabelle
  imports Job PodOutcome ResultPb Isolation SizeBounds Server
begin

text \<open>
  A model of Simi, a load generator for Hyperledger Fabric, and the properties that make it
  correct.

  The program. A Kubernetes job starts pods that run the \<open>simi\<close> command (\<open>cmd/simi.go\<close>). Each
  pod loads its configuration (\<open>config\<close>), installs the operations of a chaincode worker
  (\<open>chaincodes\<close>) and runs a benchmark worker (\<open>benchmark/worker\<close>): it connects to the message
  broker, registers, waits for the start command and then repeats a write and a read, measuring
  both. The consumer (\<open>benchmark/consumer\<close>, \<open>benchmark/cmd\<close>) counts the registrations and
  broadcasts the start command. A write or read runs \<open>kubectl hlf chaincode\<close>, through which a
  peer of the network calls the chaincode (\<open>fabric-chaincode\<close>), which stores an experiment under
  a key or looks one up, and counts the call in its metrics.

  Theories, in the order of their imports, with the sources they model:

  \<^item> \<open>Prelude\<close>: Go's integers and strings, errors (\<open>goerr\<close>), outcomes of functions that may end
    the process or panic, decimal digits.
  \<^item> \<open>Strconv\<close>, \<open>Base64\<close>, \<open>Json\<close>, \<open>Float64\<close>: the parts of Go's standard library that the
    properties depend on: \<open>Itoa\<close>, \<open>Atoi\<close>, \<open>StdEncoding\<close>, \<open>json.Marshal\<close> and \<open>json.Unmarshal\<close> for
    \<open>ExperimentData\<close> (\<open>experiment.go\<close>), and binary64 numbers that are not negative. The locale
    \<open>text_codec\<close> (what is written is read back) is interpreted for each of the three encodings.
  \<^item> \<open>Metrics\<close>: \<open>metrics.go\<close>. A collector is the list of the calls made on it. The interface
    \<open>Manager\<close> is the locale \<open>metrics_manager\<close>, interpreted on \<open>metricsContainer\<close>.
  \<^item> \<open>Chaincode\<close>: \<open>chaincode.go\<close> and \<open>experiment.go\<close>. \<open>Invoke\<close> is proved for any manager and used
    with the container. \<open>ledger_laws\<close> is what the stub documents; \<open>spec_transaction\<close> and
    \<open>spec_history\<close> are the abstract ledger of experiments, which \<open>chaincode_history\<close> shows
    \<open>Invoke\<close> to refine.
  \<^item> \<open>Isolation\<close>: histories of transactions of several workers, compared with the part that is
    about one key.
  \<^item> \<open>Server\<close>: \<open>server.go\<close>; its shutdown, with two goroutines, is the step relation
    \<open>server_step\<close>.
  \<^item> \<open>Config\<close>, \<open>ByteSize\<close>: \<open>config.go\<close> and \<open>loader.go\<close>. \<open>Config\<close> also holds the interface of an
    operation, the locales \<open>chaincode_operation\<close> and \<open>operation_pair\<close>. \<open>SizeBounds\<close> bounds the
    rounding errors of \<open>LoadByteSize\<close>.
  \<^item> \<open>ResultPb\<close>: the rest of \<open>result.pb.go\<close>: the methods that hand the message to the protobuf
    runtime, and the variables of the file with their initialisation.
  \<^item> \<open>Bench\<close>: \<open>BenchOperation\<close> of \<open>worker.go\<close> and the record of \<open>result.pb.go\<close>; its lemmas are
    proved for every \<open>operation_pair\<close>, and for every invariant of the configuration, the world
    and the measurements (\<open>bench_invariant\<close>).
  \<^item> \<open>CCWorker\<close>: \<open>common.go\<close>, \<open>read.go\<close> and \<open>write.go\<close>; \<open>operation_pair\<close> is interpreted on its
    two operations. \<open>simi_decoder\<close> has the options with which the raw configuration is decoded,
    the matching of keys with fields among them.
  \<^item> \<open>Broker\<close>: the calls of the AMQP library, as a record of functions, with the laws about their
    history.
  \<^item> \<open>Worker\<close>: \<open>NewWorker\<close>, \<open>Close\<close> and \<open>Register\<close> of \<open>worker.go\<close>.
  \<^item> \<open>Consumer\<close>: \<open>network.go\<close> and \<open>cmd/consumer.go\<close>.
  \<^item> \<open>SyncProtocol\<close>: the workers' \<open>Register\<close> and the consumer's \<open>SyncRegistrations\<close> interleaved,
    as the step relation \<open>sync_step\<close>, with the failures of both and an early end of the
    consumer's deliveries.
  \<^item> \<open>SyncRefine\<close>: \<open>Register\<close> and \<open>SyncRegistrations\<close>, as defined in \<open>Worker\<close> and \<open>Consumer\<close>, are
    runs of \<open>sync_step\<close> among the steps of the other processes.
  \<^item> \<open>SimiCmd\<close>: \<open>cmd/simi.go\<close>, which joins \<open>ByteSize\<close>, \<open>CCWorker\<close>, \<open>Bench\<close> and \<open>Worker\<close>.
  \<^item> \<open>Pods\<close>: what a pod has after its configuration is loaded, and the pods that are to read.
  \<^item> \<open>PodOutcome\<close>: how a pod that is to write can end.
  \<^item> \<open>Environment\<close>: a process among others. What a process sees of its world is an observation;
    while one of its calls lasts the others make steps, a relation \<open>E\<close> between observations. The
    locale \<open>environment\<close> holds what the operations of the program lead to when the calls of the
    outside make no steps but those of \<open>E\<close>; \<open>bench_invariant\<close> is interpreted on it.
  \<^item> \<open>EndToEnd\<close>: from a worker's write or read through the command line to the ledger. A command
    may fail before or after the chaincode has run, and others may act before and after it
    (\<open>cli_law_among\<close>; \<open>cli_law\<close> when nobody else does). \<open>calls_under K\<close> is what others do to the
    chain with the keys \<open>K\<close>; the locale \<open>chain_environment\<close> is interpreted on it.
  \<^item> \<open>BenchLedger\<close>: a whole benchmark, and a whole pod, with the ledger and the metrics, among
    the commands of others; \<open>bench_invariant\<close> is interpreted there.
  \<^item> \<open>Job\<close>: a pod in a world with both the chain and the start protocol; \<open>environment\<close> is
    interpreted on the steps of the other processes of the protocol.

  How Go is read. A struct is a record with the source's field names (with a prefix where the
  name is taken), a pointer that may be nil an option, an \<open>int\<close>, an \<open>int64\<close> or a duration a
  64-bit word, a \<open>uint32\<close> a 32-bit word, a string or \<open>[]byte\<close> a list of bytes. A result \<open>(T,
  error)\<close> is a sum, an error alone an option; \<open>log.Fatal\<close> is \<open>Fatal\<close> and a panic \<open>Panic\<close>. What
  is outside the repository (the operating system, AMQP, InfluxDB, Prometheus, YAML,
  mapstructure, Fabric's stub and \<open>kubectl\<close>) is an argument of the definitions, often a field of
  a record, that reads and changes a world of type \<open>'w\<close>; a property that needs its documented
  behaviour has it as a named hypothesis, and a witness with a concrete instance.

  What the lemmas show. The history and end-to-end properties say that what the ledger holds is
  what the workers wrote, for single operations, a benchmark and a pod, also when commands fail
  or are reported as failed after they took effect, and that workers with different keys do not
  meet. A pod relies on the others using other keys and guarantees them, in turn, that it uses
  no key but its own; pods that share a key (as do all writers whose configuration leaves \<open>Id\<close>
  empty) still guarantee that, and that the metrics cover what they measured. The
  synchronisation properties say that, unless the broker ends the consumer's deliveries early,
  no worker starts on a command before all have registered, that none that waits misses the
  command, that every run ends and that the reported number is right; the two refinements carry
  them over to \<open>Register\<close> and \<open>SyncRegistrations\<close>, and \<open>operations_after_barrier\<close> joins both
  sides: a pod sends no command to the chaincode before the barrier. Its run is that of
  \<open>pod_run\<close>, the equations of the program's own calls from the start to the end of the process,
  of which each determines the next. The benchmark property says that the loop runs exactly as
  often as configured whatever fails, and that minimum, maximum and total are those of the
  measurements. What a function has done to the outside is seen by what its calls leave there:
  the commands a host has run (\<open>command_history\<close>), the calls and deliveries of the broker
  (\<open>history_laws\<close>, \<open>reading_laws\<close>), the dials and the time slept (\<open>dial_laws\<close>). The others give
  the behaviour of each operation on its branches, errors included; a soundly configured pod
  that is to write never panics. Some state where the code falls short of its intent: pods that
  are to read, whose job index never reaches the worker, sizes out of range, a period of zero,
  \<open>numWriters\<close> 0, deliveries that end early, an error of the consumer that is lost and the
  inverted test for \<open>ErrServerClosed\<close>.

  Loops and bounds. Every loop is a terminating function: over the list of deliveries, over a
  \<open>uint32\<close> counter (\<open>bench_loop\<close>, measured by the iterations left), over the nine attempts of
  \<open>NewWorker\<close>, over texts and tokens; no fuel is used. A run of \<open>sync_step\<close> for \<open>N\<close> workers has
  at most \<open>4 * N + 2\<close> steps. A wait for deliveries that have not arrived is \<open>None\<close>. JSON nests
  at most 10000 deep, as in \<open>encoding/json\<close>. Converting a float64 that is out of range to \<open>int\<close>
  gives the least \<open>int64\<close>, as on amd64, for which the Makefile builds.

  Not modelled: a worker that registers a second time (in \<open>sync_step\<close> each of the \<open>N\<close> workers
  goes through \<open>Register\<close> once, so a pod that Kubernetes restarts and that registers again is
  not a step, and its registration is not counted twice), log output (but for the level that is
  set and severities in \<open>Metrics\<close>), the HTTP and gRPC servers, the protobuf runtime, generated
  mock code, the shell scripts and charts for deployment, and memory limits: a data size is only
  limited by \<open>int\<close>. Constants that the program declares and never uses (the queue and content
  types of \<open>network.go\<close>, \<open>DefaultJobID\<close>, \<open>timeout\<close>) are left out, as are the checks of the
  protobuf version that the Go compiler makes.
\<close>

end
